(* ===== verification/Go_Prelude.thy ===== *)
theory Go_Prelude
  imports Main "HOL-Library.Word" "HOL-Library.Char_ord" "HOL-Library.List_Lexorder"
begin

text \<open>
  What the components of Gluon share: the parts of the Go language and of its standard library
  that the sources use (bytes and ASCII case, decimal formatting, \<open>strings.Join\<close> and
  \<open>strings.Split\<close>, \<open>slices.BinarySearchFunc\<close>), the outcome type of operations that may
  return an error or panic, the collections of rewrite rules, and generic lemmas on lists.

  A Go \<open>byte\<close> is a HOL \<open>char\<close> (both have 256 values) and a Go \<open>string\<close> or \<open>[]byte\<close> is a
  list of them. A Go \<open>int\<close> is a 64-bit word read with \<open>sint\<close> where the sources can overflow it,
  and a HOL \<open>int\<close> where it is an index or a count of objects in memory. \<open>uint32\<close> is \<open>32 word\<close>.
\<close>

named_theorems parser_defs \<open>definitions of the parser primitives\<close>
named_theorems at_simps \<open>evaluation of the parser on an explicit remaining input\<close>
named_theorems yield_intros \<open>rules for what a successful parse yields\<close>
named_theorems safe_intros \<open>rules for parsers that terminate and never move backwards\<close>

type_synonym bytes = "char list"
type_synonym goint = "64 word"
type_synonym uint32 = "32 word"

section \<open>Outcomes\<close>

text \<open>An operation returns a value, returns an error value, or panics.\<close>

datatype ('e, 'a) outcome = Ok 'a | Err 'e | Panic string

fun bind_outcome :: "('e, 'a) outcome \<Rightarrow> ('a \<Rightarrow> ('e, 'b) outcome) \<Rightarrow> ('e, 'b) outcome" where
  "bind_outcome (Ok a) f = f a"
| "bind_outcome (Err e) f = Err e"
| "bind_outcome (Panic m) f = Panic m"

fun panics :: "('e, 'a) outcome \<Rightarrow> bool" where
  "panics (Panic m) = True"
| "panics _ = False"

lemma bind_outcome_Ok [simp]:
  "bind_outcome r f = Ok b \<longleftrightarrow> (\<exists>a. r = Ok a \<and> f a = Ok b)"
  by (cases r) auto

lemma bind_outcome_cong [fundef_cong]:
  assumes "r = r'" and "\<And>a. r' = Ok a \<Longrightarrow> f a = f' a"
  shows "bind_outcome r f = bind_outcome r' f'"
  using assms by (cases r') auto

lemma not_panics_iff: "\<not> panics r \<longleftrightarrow> (\<exists>a. r = Ok a) \<or> (\<exists>e. r = Err e)"
  by (cases r) auto

section \<open>Bytes, ASCII case\<close>

abbreviation bval :: "char \<Rightarrow> nat" where
  "bval c \<equiv> of_char c"

text \<open>
  \<open>strings.ToLower\<close> and \<open>strings.EqualFold\<close> on ASCII text. Bytes from 128 up are left as they are:
  the Unicode case tables are not modelled.
\<close>

definition lower_byte :: "char \<Rightarrow> char" where
  "lower_byte b = (if 65 \<le> bval b \<and> bval b \<le> 90 then char_of (bval b + 32) else b)"

definition ToLower :: "string \<Rightarrow> string" where
  "ToLower s = map lower_byte s"

definition EqualFold :: "string \<Rightarrow> string \<Rightarrow> bool" where
  "EqualFold s t \<longleftrightarrow> ToLower s = ToLower t"

lemma bval_bound: "bval c < 256"
  by (rule nat_of_char_less_256)

lemma lower_byte_val:
  "bval (lower_byte b) = (if 65 \<le> bval b \<and> bval b \<le> 90 then bval b + 32 else bval b)"
  by (simp add: lower_byte_def)

lemma lower_byte_idem [simp]: "lower_byte (lower_byte b) = lower_byte b"
  by (auto simp: lower_byte_def)

lemma ToLower_idem [simp]: "ToLower (ToLower s) = ToLower s"
  by (simp add: ToLower_def)

lemma ToLower_Nil [simp]: "ToLower [] = []"
  by (simp add: ToLower_def)

lemma ToLower_Cons [simp]: "ToLower (c # s) = lower_byte c # ToLower s"
  by (simp add: ToLower_def)

lemma ToLower_append [simp]: "ToLower (s @ t) = ToLower s @ ToLower t"
  by (simp add: ToLower_def)

lemma length_ToLower [simp]: "length (ToLower s) = length s"
  by (simp add: ToLower_def)

lemma EqualFold_refl [simp]: "EqualFold s s"
  by (simp add: EqualFold_def)

section \<open>Formatting: decimal and hexadecimal numbers, Join, Split\<close>

definition digit_char :: "nat \<Rightarrow> char" where
  "digit_char d = char_of (48 + d)"

fun show_nat :: "nat \<Rightarrow> string" where
  "show_nat n = (if n < 10 then [digit_char n] else show_nat (n div 10) @ [digit_char (n mod 10)])"

declare show_nat.simps [simp del]

definition show_int :: "int \<Rightarrow> string" where
  "show_int i = (if i < 0 then ''-'' @ show_nat (nat (- i)) else show_nat (nat i))"

definition hex_digit :: "nat \<Rightarrow> char" where
  "hex_digit d = (if d < 10 then char_of (48 + d) else char_of (87 + d))"

text \<open>The verb \<open>%x\<close> applied to a byte.\<close>

definition show_hex :: "char \<Rightarrow> string" where
  "show_hex c =
     (if bval c < 16 then [hex_digit (bval c)]
      else [hex_digit (bval c div 16), hex_digit (bval c mod 16)])"

fun Join :: "string list \<Rightarrow> string \<Rightarrow> string" where
  "Join [] sep = []"
| "Join [s] sep = s"
| "Join (s # ss) sep = s @ sep @ Join ss sep"

text \<open>\<open>strings.Split\<close> for a separator of one byte, the only use in the modelled sources.\<close>

fun split_byte :: "string \<Rightarrow> char \<Rightarrow> string list" where
  "split_byte [] d = [[]]"
| "split_byte (c # s) d =
     (if c = d then [] # split_byte s d
      else (case split_byte s d of [] \<Rightarrow> [[c]] | w # ws \<Rightarrow> (c # w) # ws))"

lemma split_byte_nonempty [simp]: "split_byte s d \<noteq> []"
  by (cases s) (auto split: list.splits)

text \<open>The value of a string of decimal digits, most significant digit first.\<close>

definition digit_val :: "char \<Rightarrow> nat" where
  "digit_val c = bval c - 48"

definition is_digit :: "char \<Rightarrow> bool" where
  "is_digit c \<longleftrightarrow> 48 \<le> bval c \<and> bval c \<le> 57"

definition dec_val :: "string \<Rightarrow> nat" where
  "dec_val ds = foldl (\<lambda>n c. 10 * n + digit_val c) 0 ds"

lemma digit_val_digit_char [simp]: "d < 10 \<Longrightarrow> digit_val (digit_char d) = d"
  by (simp add: digit_val_def digit_char_def)

lemma is_digit_digit_char [simp]: "d < 10 \<Longrightarrow> is_digit (digit_char d)"
  by (simp add: is_digit_def digit_char_def)

lemma dec_val_snoc: "dec_val (ds @ [c]) = 10 * dec_val ds + digit_val c"
  by (simp add: dec_val_def)

lemma show_nat_nonempty [simp]: "show_nat n \<noteq> []"
  by (subst show_nat.simps) simp

lemma show_nat_digits: "\<forall>c \<in> set (show_nat n). is_digit c"
proof (induction n rule: show_nat.induct)
  case (1 n)
  then show ?case by (subst show_nat.simps) (cases "n < 10", auto)
qed

lemma dec_val_show_nat: "dec_val (show_nat n) = n"
proof (induction n rule: show_nat.induct)
  case (1 n)
  show ?case
  proof (cases "n < 10")
    case True
    then show ?thesis by (subst show_nat.simps) (simp add: dec_val_def)
  next
    case False
    with 1 have IH: "dec_val (show_nat (n div 10)) = n div 10" by simp
    have "dec_val (show_nat n) = dec_val (show_nat (n div 10) @ [digit_char (n mod 10)])"
      using False by (subst show_nat.simps) simp
    also have "\<dots> = 10 * (n div 10) + n mod 10" by (simp add: dec_val_snoc IH)
    finally show ?thesis by simp
  qed
qed

section \<open>Binary search\<close>

text \<open>
  The loop of \<open>slices.BinarySearchFunc\<close>: it keeps \<open>cmp(x[i-1], target) < 0\<close> and
  \<open>cmp(x[j], target) \<ge> 0\<close>, and returns the first index whose element does not compare below
  the target. \<open>below k\<close> stands for \<open>cmp(x[k], target) < 0\<close>.
\<close>

function bsearch_loop :: "(nat \<Rightarrow> bool) \<Rightarrow> nat \<Rightarrow> nat \<Rightarrow> nat" where
  "bsearch_loop below i j =
     (if i < j then
        (let h = (i + j) div 2
         in if below h then bsearch_loop below (h + 1) j else bsearch_loop below i h)
      else i)"
  by pat_completeness auto
termination
  by (relation "measure (\<lambda>(below, i, j). j - i)") auto

declare bsearch_loop.simps [simp del]

definition BinarySearchFunc :: "'a list \<Rightarrow> 'b \<Rightarrow> ('a \<Rightarrow> 'b \<Rightarrow> int) \<Rightarrow> nat \<times> bool" where
  "BinarySearchFunc xs target cmp =
     (let n = length xs;
          i = bsearch_loop (\<lambda>h. cmp (xs ! h) target < 0) 0 n
      in (i, i < n \<and> cmp (xs ! i) target = 0))"

lemma bsearch_loop_correct:
  assumes "i \<le> j" and "j \<le> n"
    and "\<And>a b. a < b \<Longrightarrow> b < n \<Longrightarrow> below b \<Longrightarrow> below a"
    and "\<And>a. a < i \<Longrightarrow> below a" and "\<And>a. j \<le> a \<Longrightarrow> a < n \<Longrightarrow> \<not> below a"
  shows "bsearch_loop below i j \<le> n \<and> (\<forall>a < n. below a \<longleftrightarrow> a < bsearch_loop below i j)"
  using assms
proof (induction below i j rule: bsearch_loop.induct)
  case (1 below i j)
  let ?h = "(i + j) div 2"
  show ?case
  proof (cases "i < j")
    case False
    with "1.prems" have "i = j" by simp
    then have "bsearch_loop below i j = i" by (subst bsearch_loop.simps) simp
    with "1.prems"(2,4,5) \<open>i = j\<close> show ?thesis by (auto simp: not_less [symmetric])
  next
    case True
    then have h: "i \<le> ?h" "?h < j" by auto
    show ?thesis
    proof (cases "below ?h")
      case b: True
      have "a < ?h + 1 \<Longrightarrow> below a" for a
        using b "1.prems"(2) "1.prems"(3)[of a ?h] h by (cases "a = ?h") auto
      then have "bsearch_loop below (?h + 1) j \<le> n
          \<and> (\<forall>a < n. below a \<longleftrightarrow> a < bsearch_loop below (?h + 1) j)"
        using h "1.prems" by (intro "1.IH"(1)[OF True refl b]) auto
      with True b show ?thesis by (simp add: Let_def bsearch_loop.simps [of below i j])
    next
      case b: False
      have "\<not> below a" if "?h \<le> a" "a < n" for a
        using b "1.prems"(3)[of ?h a] that by (cases "a = ?h") auto
      then have "bsearch_loop below i ?h \<le> n
          \<and> (\<forall>a < n. below a \<longleftrightarrow> a < bsearch_loop below i ?h)"
        using h "1.prems" by (intro "1.IH"(2)[OF True refl b]) auto
      with True b show ?thesis by (simp add: Let_def bsearch_loop.simps [of below i j])
    qed
  qed
qed

section \<open>Lists\<close>

lemma sorted_wrt_map_nth_less:
  "sorted_wrt (\<lambda>x y. f x < f y) xs \<Longrightarrow> i < j \<Longrightarrow> j < length xs \<Longrightarrow> f (xs ! i) < f (xs ! j)"
  by (rule sorted_wrt_nth_less)

lemma filter_take_drop:
  assumes "k \<le> length xs" and "\<forall>i < length xs. P (xs ! i) \<longleftrightarrow> i < k"
  shows "filter P xs = take k xs" and "filter (\<lambda>x. \<not> P x) xs = drop k xs"
proof -
  have 1: "\<forall>x \<in> set (take k xs). P x" and 2: "\<forall>x \<in> set (drop k xs). \<not> P x"
    using assms by (auto simp: in_set_conv_nth)
  have "filter P (take k xs @ drop k xs) = take k xs"
    using 1 2 by (simp only: filter_append) (simp add: filter_id_conv filter_empty_conv)
  then show "filter P xs = take k xs" by simp
  have "filter (\<lambda>x. \<not> P x) (take k xs @ drop k xs) = drop k xs"
    using 1 2 by (simp only: filter_append) (simp add: filter_id_conv filter_empty_conv)
  then show "filter (\<lambda>x. \<not> P x) xs = drop k xs" by simp
qed

end
