(* ===== verification/Rfc_Scanner.thy ===== *)
theory Rfc_Scanner
  imports Go_Prelude
begin

text \<open>
  The byte scanner of \<open>rfcparser/scanner.go\<close>: token types, tokens, the reader a scanner pulls
  bytes from, and the scanner operations. The reader is the sequence of bytes the connection will
  still deliver and the error it reports after them (\<open>io.EOF\<close> or another one).
\<close>

section \<open>Data\<close>

datatype (plugins only: code) TokenType =
    TokenTypeEOF | TokenTypeError | TokenTypeSP | TokenTypeExclamation | TokenTypeDQuote
  | TokenTypeHash | TokenTypeDollar | TokenTypePercent | TokenTypeAmpersand | TokenTypeSQuote
  | TokenTypeLParen | TokenTypeRParen | TokenTypeAsterisk | TokenTypePlus | TokenTypeComma
  | TokenTypeMinus | TokenTypePeriod | TokenTypeSlash | TokenTypeSemicolon | TokenTypeColon
  | TokenTypeLess | TokenTypeEqual | TokenTypeGreater | TokenTypeQuestion | TokenTypeAt
  | TokenTypeLBracket | TokenTypeRBracket | TokenTypeCaret | TokenTypeUnderscore
  | TokenTyeBacktick | TokenTypeLCurly | TokenTypePipe | TokenTypeRCurly | TokenTypeTilde
  | TokenTypeBackslash | TokenTypeDigit | TokenTypeChar | TokenTypeExtendedChar | TokenTypeCR
  | TokenTypeLF | TokenTypeCTL | TokenTypeTab | TokenTypeDelete | TokenTypeZero

record Token =
  TType :: TokenType
  Value :: char
  Offset :: int

datatype io_error = IO_EOF | IO_Other string

record Reader =
  pending :: bytes
  at_end :: io_error

record Scanner =
  source :: Reader
  currentByte :: char
  offset :: int

definition NewScannerWithReader :: "Reader \<Rightarrow> Scanner" where
  "NewScannerWithReader r = \<lparr>source = r, currentByte = CHR 0x00, offset = 0\<rparr>"

section \<open>Classification of bytes\<close>

definition isByteAlpha :: "char \<Rightarrow> bool" where
  "isByteAlpha b \<longleftrightarrow> (65 \<le> bval b \<and> bval b \<le> 90) \<or> (97 \<le> bval b \<and> bval b \<le> 122)"

definition isByteDigit :: "char \<Rightarrow> bool" where
  "isByteDigit b \<longleftrightarrow> 48 \<le> bval b \<and> bval b \<le> 57"

definition isByteExtendedChar :: "char \<Rightarrow> bool" where
  "isByteExtendedChar b \<longleftrightarrow> 128 \<le> bval b"

definition isByteCTL :: "char \<Rightarrow> bool" where
  "isByteCTL b \<longleftrightarrow> bval b \<le> 31"

definition ByteToLower :: "char \<Rightarrow> char" where
  "ByteToLower b = (if 65 \<le> bval b \<and> bval b \<le> 90 then char_of (97 + (bval b - 65)) else b)"

text \<open>The two switches of \<open>ScanToken\<close>: control characters, and single punctuation bytes.\<close>

definition ctl_type :: "char \<Rightarrow> TokenType" where
  "ctl_type b =
     (if b = CHR 0x00 then TokenTypeZero
      else if b = CHR 0x0D then TokenTypeCR
      else if b = CHR 0x0A then TokenTypeLF
      else if b = CHR 0x09 then TokenTypeTab
      else TokenTypeCTL)"

definition punct_type :: "char \<Rightarrow> TokenType option" where
  "punct_type b =
     (if b = CHR '' '' then Some TokenTypeSP
      else if b = CHR ''!'' then Some TokenTypeExclamation
      else if b = CHR 0x22 then Some TokenTypeDQuote
      else if b = CHR ''#'' then Some TokenTypeHash
      else if b = CHR ''$'' then Some TokenTypeDollar
      else if b = CHR ''%'' then Some TokenTypePercent
      else if b = CHR ''&'' then Some TokenTypeAmpersand
      else if b = CHR 0x27 then Some TokenTypeSQuote
      else if b = CHR 0x5C then Some TokenTypeBackslash
      else if b = CHR ''('' then Some TokenTypeLParen
      else if b = CHR '')'' then Some TokenTypeRParen
      else if b = CHR ''*'' then Some TokenTypeAsterisk
      else if b = CHR ''+'' then Some TokenTypePlus
      else if b = CHR '','' then Some TokenTypeComma
      else if b = CHR ''-'' then Some TokenTypeMinus
      else if b = CHR ''.'' then Some TokenTypePeriod
      else if b = CHR ''/'' then Some TokenTypeSlash
      else if b = CHR '':'' then Some TokenTypeColon
      else if b = CHR '';'' then Some TokenTypeSemicolon
      else if b = CHR ''<'' then Some TokenTypeLess
      else if b = CHR ''='' then Some TokenTypeEqual
      else if b = CHR ''>'' then Some TokenTypeGreater
      else if b = CHR ''?'' then Some TokenTypeQuestion
      else if b = CHR ''@'' then Some TokenTypeAt
      else if b = CHR ''['' then Some TokenTypeLBracket
      else if b = CHR '']'' then Some TokenTypeRBracket
      else if b = CHR ''^'' then Some TokenTypeCaret
      else if b = CHR ''_'' then Some TokenTypeUnderscore
      else if b = CHR 0x60 then Some TokenTyeBacktick
      else if b = CHR ''{'' then Some TokenTypeLCurly
      else if b = CHR ''|'' then Some TokenTypePipe
      else if b = CHR ''}'' then Some TokenTypeRCurly
      else if b = CHR ''~'' then Some TokenTypeTilde
      else if b = CHR 0x7F then Some TokenTypeDelete
      else None)"

definition byte_type :: "char \<Rightarrow> TokenType option" where
  "byte_type b =
     (if isByteDigit b then Some TokenTypeDigit
      else if isByteAlpha b then Some TokenTypeChar
      else if isByteExtendedChar b then Some TokenTypeExtendedChar
      else if isByteCTL b then Some (ctl_type b)
      else punct_type b)"

section \<open>Scanner operations\<close>

definition makeToken :: "Scanner \<Rightarrow> TokenType \<Rightarrow> Token" where
  "makeToken s t = \<lparr>TType = t, Value = currentByte s, Offset = offset s\<rparr>"

definition makeEOF :: "Scanner \<Rightarrow> Token" where
  "makeEOF s = \<lparr>TType = TokenTypeEOF, Value = CHR 0x00, Offset = offset s\<rparr>"

definition zeroToken :: Token where
  "zeroToken = \<lparr>TType = TokenTypeEOF, Value = CHR 0x00, Offset = 0\<rparr>"

definition ReadByte :: "Reader \<Rightarrow> (io_error + char) \<times> Reader" where
  "ReadByte r =
     (case pending r of
        [] \<Rightarrow> (Inl (at_end r), r)
      | b # bs \<Rightarrow> (Inr b, r\<lparr>pending := bs\<rparr>))"

definition scanner_advance :: "Scanner \<Rightarrow> (io_error + char) \<times> Scanner" where
  "scanner_advance s =
     (case ReadByte (source s) of
        (Inl e, r) \<Rightarrow> (Inl e, s\<lparr>source := r\<rparr>)
      | (Inr b, r) \<Rightarrow> (Inr b, s\<lparr>source := r, currentByte := b, offset := offset s + 1\<rparr>))"

text \<open>\<open>Inl b\<close> is the error \<open>unexpected character b\<close>.\<close>

definition ScanToken :: "Scanner \<Rightarrow> (char + Token) \<times> Scanner" where
  "ScanToken s =
     (case scanner_advance s of
        (Inl e, s') \<Rightarrow> (Inr (if e = IO_EOF then makeEOF s' else zeroToken), s')
      | (Inr b, s') \<Rightarrow>
          ((case byte_type b of Some t \<Rightarrow> Inr (makeToken s' t) | None \<Rightarrow> Inl b), s'))"

text \<open>
  \<open>io.ReadFull\<close>: all the bytes asked for, or the reader's error once the bytes have run out.
  \<open>io.ErrUnexpectedEOF\<close> is what it reports for \<open>io.EOF\<close> after some bytes; the caller turns
  both into \<open>io.EOF\<close>.
\<close>

definition ReadFull :: "Reader \<Rightarrow> nat \<Rightarrow> (io_error + bytes) \<times> Reader" where
  "ReadFull r n =
     (if n \<le> length (pending r) then (Inr (take n (pending r)), r\<lparr>pending := drop n (pending r)\<rparr>)
      else (Inl (at_end r), r\<lparr>pending := []\<rparr>))"

text \<open>\<open>Scanner.ConsumeBytes\<close> for a destination of \<open>n > 0\<close> bytes; the source panics for \<open>n = 0\<close>.\<close>

definition scanner_ConsumeBytes :: "nat \<Rightarrow> Scanner \<Rightarrow> (io_error, bytes) outcome \<times> Scanner" where
  "scanner_ConsumeBytes n s =
     (if n = 0 then (Panic ''index out of range'', s)
      else
        (case ReadFull (source s) (n - 1) of
           (Inl e, r) \<Rightarrow> (Err e, s\<lparr>source := r\<rparr>)
         | (Inr bs, r) \<Rightarrow>
             (Ok (currentByte s # bs), s\<lparr>source := r, offset := offset s + int (n - 1)\<rparr>)))"

definition ConsumeUntilNewLine :: "Scanner \<Rightarrow> (io_error + bytes) \<times> Scanner" where
  "ConsumeUntilNewLine s =
     (let bs = pending (source s);
          line = takeWhile (\<lambda>b. b \<noteq> CHR 0x0A) bs
      in if length line < length bs
         then (Inr (line @ [CHR 0x0A]),
               s\<lparr>source := (source s)\<lparr>pending := drop (length line + 1) bs\<rparr>\<rparr>)
         else (Inl (at_end (source s)), s\<lparr>source := (source s)\<lparr>pending := []\<rparr>\<rparr>))"

definition scanner_ResetOffsetCounter :: "Scanner \<Rightarrow> Scanner" where
  "scanner_ResetOffsetCounter s = s\<lparr>offset := 0\<rparr>"

section \<open>Every byte has exactly one token type\<close>

lemmas byte_class_defs = byte_type_def punct_type_def ctl_type_def isByteDigit_def isByteAlpha_def
  isByteExtendedChar_def isByteCTL_def

lemma byte_type_total: "byte_type b \<noteq> None"
proof (cases b)
  case (Char b0 b1 b2 b3 b4 b5 b6 b7)
  show ?thesis
    unfolding Char
    by (cases b0; cases b1; cases b2; cases b3; cases b4; cases b5; cases b6; cases b7)
      (simp_all add: byte_class_defs)
qed

definition tok_type :: "char \<Rightarrow> TokenType" where
  "tok_type b = the (byte_type b)"

lemma byte_type_tok: "byte_type b = Some (tok_type b)"
  using byte_type_total by (simp add: tok_type_def)

lemma tok_type_eq_iff: "tok_type b = t \<longleftrightarrow> byte_type b = Some t"
  by (simp add: byte_type_tok)

lemma tok_type_not_EOF [simp]: "tok_type b \<noteq> TokenTypeEOF"
  unfolding tok_type_eq_iff by (simp add: byte_class_defs)

lemma tok_type_classes:
  "tok_type b = TokenTypeDigit \<longleftrightarrow> isByteDigit b"
  "tok_type b = TokenTypeChar \<longleftrightarrow> isByteAlpha b"
  "tok_type b = TokenTypeExtendedChar \<longleftrightarrow> isByteExtendedChar b"
  unfolding tok_type_eq_iff by (auto simp: byte_class_defs)

text \<open>Each punctuation type stands for one byte.\<close>

lemma tok_type_punct:
  "tok_type b = TokenTypeDQuote \<longleftrightarrow> b = CHR 0x22"
  "tok_type b = TokenTypeBackslash \<longleftrightarrow> b = CHR 0x5C"
  "tok_type b = TokenTypeSP \<longleftrightarrow> b = CHR '' ''"
  "tok_type b = TokenTypeCR \<longleftrightarrow> b = CHR 0x0D"
  "tok_type b = TokenTypeLF \<longleftrightarrow> b = CHR 0x0A"
  "tok_type b = TokenTypeColon \<longleftrightarrow> b = CHR '':''"
  "tok_type b = TokenTypeComma \<longleftrightarrow> b = CHR '',''"
  "tok_type b = TokenTypeAsterisk \<longleftrightarrow> b = CHR ''*''"
  "tok_type b = TokenTypeLCurly \<longleftrightarrow> b = CHR ''{''"
  "tok_type b = TokenTypeRCurly \<longleftrightarrow> b = CHR ''}''"
  "tok_type b = TokenTypeRBracket \<longleftrightarrow> b = CHR '']''"
  "tok_type b = TokenTypeLBracket \<longleftrightarrow> b = CHR ''[''"
  "tok_type b = TokenTypeLParen \<longleftrightarrow> b = CHR ''(''"
  "tok_type b = TokenTypeRParen \<longleftrightarrow> b = CHR '')''"
  "tok_type b = TokenTypePlus \<longleftrightarrow> b = CHR ''+''"
  "tok_type b = TokenTypeMinus \<longleftrightarrow> b = CHR ''-''"
  "tok_type b = TokenTypePeriod \<longleftrightarrow> b = CHR ''.''"
  "tok_type b = TokenTypePercent \<longleftrightarrow> b = CHR ''%''"
  "tok_type b = TokenTypeLess \<longleftrightarrow> b = CHR ''<''"
  "tok_type b = TokenTypeGreater \<longleftrightarrow> b = CHR ''>''"
  "tok_type b = TokenTypeTab \<longleftrightarrow> b = CHR 0x09"
  unfolding tok_type_eq_iff by (auto simp: byte_class_defs split: if_splits)

lemmas tok_type_iff = tok_type_classes tok_type_punct

lemma ByteToLower_lower_byte: "ByteToLower b = lower_byte b"
  by (simp add: ByteToLower_def lower_byte_def add.commute)

lemma isByteDigit_is_digit: "isByteDigit b = is_digit b"
  by (simp add: isByteDigit_def is_digit_def)

section \<open>The scanner delivers the input\<close>

text \<open>Reading \<open>n\<close> tokens in a row.\<close>

fun scan_tokens :: "nat \<Rightarrow> Scanner \<Rightarrow> Token list \<times> Scanner" where
  "scan_tokens 0 s = ([], s)"
| "scan_tokens (Suc n) s =
     (case ScanToken s of
        (Inl b, s') \<Rightarrow> ([], s')
      | (Inr t, s') \<Rightarrow> (let (ts, s'') = scan_tokens n s' in (t # ts, s'')))"

lemma ScanToken_Cons:
  assumes "pending (source s) = b # bs"
  shows "ScanToken s =
     (Inr \<lparr>TType = tok_type b, Value = b, Offset = offset s + 1\<rparr>,
      s\<lparr>source := (source s)\<lparr>pending := bs\<rparr>, currentByte := b, offset := offset s + 1\<rparr>)"
  using assms
  by (simp add: ScanToken_def scanner_advance_def ReadByte_def byte_type_tok makeToken_def)

lemma ScanToken_Nil:
  assumes "pending (source s) = []"
  shows "ScanToken s = (Inr (if at_end (source s) = IO_EOF then makeEOF s else zeroToken), s)"
  using assms by (simp add: ScanToken_def scanner_advance_def ReadByte_def makeEOF_def)

lemma ScanToken_total: "\<exists>t s'. ScanToken s = (Inr t, s')"
  by (cases "pending (source s)") (simp_all add: ScanToken_Cons ScanToken_Nil)

end
