(* ===== verification/Rfc_Parser.thy ===== *)
theory Rfc_Parser
  imports Rfc_Scanner
begin

text \<open>
  The token parser of \<open>rfcparser/parser.go\<close>. A parsing operation is a function from the parser's
  state to a result and the new state; the new state is there on errors too, since the session
  goes on reading from the same scanner after a bad command. Loops of the source are \<open>p_loop\<close>:
  they get one more iteration than there are tokens left, and \<open>Diverges\<close> is the result of a
  loop that would still go on. The locale \<open>parser_action\<close> is the contract every operation has: it
  never diverges and never moves backwards in the input.
\<close>

section \<open>Parser state and results\<close>

datatype rfc_error =
    RfcError Token string
  | IOError io_error
  | PlainError string
  | CallbackError string
  | GoPanic string
  | Diverges

text \<open>
  \<open>continuations\<close> records the calls of the literal continuation callback: the message sent and the
  scanner offset at that moment.
\<close>

record Parser =
  scanner :: Scanner
  literalContinuationCb :: "(string \<Rightarrow> string option) option"
  continuations :: "(string \<times> int) list"
  previousToken :: Token
  currentToken :: Token

type_synonym 'a parse = "Parser \<Rightarrow> (rfc_error + 'a) \<times> Parser"

record rfc_Bytes =
  BytesValue :: bytes
  BytesOffset :: int

record rfc_String =
  StringValue :: string
  StringOffset :: int

record ParserState =
  prevToken :: Token
  curToken :: Token

definition IntoString :: "rfc_Bytes \<Rightarrow> rfc_String" where
  "IntoString b = \<lparr>StringValue = BytesValue b, StringOffset = BytesOffset b\<rparr>"

definition String_ToLower :: "rfc_String \<Rightarrow> rfc_String" where
  "String_ToLower s = \<lparr>StringValue = ToLower (StringValue s), StringOffset = StringOffset s\<rparr>"

definition Error_IsEOF :: "rfc_error \<Rightarrow> bool" where
  "Error_IsEOF e = (case e of RfcError t m \<Rightarrow> TType t = TokenTypeEOF | _ \<Rightarrow> False)"

definition IsError :: "rfc_error \<Rightarrow> bool" where
  "IsError e = (case e of RfcError t m \<Rightarrow> True | _ \<Rightarrow> False)"

definition DefaultContinuationMessage :: string where
  "DefaultContinuationMessage = ''Ready''"

definition NewParserWithLiteralContinuationCb ::
    "Scanner \<Rightarrow> (string \<Rightarrow> string option) option \<Rightarrow> Parser" where
  "NewParserWithLiteralContinuationCb s f =
     \<lparr>scanner = s, literalContinuationCb = f, continuations = [],
      previousToken = \<lparr>TType = TokenTypeEOF, Value = CHR 0x00, Offset = 0\<rparr>,
      currentToken = \<lparr>TType = TokenTypeEOF, Value = CHR 0x00, Offset = 0\<rparr>\<rparr>"

definition NewParser :: "Scanner \<Rightarrow> Parser" where
  "NewParser s = NewParserWithLiteralContinuationCb s None"

section \<open>Sequencing\<close>

definition p_return :: "'a \<Rightarrow> 'a parse" where
  "p_return a p = (Inr a, p)"

definition p_fail :: "rfc_error \<Rightarrow> 'a parse" where
  "p_fail e p = (Inl e, p)"

definition p_bind :: "'a parse \<Rightarrow> ('a \<Rightarrow> 'b parse) \<Rightarrow> 'b parse" where
  "p_bind m f p = (case m p of (Inl e, p') \<Rightarrow> (Inl e, p') | (Inr a, p') \<Rightarrow> f a p')"

definition p_then :: "unit parse \<Rightarrow> 'b parse \<Rightarrow> 'b parse" where
  "p_then m k = p_bind m (\<lambda>_. k)"

definition p_gets :: "(Parser \<Rightarrow> 'a) \<Rightarrow> 'a parse" where
  "p_gets f p = (Inr (f p), p)"

definition p_map :: "('a \<Rightarrow> 'b) \<Rightarrow> 'a parse \<Rightarrow> 'b parse" where
  "p_map f m = p_bind m (\<lambda>a. p_return (f a))"

text \<open>Tokens left: the bytes not yet scanned, and the current token unless it is the end.\<close>

definition remaining :: "Parser \<Rightarrow> nat" where
  "remaining p =
     length (pending (source (scanner p))) + (if TType (currentToken p) = TokenTypeEOF then 0 else 1)"

text \<open>
  A \<open>for\<close> loop with \<open>break\<close>: the body returns \<open>Inl\<close> the next accumulator or \<open>Inr\<close> the loop's
  result.
\<close>

fun p_iter :: "nat \<Rightarrow> ('b \<Rightarrow> ('b + 'a) parse) \<Rightarrow> 'b \<Rightarrow> 'a parse" where
  "p_iter 0 body b p = (Inl Diverges, p)"
| "p_iter (Suc n) body b p =
     (case body b p of
        (Inl e, p') \<Rightarrow> (Inl e, p')
      | (Inr (Inr a), p') \<Rightarrow> (Inr a, p')
      | (Inr (Inl b'), p') \<Rightarrow> p_iter n body b' p')"

definition p_loop :: "('b \<Rightarrow> ('b + 'a) parse) \<Rightarrow> 'b \<Rightarrow> 'a parse" where
  "p_loop body b p = p_iter (Suc (remaining p)) body b p"

section \<open>Primitives\<close>

definition MakeError :: "string \<Rightarrow> 'a parse" where
  "MakeError msg p = (Inl (RfcError (previousToken p) msg), p)"

definition MakeErrorAtOffset :: "string \<Rightarrow> int \<Rightarrow> 'a parse" where
  "MakeErrorAtOffset msg off =
     p_fail (RfcError \<lparr>TType = TokenTypeError, Value = CHR 0x00, Offset = off\<rparr> msg)"

definition Advance :: "unit parse" where
  "Advance p =
     (case ScanToken (scanner p) of
        (Inl b, s) \<Rightarrow>
          (Inl (PlainError (''unexpected character '' @ show_nat (bval b))),
           p\<lparr>scanner := s, previousToken := currentToken p\<rparr>)
      | (Inr t, s) \<Rightarrow>
          (Inr (), p\<lparr>scanner := s, previousToken := currentToken p, currentToken := t\<rparr>))"

definition Check :: "TokenType \<Rightarrow> bool parse" where
  "Check t = p_gets (\<lambda>p. TType (currentToken p) = t)"

definition CheckWith :: "(TokenType \<Rightarrow> bool) \<Rightarrow> bool parse" where
  "CheckWith f = p_gets (\<lambda>p. f (TType (currentToken p)))"

definition ConsumeWith :: "(TokenType \<Rightarrow> bool) \<Rightarrow> string \<Rightarrow> unit parse" where
  "ConsumeWith f msg p = (if f (TType (currentToken p)) then Advance p else MakeError msg p)"

definition Consume :: "TokenType \<Rightarrow> string \<Rightarrow> unit parse" where
  "Consume t msg = ConsumeWith (\<lambda>tt. tt = t) msg"

definition ConsumeNewLine :: "unit parse" where
  "ConsumeNewLine = p_then (Consume TokenTypeCR ''expected CR'')
     (Consume TokenTypeLF ''expected LF after CR'')"

fun ConsumeBytes :: "bytes \<Rightarrow> unit parse" where
  "ConsumeBytes [] p = (Inr (), p)"
| "ConsumeBytes (c # cs) p =
     (if Value (currentToken p) \<noteq> c then MakeError (''expected byte value '' @ show_hex c) p
      else (case Advance p of (Inl e, p') \<Rightarrow> (Inl e, p') | (Inr _, p') \<Rightarrow> ConsumeBytes cs p'))"

fun ConsumeBytesFold :: "bytes \<Rightarrow> unit parse" where
  "ConsumeBytesFold [] p = (Inr (), p)"
| "ConsumeBytesFold (c # cs) p =
     (if ByteToLower (Value (currentToken p)) \<noteq> ByteToLower c
      then MakeError (''expected byte value '' @ show_hex c) p
      else (case Advance p of (Inl e, p') \<Rightarrow> (Inl e, p') | (Inr _, p') \<Rightarrow> ConsumeBytesFold cs p'))"

definition MatchesWith :: "(TokenType \<Rightarrow> bool) \<Rightarrow> bool parse" where
  "MatchesWith f p =
     (if \<not> f (TType (currentToken p)) then (Inr False, p)
      else (case Advance p of (Inl e, p') \<Rightarrow> (Inl e, p') | (Inr _, p') \<Rightarrow> (Inr True, p')))"

definition Matches :: "TokenType \<Rightarrow> bool parse" where
  "Matches t = MatchesWith (\<lambda>tt. tt = t)"

definition ResetOffsetCounter :: "unit parse" where
  "ResetOffsetCounter p = (Inr (), p\<lparr>scanner := scanner_ResetOffsetCounter (scanner p)\<rparr>)"

definition PreviousToken :: "Token parse" where
  "PreviousToken = p_gets previousToken"

definition CurrentToken :: "Token parse" where
  "CurrentToken = p_gets currentToken"

definition SaveState :: "Parser \<Rightarrow> ParserState" where
  "SaveState p = \<lparr>prevToken = previousToken p, curToken = currentToken p\<rparr>"

definition RestoreState :: "ParserState \<Rightarrow> unit parse" where
  "RestoreState st p = (Inr (), p\<lparr>previousToken := prevToken st, currentToken := curToken st\<rparr>)"

section \<open>Token classes\<close>

definition IsEOF :: "TokenType \<Rightarrow> bool" where
  "IsEOF tt \<longleftrightarrow> tt = TokenTypeEOF"

definition IsQuotedSpecial :: "TokenType \<Rightarrow> bool" where
  "IsQuotedSpecial tt \<longleftrightarrow> tt = TokenTypeDQuote \<or> tt = TokenTypeBackslash"

definition IsRespSpecial :: "TokenType \<Rightarrow> bool" where
  "IsRespSpecial tt \<longleftrightarrow> tt = TokenTypeRBracket"

definition IsQuotedChar :: "TokenType \<Rightarrow> bool" where
  "IsQuotedChar tt \<longleftrightarrow> \<not> IsEOF tt \<and> \<not> IsQuotedSpecial tt"

definition IsCTL :: "TokenType \<Rightarrow> bool" where
  "IsCTL tt \<longleftrightarrow> tt = TokenTypeCTL \<or> tt = TokenTypeCR \<or> tt = TokenTypeLF \<or> tt = TokenTypeTab"

definition IsAtomChar :: "TokenType \<Rightarrow> bool" where
  "IsAtomChar tt \<longleftrightarrow>
     (if tt = TokenTypeLParen \<or> tt = TokenTypeRParen \<or> tt = TokenTypeLBracket
         \<or> tt = TokenTypeEOF \<or> tt = TokenTypeSP then False
      else \<not> IsQuotedSpecial tt \<and> \<not> IsRespSpecial tt \<and> \<not> IsCTL tt)"

definition IsAStringChar :: "TokenType \<Rightarrow> bool" where
  "IsAStringChar tt \<longleftrightarrow> IsAtomChar tt \<or> IsRespSpecial tt"

definition ByteToInt :: "char \<Rightarrow> goint" where
  "ByteToInt b = of_nat (bval b) - 48"

lemmas token_class_defs = IsEOF_def IsQuotedSpecial_def IsRespSpecial_def IsQuotedChar_def
  IsCTL_def IsAtomChar_def IsAStringChar_def

section \<open>Collecting bytes\<close>

text \<open>One iteration of the collecting loops: append the byte of a token that matches, or stop.\<close>

definition collect_step :: "(TokenType \<Rightarrow> bool) \<Rightarrow> bytes \<Rightarrow> (bytes + bytes) parse" where
  "collect_step f value =
     p_bind (MatchesWith f) (\<lambda>ok.
       if ok then p_bind PreviousToken (\<lambda>t. p_return (Inl (value @ [Value t])))
       else p_return (Inr value))"

definition CollectBytesWhileMatchesWithPrevWith :: "(TokenType \<Rightarrow> bool) \<Rightarrow> rfc_Bytes parse" where
  "CollectBytesWhileMatchesWithPrevWith f =
     p_bind PreviousToken (\<lambda>t.
       p_map (\<lambda>value. \<lparr>BytesValue = value, BytesOffset = Offset t\<rparr>)
         (p_loop (collect_step f) [Value t]))"

definition CollectBytesWhileMatchesWithPrev :: "TokenType \<Rightarrow> rfc_Bytes parse" where
  "CollectBytesWhileMatchesWithPrev t = CollectBytesWhileMatchesWithPrevWith (\<lambda>tt. tt = t)"

definition CollectBytesWhileMatchesWith :: "(TokenType \<Rightarrow> bool) \<Rightarrow> rfc_Bytes parse" where
  "CollectBytesWhileMatchesWith f =
     p_bind CurrentToken (\<lambda>t.
       p_map (\<lambda>value. \<lparr>BytesValue = value, BytesOffset = Offset t\<rparr>)
         (p_loop (collect_step f) []))"

definition CollectBytesWhileMatches :: "TokenType \<Rightarrow> rfc_Bytes parse" where
  "CollectBytesWhileMatches t = CollectBytesWhileMatchesWith (\<lambda>tt. tt = t)"

section \<open>Numbers\<close>

definition number_step :: "goint \<Rightarrow> (goint + goint) parse" where
  "number_step number =
     p_bind (Matches TokenTypeDigit) (\<lambda>ok.
       if ok then p_bind PreviousToken (\<lambda>t. p_return (Inl (number * 10 + ByteToInt (Value t))))
       else p_return (Inr number))"

definition ParseNumber :: "goint parse" where
  "ParseNumber =
     p_then (Consume TokenTypeDigit ''expected valid digit for number'')
       (p_bind PreviousToken (\<lambda>t. p_loop number_step (ByteToInt (Value t))))"

fun number_n_loop :: "nat \<Rightarrow> goint \<Rightarrow> goint parse" where
  "number_n_loop 0 number p = (Inr number, p)"
| "number_n_loop (Suc i) number p =
     (case number_step number p of
        (Inl e, p') \<Rightarrow> (Inl e, p')
      | (Inr (Inr n), p') \<Rightarrow> (Inr n, p')
      | (Inr (Inl n), p') \<Rightarrow> number_n_loop i n p')"

definition ParseNumberN :: "nat \<Rightarrow> goint parse" where
  "ParseNumberN n =
     (if n = 0 then MakeError ''requested ParserNumberN with 0 length number''
      else p_then (Consume TokenTypeDigit ''expected valid digit for number'')
        (p_bind PreviousToken (\<lambda>t. number_n_loop (n - 1) (ByteToInt (Value t)))))"

section \<open>Strings\<close>

definition quoted_step :: "bytes \<Rightarrow> (bytes + bytes) parse" where
  "quoted_step quoted =
     p_bind (MatchesWith IsQuotedChar) (\<lambda>ok.
       if ok then p_bind PreviousToken (\<lambda>t. p_return (Inl (quoted @ [Value t])))
       else p_bind (Matches TokenTypeBackslash) (\<lambda>ok.
         if ok then
           p_then (ConsumeWith IsQuotedSpecial
              (''Expected '' @ [CHR 0x27, CHR 0x5C, CHR 0x27] @ '' or '' @ [CHR 0x27, CHR 0x22, CHR 0x27]
               @ '' after '' @ [CHR 0x27, CHR 0x5C, CHR 0x27] @ '' in quoted''))
             (p_bind PreviousToken (\<lambda>t. p_return (Inl (quoted @ [Value t]))))
         else p_return (Inr quoted)))"

definition ParseQuoted :: "rfc_String parse" where
  "ParseQuoted =
     p_then (Consume TokenTypeDQuote
        (''Expected '' @ [CHR 0x27, CHR 0x22, CHR 0x27] @ '' for quoted start''))
       (p_bind CurrentToken (\<lambda>t.
         p_bind (p_loop quoted_step []) (\<lambda>quoted.
           p_then (Consume TokenTypeDQuote
              (''Expected '' @ [CHR 0x27, CHR 0x22, CHR 0x27] @ '' for quoted end''))
             (p_return \<lparr>StringValue = quoted, StringOffset = Offset t\<rparr>))))"

text \<open>The guarded call of the continuation callback in \<open>ParseLiteral\<close> and
  \<open>ParseStringAfterContinuation\<close>.\<close>

definition literalContinuation :: "string \<Rightarrow> unit parse" where
  "literalContinuation msg p =
     (case literalContinuationCb p of
        None \<Rightarrow> (Inr (), p)
      | Some cb \<Rightarrow>
          if TType (currentToken p) = TokenTypeLF then
            (let p' = p\<lparr>continuations := continuations p @ [(msg, offset (scanner p))]\<rparr>
             in case cb msg of
                  None \<Rightarrow> (Inr (), p')
                | Some err \<Rightarrow> (Inl (CallbackError err), p'))
          else (Inr (), p))"

definition read_literal :: "nat \<Rightarrow> bytes parse" where
  "read_literal n p =
     (case scanner_ConsumeBytes n (scanner p) of
        (Ok bs, s) \<Rightarrow> (Inr bs, p\<lparr>scanner := s\<rparr>)
      | (Err e, s) \<Rightarrow> (Inl (IOError e), p\<lparr>scanner := s\<rparr>)
      | (Panic m, s) \<Rightarrow> (Inl (GoPanic m), p\<lparr>scanner := s\<rparr>))"

definition ParseLiteral :: "bytes parse" where
  "ParseLiteral =
     p_then (Consume TokenTypeLCurly (''expected '' @ [CHR 0x27] @ ''{'' @ [CHR 0x27] @ '' for literal start''))
       (p_bind ParseNumber (\<lambda>literalSize.
         if sint literalSize \<le> 0 then p_fail (PlainError ''invalid literal size'')
         else if sint literalSize \<ge> 70 * 1024 * 1024
         then p_fail (PlainError ''literal size exceeds maximum size of 70MB'')
         else p_then (Consume TokenTypeRCurly
                (''expected '' @ [CHR 0x27] @ ''}'' @ [CHR 0x27] @ '' for literal end''))
           (p_then (Consume TokenTypeCR ''expected CR'')
             (p_then (literalContinuation DefaultContinuationMessage)
               (p_then (Consume TokenTypeLF ''expected LF after CR'')
                 (p_bind (read_literal (unat literalSize)) (\<lambda>literal.
                   p_then Advance (p_return literal))))))))"

definition ParseString :: "rfc_String parse" where
  "ParseString =
     p_bind CurrentToken (\<lambda>t.
       if TType t = TokenTypeDQuote then ParseQuoted
       else if TType t = TokenTypeLCurly then
         p_bind ParseLiteral (\<lambda>l. p_return \<lparr>StringValue = l, StringOffset = Offset t\<rparr>)
       else MakeError ''unexpected character, expected start of quote or literal'')"

definition TryParseString :: "(rfc_String \<times> bool) parse" where
  "TryParseString =
     p_bind CurrentToken (\<lambda>t.
       if TType t \<noteq> TokenTypeDQuote \<and> TType t \<noteq> TokenTypeLCurly
       then p_return (\<lparr>StringValue = [], StringOffset = 0\<rparr>, False)
       else p_bind ParseString (\<lambda>v. p_return (v, True)))"

definition ParseAString :: "rfc_String parse" where
  "ParseAString =
     p_bind CurrentToken (\<lambda>t.
       if TType t = TokenTypeDQuote \<or> TType t = TokenTypeLCurly then ParseString
       else p_map IntoString (CollectBytesWhileMatchesWith IsAStringChar))"

definition ParseStringAfterContinuation :: "string \<Rightarrow> rfc_String parse" where
  "ParseStringAfterContinuation msg =
     p_then (Consume TokenTypeCR ''expected CR'')
       (p_then (literalContinuation msg)
         (p_then (Consume TokenTypeLF ''expected LF after CR'') ParseAString))"

definition ParseAtom :: "string parse" where
  "ParseAtom =
     p_then (ConsumeWith IsAtomChar ''Invalid character detected in atom'')
       (p_map BytesValue (CollectBytesWhileMatchesWithPrevWith IsAtomChar))"


section \<open>The contract of a parsing operation\<close>

locale parser_action =
  fixes act :: "'a parse"
  assumes act_mono: "remaining (snd (act p)) \<le> remaining p"
    and act_returns: "fst (act p) \<noteq> Inl Diverges"

lemma parser_actionI:
  assumes "\<And>p. remaining (snd (m p)) \<le> remaining p \<and> fst (m p) \<noteq> Inl Diverges"
  shows "parser_action m"
  using assms by unfold_locales blast+

text \<open>An operation makes progress when it consumes a token before it returns a value in \<open>Q\<close>.\<close>

definition progresses :: "('a \<Rightarrow> bool) \<Rightarrow> 'a parse \<Rightarrow> bool" where
  "progresses Q m \<longleftrightarrow>
     (\<forall>p a. fst (m p) = Inr a \<longrightarrow> Q a \<longrightarrow> remaining (snd (m p)) < remaining p)"

abbreviation consumes :: "'a parse \<Rightarrow> bool" where
  "consumes m \<equiv> progresses (\<lambda>_. True) m"

lemma progressesD:
  "progresses Q m \<Longrightarrow> m p = (Inr a, p') \<Longrightarrow> Q a \<Longrightarrow> remaining p' < remaining p"
  unfolding progresses_def by (metis fst_conv snd_conv)

lemma pa_return [safe_intros]: "parser_action (p_return a)"
  by (rule parser_actionI) (simp add: p_return_def)

lemma pa_gets [safe_intros]: "parser_action (p_gets f)"
  by (rule parser_actionI) (simp add: p_gets_def)

lemma pa_fail [safe_intros]: "e \<noteq> Diverges \<Longrightarrow> parser_action (p_fail e)"
  by (rule parser_actionI) (simp add: p_fail_def)

lemma pa_MakeError [safe_intros]: "parser_action (MakeError msg)"
  by (rule parser_actionI) (simp add: MakeError_def)

lemma pa_MakeErrorAtOffset [safe_intros]: "parser_action (MakeErrorAtOffset msg off)"
  unfolding MakeErrorAtOffset_def by (rule pa_fail) simp

lemma pa_if [safe_intros]:
  "(b \<Longrightarrow> parser_action m) \<Longrightarrow> (\<not> b \<Longrightarrow> parser_action m') \<Longrightarrow> parser_action (if b then m else m')"
  by simp

lemma pa_bind [safe_intros]:
  assumes "parser_action m" and "\<And>a. parser_action (f a)"
  shows "parser_action (p_bind m f)"
proof (rule parser_actionI)
  fix p
  obtain r p1 where m: "m p = (r, p1)" by (cases "m p")
  have 1: "remaining p1 \<le> remaining p" "r \<noteq> Inl Diverges"
    using parser_action.act_mono [OF assms(1), of p] parser_action.act_returns [OF assms(1), of p] m
    by auto
  show "remaining (snd (p_bind m f p)) \<le> remaining p \<and> fst (p_bind m f p) \<noteq> Inl Diverges"
  proof (cases r)
    case (Inl e)
    with m 1 show ?thesis by (simp add: p_bind_def)
  next
    case (Inr a)
    with m 1 parser_action.act_mono [OF assms(2), of a p1] parser_action.act_returns [OF assms(2), of a p1]
    show ?thesis by (simp add: p_bind_def)
  qed
qed

lemma pa_then [safe_intros]:
  "parser_action m \<Longrightarrow> parser_action k \<Longrightarrow> parser_action (p_then m k)"
  unfolding p_then_def by (rule pa_bind)

lemma pa_map [safe_intros]: "parser_action m \<Longrightarrow> parser_action (p_map f m)"
  unfolding p_map_def by (intro safe_intros)

lemma remaining_Advance:
  "remaining (snd (Advance p)) \<le> remaining p"
  "TType (currentToken p) \<noteq> TokenTypeEOF \<Longrightarrow> remaining (snd (Advance p)) < remaining p"
  by (cases "pending (source (scanner p))";
      simp add: Advance_def ScanToken_Cons ScanToken_Nil remaining_def makeEOF_def zeroToken_def)+

lemma Advance_Inr: "fst (Advance p) = Inr ()"
  using ScanToken_total [of "scanner p"] by (auto simp: Advance_def)

lemma Advance_eq: "Advance p = (Inr (), snd (Advance p))"
  by (metis Advance_Inr prod.collapse)

lemma pa_Advance [safe_intros]: "parser_action Advance"
  by (rule parser_actionI) (simp add: remaining_Advance Advance_Inr)

lemma pa_ConsumeWith [safe_intros]: "parser_action (ConsumeWith f msg)"
  by (rule parser_actionI) (simp add: ConsumeWith_def MakeError_def remaining_Advance Advance_Inr)

lemma pa_Consume [safe_intros]: "parser_action (Consume t msg)"
  unfolding Consume_def by (rule pa_ConsumeWith)

lemma MatchesWith_eq:
  "MatchesWith f p =
     (if f (TType (currentToken p)) then (Inr True, snd (Advance p)) else (Inr False, p))"
  by (simp add: MatchesWith_def) (subst Advance_eq, simp)

lemma pa_MatchesWith [safe_intros]: "parser_action (MatchesWith f)"
  by (rule parser_actionI) (simp add: MatchesWith_eq remaining_Advance)

lemma pa_Matches [safe_intros]: "parser_action (Matches t)"
  unfolding Matches_def by (rule pa_MatchesWith)

lemma ConsumeBytesFold_Cons:
  "ConsumeBytesFold (c # cs) =
     p_bind CurrentToken (\<lambda>t.
       if ByteToLower (Value t) \<noteq> ByteToLower c
       then MakeError (''expected byte value '' @ show_hex c)
       else p_then Advance (ConsumeBytesFold cs))"
  by (rule ext) (auto simp: p_bind_def p_then_def CurrentToken_def p_gets_def split: prod.splits sum.splits)

lemma pa_CurrentToken [safe_intros]: "parser_action CurrentToken"
  unfolding CurrentToken_def by (rule pa_gets)

lemma pa_PreviousToken [safe_intros]: "parser_action PreviousToken"
  unfolding PreviousToken_def by (rule pa_gets)

lemma pa_Check [safe_intros]: "parser_action (Check t)"
  unfolding Check_def by (rule pa_gets)

lemma pa_ConsumeBytesFold [safe_intros]: "parser_action (ConsumeBytesFold cs)"
proof (induction cs)
  case Nil
  show ?case by (rule parser_actionI) simp
next
  case (Cons c cs)
  then show ?case unfolding ConsumeBytesFold_Cons by (intro safe_intros)
qed

lemma pa_ResetOffsetCounter [safe_intros]: "parser_action ResetOffsetCounter"
  by (rule parser_actionI)
    (simp add: ResetOffsetCounter_def scanner_ResetOffsetCounter_def remaining_def)

lemma pa_literalContinuation [safe_intros]: "parser_action (literalContinuation msg)"
  by (rule parser_actionI)
    (simp add: literalContinuation_def Let_def remaining_def split: option.splits)

lemma pa_read_literal [safe_intros]: "parser_action (read_literal n)"
  by (rule parser_actionI)
    (auto simp: read_literal_def scanner_ConsumeBytes_def ReadFull_def remaining_def)

section \<open>Progress and loops\<close>

lemma progresses_return: "\<not> Q a \<Longrightarrow> progresses Q (p_return a)"
  by (simp add: progresses_def p_return_def)

lemma progresses_fail: "progresses Q (p_fail e)"
  by (simp add: progresses_def p_fail_def)

lemma progresses_MakeError: "progresses Q (MakeError msg)"
  by (simp add: progresses_def MakeError_def)

lemma progresses_if:
  "(b \<Longrightarrow> progresses Q m) \<Longrightarrow> (\<not> b \<Longrightarrow> progresses Q m') \<Longrightarrow> progresses Q (if b then m else m')"
  by simp

lemma progresses_ConsumeWith: "\<not> f TokenTypeEOF \<Longrightarrow> progresses Q (ConsumeWith f msg)"
  unfolding progresses_def ConsumeWith_def MakeError_def
  by (metis Inl_Inr_False fst_conv remaining_Advance(2))

lemma progresses_Consume: "t \<noteq> TokenTypeEOF \<Longrightarrow> progresses Q (Consume t msg)"
  unfolding Consume_def by (rule progresses_ConsumeWith) simp

text \<open>Progress of either half is progress of the sequence.\<close>

lemma progresses_bind_first:
  assumes "consumes m" and "\<And>a. parser_action (f a)"
  shows "progresses Q (p_bind m f)"
  unfolding progresses_def
proof (intro allI impI)
  fix p b
  assume r: "fst (p_bind m f p) = Inr b"
  then obtain a p1 where m: "m p = (Inr a, p1)"
    by (auto simp: p_bind_def split: prod.splits sum.splits)
  with assms(1) have "remaining p1 < remaining p" by (rule progressesD) simp
  with m parser_action.act_mono [OF assms(2), of a p1]
  show "remaining (snd (p_bind m f p)) < remaining p" by (simp add: p_bind_def)
qed

lemma progresses_bind_second:
  assumes "parser_action m" and "\<And>a. progresses Q (f a)"
  shows "progresses Q (p_bind m f)"
  unfolding progresses_def
proof (intro allI impI)
  fix p b
  assume r: "fst (p_bind m f p) = Inr b" and "Q b"
  then obtain a p1 where m: "m p = (Inr a, p1)" and f: "fst (f a p1) = Inr b"
    by (auto simp: p_bind_def split: prod.splits sum.splits)
  with assms(2) \<open>Q b\<close> have "remaining (snd (f a p1)) < remaining p1" unfolding progresses_def by blast
  with m parser_action.act_mono [OF assms(1), of p]
  show "remaining (snd (p_bind m f p)) < remaining p" by (simp add: p_bind_def)
qed

lemma progresses_then_first:
  "consumes m \<Longrightarrow> parser_action k \<Longrightarrow> progresses Q (p_then m k)"
  unfolding p_then_def by (rule progresses_bind_first)

lemma progresses_then_second:
  "parser_action m \<Longrightarrow> progresses Q k \<Longrightarrow> progresses Q (p_then m k)"
  unfolding p_then_def by (rule progresses_bind_second)

lemma progresses_map: "consumes m \<Longrightarrow> progresses Q (p_map f m)"
  unfolding p_map_def by (intro progresses_bind_first pa_return)

text \<open>A match that succeeds consumes a token, unless the predicate accepts the end of input.\<close>

lemma progresses_MatchesWith:
  assumes "\<not> f TokenTypeEOF" and "parser_action (k True)" and "progresses Q (k False)"
  shows "progresses Q (p_bind (MatchesWith f) k)"
  unfolding progresses_def
proof (intro allI impI)
  fix p b
  assume r: "fst (p_bind (MatchesWith f) k p) = Inr b" and "Q b"
  show "remaining (snd (p_bind (MatchesWith f) k p)) < remaining p"
  proof (cases "f (TType (currentToken p))")
    case True
    then have "TType (currentToken p) \<noteq> TokenTypeEOF" using assms(1) by metis
    then have "remaining (snd (Advance p)) < remaining p" by (rule remaining_Advance(2))
    with True parser_action.act_mono [OF assms(2), of "snd (Advance p)"] show ?thesis
      by (simp add: p_bind_def MatchesWith_eq)
  next
    case False
    with r \<open>Q b\<close> assms(3) show ?thesis
      unfolding progresses_def by (auto simp: p_bind_def MatchesWith_eq)
  qed
qed

lemma progresses_Matches:
  assumes "t \<noteq> TokenTypeEOF" and "parser_action (k True)" and "progresses Q (k False)"
  shows "progresses Q (p_bind (Matches t) k)"
  unfolding Matches_def using assms by (intro progresses_MatchesWith) auto

text \<open>
  A loop whose iterations consume a token whenever they go on is a parsing operation: there are
  always iterations enough.
\<close>

lemma p_iter_safe:
  assumes body: "\<And>b. parser_action (body b)"
    and step: "\<And>b. progresses (\<lambda>x. \<exists>b'. x = Inl b') (body b)"
    and "remaining p < n"
  shows "remaining (snd (p_iter n body b p)) \<le> remaining p \<and> fst (p_iter n body b p) \<noteq> Inl Diverges"
  using assms(3)
proof (induction n arbitrary: b p)
  case 0
  then show ?case by simp
next
  case (Suc n)
  obtain r p1 where m: "body b p = (r, p1)" by (cases "body b p")
  have 1: "remaining p1 \<le> remaining p" "r \<noteq> Inl Diverges"
    using parser_action.act_mono [OF body, of b p] parser_action.act_returns [OF body, of b p] m by auto
  show ?case
  proof (cases "\<exists>b'. r = Inr (Inl b')")
    case True
    then obtain b' where r: "r = Inr (Inl b')" by blast
    have "remaining p1 < remaining p" using step m r by (auto dest: progressesD)
    with Suc.IH [of p1 b'] Suc.prems m r show ?thesis by simp
  next
    case False
    with m 1 show ?thesis by (auto split: sum.splits)
  qed
qed

lemma pa_loop [safe_intros]:
  assumes "\<And>b. parser_action (body b)" and "\<And>b. progresses (\<lambda>x. \<exists>b'. x = Inl b') (body b)"
  shows "parser_action (p_loop body b)"
proof (rule parser_actionI)
  fix p
  show "remaining (snd (p_loop body b p)) \<le> remaining p \<and> fst (p_loop body b p) \<noteq> Inl Diverges"
    unfolding p_loop_def by (rule p_iter_safe [OF assms]) simp
qed

text \<open>
  The loop found all over the command parsers: an item after every separator, until the separator
  no longer comes.
\<close>

definition sep_step :: "TokenType \<Rightarrow> 'a parse \<Rightarrow> 'a list \<Rightarrow> ('a list + 'a list) parse" where
  "sep_step sep item acc =
     p_bind (Matches sep) (\<lambda>ok.
       if \<not> ok then p_return (Inr acc)
       else p_bind item (\<lambda>x. p_return (Inl (acc @ [x]))))"

definition sep_loop :: "TokenType \<Rightarrow> 'a parse \<Rightarrow> 'a list \<Rightarrow> 'a list parse" where
  "sep_loop sep item acc = p_loop (sep_step sep item) acc"

context parser_action
begin

lemma sep_loop_action:
  assumes "sep \<noteq> TokenTypeEOF"
  shows "parser_action (sep_loop sep act acc)"
  unfolding sep_loop_def
proof (rule pa_loop)
  have act: "parser_action act" by (rule parser_action_axioms)
  show "parser_action (sep_step sep act b)" for b
    unfolding sep_step_def by (intro safe_intros act)
  show "progresses (\<lambda>x. \<exists>b'. x = Inl b') (sep_step sep act b)" for b
    unfolding sep_step_def using assms
    by (intro progresses_Matches) (auto intro!: safe_intros act progresses_return)
qed

end

lemmas pa_sep_loop [safe_intros] = parser_action.sep_loop_action

lemma pa_collect [safe_intros]:
  assumes "\<not> f TokenTypeEOF"
  shows "parser_action (p_loop (collect_step f) acc)"
proof (rule pa_loop)
  show "parser_action (collect_step f b)" for b
    unfolding collect_step_def by (intro safe_intros)
  show "progresses (\<lambda>x. \<exists>b'. x = Inl b') (collect_step f b)" for b
    unfolding collect_step_def using assms
    by (intro progresses_MatchesWith) (auto intro!: safe_intros progresses_return)
qed

lemma pa_CollectBytesWhileMatchesWithPrevWith [safe_intros]:
  "\<not> f TokenTypeEOF \<Longrightarrow> parser_action (CollectBytesWhileMatchesWithPrevWith f)"
  unfolding CollectBytesWhileMatchesWithPrevWith_def by (intro safe_intros)

lemma pa_CollectBytesWhileMatchesWith [safe_intros]:
  "\<not> f TokenTypeEOF \<Longrightarrow> parser_action (CollectBytesWhileMatchesWith f)"
  unfolding CollectBytesWhileMatchesWith_def by (intro safe_intros)

lemma pa_CollectBytesWhileMatches [safe_intros]:
  "t \<noteq> TokenTypeEOF \<Longrightarrow> parser_action (CollectBytesWhileMatches t)"
  unfolding CollectBytesWhileMatches_def by (intro safe_intros) simp

lemma pa_number_step [safe_intros]: "parser_action (number_step n)"
  unfolding number_step_def by (intro safe_intros)

lemma progresses_number_step: "progresses (\<lambda>x. \<exists>b'. x = Inl b') (number_step n)"
  unfolding number_step_def
  by (intro progresses_Matches) (auto intro!: safe_intros progresses_return)

lemma pa_ParseNumber [safe_intros]: "parser_action ParseNumber"
  unfolding ParseNumber_def by (intro safe_intros progresses_number_step)

lemma number_n_loop_Suc:
  "number_n_loop (Suc i) n =
     p_bind (number_step n) (\<lambda>x. case x of Inl n' \<Rightarrow> number_n_loop i n' | Inr n' \<Rightarrow> p_return n')"
  by (rule ext) (auto simp: p_bind_def p_return_def split: prod.splits sum.splits)

lemma pa_case_sum [safe_intros]:
  "(\<And>a. x = Inl a \<Longrightarrow> parser_action (f a)) \<Longrightarrow> (\<And>b. x = Inr b \<Longrightarrow> parser_action (g b)) \<Longrightarrow>
   parser_action (case x of Inl a \<Rightarrow> f a | Inr b \<Rightarrow> g b)"
  by (cases x) auto

lemma pa_number_n_loop [safe_intros]: "parser_action (number_n_loop i n)"
proof (induction i arbitrary: n)
  case 0
  show ?case by (rule parser_actionI) simp
next
  case (Suc i)
  show ?case unfolding number_n_loop_Suc by (intro safe_intros Suc)
qed

lemma pa_ParseNumberN [safe_intros]: "parser_action (ParseNumberN n)"
  unfolding ParseNumberN_def by (intro safe_intros)

lemma IsQuotedChar_EOF [simp]: "\<not> IsQuotedChar TokenTypeEOF"
  and IsQuotedSpecial_EOF [simp]: "\<not> IsQuotedSpecial TokenTypeEOF"
  and IsAtomChar_EOF [simp]: "\<not> IsAtomChar TokenTypeEOF"
  and IsAStringChar_EOF [simp]: "\<not> IsAStringChar TokenTypeEOF"
  by (simp_all add: token_class_defs)

lemma pa_quoted [safe_intros]: "parser_action (p_loop quoted_step acc)"
proof (rule pa_loop)
  show "parser_action (quoted_step b)" for b
    unfolding quoted_step_def by (intro safe_intros)
  show "progresses (\<lambda>x. \<exists>b'. x = Inl b') (quoted_step b)" for b
    unfolding quoted_step_def
    by (rule progresses_MatchesWith)
      (auto intro!: safe_intros progresses_return progresses_Matches)
qed

lemma pa_ParseQuoted [safe_intros]: "parser_action ParseQuoted"
  unfolding ParseQuoted_def by (intro safe_intros)

lemma pa_ParseLiteral [safe_intros]: "parser_action ParseLiteral"
  unfolding ParseLiteral_def by (intro safe_intros) simp_all

lemma pa_ParseString [safe_intros]: "parser_action ParseString"
  unfolding ParseString_def by (intro safe_intros)

lemma pa_TryParseString [safe_intros]: "parser_action TryParseString"
  unfolding TryParseString_def by (intro safe_intros)

lemma pa_ParseAString [safe_intros]: "parser_action ParseAString"
  unfolding ParseAString_def by (intro safe_intros) simp

lemma pa_ParseStringAfterContinuation [safe_intros]:
  "parser_action (ParseStringAfterContinuation msg)"
  unfolding ParseStringAfterContinuation_def by (intro safe_intros)

lemma pa_ParseAtom [safe_intros]: "parser_action ParseAtom"
  unfolding ParseAtom_def by (intro safe_intros) simp

lemma consumes_ParseNumber: "consumes ParseNumber"
  unfolding ParseNumber_def
  by (intro progresses_then_first progresses_Consume safe_intros progresses_number_step) simp

lemma consumes_ParseAtom: "consumes ParseAtom"
  unfolding ParseAtom_def
  by (intro progresses_then_first progresses_ConsumeWith safe_intros) simp_all

end
