(* ===== verification/Rfc_Roundtrip.thy ===== *)
theory Rfc_Roundtrip
  imports Rfc_Parser
begin


text \<open>
  What the parser of \<open>Rfc_Parser\<close> computes on an explicit input. \<open>parser_at cx bs\<close> is the state
  of a parser that still has \<open>bs\<close> to parse, with the first byte of \<open>bs\<close> loaded as current token;
  every primitive rewrites one such state to the next. On top of them: the round trips for
  numbers, quoted strings, literals and atoms.
\<close>

section \<open>Loops unfold\<close>

lemma p_iter_enough:
  assumes "\<And>b. parser_action (body b)"
    and "\<And>b. progresses (\<lambda>x. \<exists>b'. x = Inl b') (body b)"
    and "remaining p < n" and "remaining p < m"
  shows "p_iter n body b p = p_iter m body b p"
  using assms(3,4)
proof (induction n arbitrary: m b p)
  case 0
  then show ?case by simp
next
  case (Suc n)
  then obtain m' where m: "m = Suc m'" by (cases m) auto
  obtain r p1 where r: "body b p = (r, p1)" by (cases "body b p")
  show ?case
  proof (cases "\<exists>b'. r = Inr (Inl b')")
    case True
    then obtain b' where b': "r = Inr (Inl b')" by blast
    have "remaining p1 < remaining p" using assms(2) r b' by (auto dest: progressesD)
    with Suc.prems m have "remaining p1 < n" "remaining p1 < m'" by auto
    then have "p_iter n body b' p1 = p_iter m' body b' p1" by (rule Suc.IH)
    with m r b' show ?thesis by simp
  next
    case False
    with r m show ?thesis by (auto split: sum.splits)
  qed
qed

lemma p_loop_unfold:
  assumes "\<And>b. parser_action (body b)"
    and "\<And>b. progresses (\<lambda>x. \<exists>b'. x = Inl b') (body b)"
  shows "p_loop body b p =
     (case body b p of
        (Inl e, p') \<Rightarrow> (Inl e, p')
      | (Inr (Inr a), p') \<Rightarrow> (Inr a, p')
      | (Inr (Inl b'), p') \<Rightarrow> p_loop body b' p')"
proof -
  obtain r p1 where r: "body b p = (r, p1)" by (cases "body b p")
  show ?thesis
  proof (cases "\<exists>b'. r = Inr (Inl b')")
    case True
    then obtain b' where b': "r = Inr (Inl b')" by blast
    have less: "remaining p1 < remaining p" using assms(2) r b' by (auto dest: progressesD)
    have "p_loop body b p = p_iter (remaining p) body b' p1" by (simp add: p_loop_def r b')
    also have "\<dots> = p_loop body b' p1"
      unfolding p_loop_def using less by (intro p_iter_enough assms) auto
    finally show ?thesis by (simp add: r b')
  next
    case False
    with r show ?thesis by (auto simp: p_loop_def split: sum.splits)
  qed
qed

section \<open>A parser with an explicit remaining input\<close>

record at_ctx =
  cx_cb :: "(string \<Rightarrow> string option) option"
  cx_log :: "(string \<times> int) list"
  cx_prev :: Token
  cx_byte :: char
  cx_off :: int

definition byte_token :: "at_ctx \<Rightarrow> char \<Rightarrow> Token" where
  "byte_token cx c = \<lparr>TType = tok_type c, Value = c, Offset = cx_off cx\<rparr>"

fun parser_at :: "at_ctx \<Rightarrow> bytes \<Rightarrow> Parser" where
  "parser_at cx [] =
     \<lparr>scanner = \<lparr>source = \<lparr>pending = [], at_end = IO_EOF\<rparr>, currentByte = cx_byte cx, offset = cx_off cx\<rparr>,
      literalContinuationCb = cx_cb cx, continuations = cx_log cx, previousToken = cx_prev cx,
      currentToken = \<lparr>TType = TokenTypeEOF, Value = CHR 0x00, Offset = cx_off cx\<rparr>\<rparr>"
| "parser_at cx (c # cs) =
     \<lparr>scanner = \<lparr>source = \<lparr>pending = cs, at_end = IO_EOF\<rparr>, currentByte = c, offset = cx_off cx\<rparr>,
      literalContinuationCb = cx_cb cx, continuations = cx_log cx, previousToken = cx_prev cx,
      currentToken = byte_token cx c\<rparr>"

text \<open>The context after the byte \<open>c\<close> has been consumed and \<open>cs\<close> is left.\<close>

definition adv :: "at_ctx \<Rightarrow> char \<Rightarrow> bytes \<Rightarrow> at_ctx" where
  "adv cx c cs =
     cx\<lparr>cx_prev := byte_token cx c, cx_byte := c,
        cx_off := cx_off cx + (if cs = [] then 0 else 1)\<rparr>"

fun advs :: "at_ctx \<Rightarrow> bytes \<Rightarrow> bytes \<Rightarrow> at_ctx" where
  "advs cx [] rest = cx"
| "advs cx (c # s) rest = advs (adv cx c (s @ rest)) s rest"

text \<open>The start: a fresh parser that has loaded its first token.\<close>

definition parser_on :: "(string \<Rightarrow> string option) option \<Rightarrow> bytes \<Rightarrow> Parser" where
  "parser_on cb bs =
     snd (Advance (NewParserWithLiteralContinuationCb
        (NewScannerWithReader \<lparr>pending = bs, at_end = IO_EOF\<rparr>) cb))"

definition start_cx :: "(string \<Rightarrow> string option) option \<Rightarrow> bytes \<Rightarrow> at_ctx" where
  "start_cx cb bs =
     \<lparr>cx_cb = cb, cx_log = [], cx_prev = zeroToken, cx_byte = CHR 0x00,
      cx_off = (if bs = [] then 0 else 1)\<rparr>"

text \<open>The input a parser has not consumed yet.\<close>

definition rest_of :: "Parser \<Rightarrow> bytes" where
  "rest_of p =
     (if TType (currentToken p) = TokenTypeEOF then [] else [Value (currentToken p)])
     @ pending (source (scanner p))"

lemma parser_on_at: "parser_on cb bs = parser_at (start_cx cb bs) bs"
  by (cases bs)
    (simp_all add: parser_on_def start_cx_def NewParserWithLiteralContinuationCb_def
      NewScannerWithReader_def Advance_def ScanToken_Cons ScanToken_Nil makeEOF_def zeroToken_def
      byte_token_def)

lemma rest_of_at [simp]: "rest_of (parser_at cx bs) = bs"
  by (cases bs) (simp_all add: rest_of_def byte_token_def)

lemma remaining_at [simp]: "remaining (parser_at cx bs) = length bs"
  by (cases bs) (simp_all add: remaining_def byte_token_def)

lemma previousToken_at [simp]: "previousToken (parser_at cx bs) = cx_prev cx"
  by (cases bs) simp_all

lemma continuations_at [simp]: "continuations (parser_at cx bs) = cx_log cx"
  by (cases bs) simp_all

lemma cb_at [simp]: "literalContinuationCb (parser_at cx bs) = cx_cb cx"
  by (cases bs) simp_all

lemma currentToken_at:
  "currentToken (parser_at cx (c # cs)) = byte_token cx c"
  "TType (currentToken (parser_at cx [])) = TokenTypeEOF"
  by simp_all

lemma Offset_current_at [simp]: "Offset (currentToken (parser_at cx bs)) = cx_off cx"
  by (cases bs) (simp_all add: byte_token_def)

lemma byte_token_simps [simp]:
  "TType (byte_token cx c) = tok_type c" "Value (byte_token cx c) = c"
  "Offset (byte_token cx c) = cx_off cx"
  by (simp_all add: byte_token_def)

lemma adv_simps [simp]:
  "cx_cb (adv cx c cs) = cx_cb cx" "cx_log (adv cx c cs) = cx_log cx"
  "cx_prev (adv cx c cs) = byte_token cx c" "cx_byte (adv cx c cs) = c"
  by (simp_all add: adv_def)

lemma advs_simps [simp]:
  "cx_cb (advs cx s r) = cx_cb cx" "cx_log (advs cx s r) = cx_log cx"
  by (induction s arbitrary: cx) simp_all

lemma advs_append: "advs cx (s @ t) r = advs (advs cx s (t @ r)) t r"
  by (induction s arbitrary: cx) simp_all

lemma Advance_at [at_simps]:
  "Advance (parser_at cx (c # cs)) = (Inr (), parser_at (adv cx c cs) cs)"
  by (cases cs)
    (simp_all add: Advance_def ScanToken_Cons ScanToken_Nil makeEOF_def adv_def byte_token_def)

declare parser_at.simps [simp del]

section \<open>Primitives\<close>

lemma MatchesWith_at [at_simps]:
  "MatchesWith f (parser_at cx (c # cs)) =
     (if f (tok_type c) then (Inr True, parser_at (adv cx c cs) cs)
      else (Inr False, parser_at cx (c # cs)))"
  "\<not> f TokenTypeEOF \<Longrightarrow> MatchesWith f (parser_at cx []) = (Inr False, parser_at cx [])"
  by (simp_all add: MatchesWith_eq currentToken_at Advance_at)

lemma Matches_at [at_simps]:
  "Matches t (parser_at cx (c # cs)) =
     (if tok_type c = t then (Inr True, parser_at (adv cx c cs) cs)
      else (Inr False, parser_at cx (c # cs)))"
  "t \<noteq> TokenTypeEOF \<Longrightarrow> Matches t (parser_at cx []) = (Inr False, parser_at cx [])"
  by (simp_all add: Matches_def MatchesWith_at)

lemma ConsumeWith_at [at_simps]:
  "f (tok_type c) \<Longrightarrow>
   ConsumeWith f msg (parser_at cx (c # cs)) = (Inr (), parser_at (adv cx c cs) cs)"
  "\<not> f (tok_type c) \<Longrightarrow>
   ConsumeWith f msg (parser_at cx (c # cs)) = (Inl (RfcError (cx_prev cx) msg), parser_at cx (c # cs))"
  "\<not> f TokenTypeEOF \<Longrightarrow>
   ConsumeWith f msg (parser_at cx []) = (Inl (RfcError (cx_prev cx) msg), parser_at cx [])"
  by (simp_all add: ConsumeWith_def currentToken_at Advance_at MakeError_def)

lemma Consume_at [at_simps]:
  "tok_type c = t \<Longrightarrow>
   Consume t msg (parser_at cx (c # cs)) = (Inr (), parser_at (adv cx c cs) cs)"
  "tok_type c \<noteq> t \<Longrightarrow>
   Consume t msg (parser_at cx (c # cs)) = (Inl (RfcError (cx_prev cx) msg), parser_at cx (c # cs))"
  "t \<noteq> TokenTypeEOF \<Longrightarrow>
   Consume t msg (parser_at cx []) = (Inl (RfcError (cx_prev cx) msg), parser_at cx [])"
  by (simp_all add: Consume_def ConsumeWith_at)

lemma PreviousToken_at [at_simps]: "PreviousToken (parser_at cx bs) = (Inr (cx_prev cx), parser_at cx bs)"
  by (simp add: PreviousToken_def p_gets_def)

lemma CurrentToken_at [at_simps]:
  "CurrentToken (parser_at cx bs) = (Inr (currentToken (parser_at cx bs)), parser_at cx bs)"
  by (simp add: CurrentToken_def p_gets_def)

lemma ConsumeBytesFold_at:
  assumes "ToLower s = ToLower w"
  shows "ConsumeBytesFold w (parser_at cx (s @ rest)) = (Inr (), parser_at (advs cx s rest) rest)"
  using assms
proof (induction w arbitrary: s cx)
  case Nil
  then show ?case by (cases s) auto
next
  case (Cons d w)
  then obtain c s' where s: "s = c # s'" "lower_byte c = lower_byte d" "ToLower s' = ToLower w"
    by (cases s) auto
  then show ?case
    using Cons.IH [of s' "adv cx c (s' @ rest)"]
    by (simp add: currentToken_at Advance_at ByteToLower_lower_byte)
qed

lemmas seq_simps = p_bind_def p_then_def p_map_def p_return_def p_fail_def MakeError_def

section \<open>Collecting and numbers\<close>

definition stops :: "(TokenType \<Rightarrow> bool) \<Rightarrow> bytes \<Rightarrow> bool" where
  "stops f rest \<longleftrightarrow> (case rest of [] \<Rightarrow> \<not> f TokenTypeEOF | c # _ \<Rightarrow> \<not> f (tok_type c))"

lemma stops_simps [simp]:
  "stops f [] \<longleftrightarrow> \<not> f TokenTypeEOF" "stops f (c # cs) \<longleftrightarrow> \<not> f (tok_type c)"
  by (simp_all add: stops_def)

lemma collect_loop_unfold:
  assumes "\<not> f TokenTypeEOF"
  shows "p_loop (collect_step f) acc p =
     (case collect_step f acc p of
        (Inl e, p') \<Rightarrow> (Inl e, p')
      | (Inr (Inr a), p') \<Rightarrow> (Inr a, p')
      | (Inr (Inl b'), p') \<Rightarrow> p_loop (collect_step f) b' p')"
proof (rule p_loop_unfold)
  show "parser_action (collect_step f b)" for b
    unfolding collect_step_def by (intro safe_intros)
  show "progresses (\<lambda>x. \<exists>b'. x = Inl b') (collect_step f b)" for b
    unfolding collect_step_def using assms
    by (intro progresses_MatchesWith) (auto intro!: safe_intros progresses_return)
qed

lemma collect_at:
  assumes "\<not> f TokenTypeEOF" and "\<forall>c \<in> set s. f (tok_type c)" and "stops f rest"
  shows "p_loop (collect_step f) acc (parser_at cx (s @ rest)) =
     (Inr (acc @ s), parser_at (advs cx s rest) rest)"
  using assms(2)
proof (induction s arbitrary: acc cx)
  case Nil
  from assms(1,3) have "MatchesWith f (parser_at cx rest) = (Inr False, parser_at cx rest)"
    by (cases rest) (auto simp: MatchesWith_at)
  then show ?case
    by (subst collect_loop_unfold [of f, OF assms(1)]) (simp add: collect_step_def seq_simps)
next
  case (Cons c s)
  then have "collect_step f acc (parser_at cx ((c # s) @ rest)) =
      (Inr (Inl (acc @ [c])), parser_at (adv cx c (s @ rest)) (s @ rest))"
    by (simp add: collect_step_def seq_simps at_simps)
  with Cons show ?case
    by (subst collect_loop_unfold [of f, OF assms(1)]) simp
qed

lemma CollectBytesWhileMatchesWith_at:
  assumes "\<not> f TokenTypeEOF" and "\<forall>c \<in> set s. f (tok_type c)" and "stops f rest"
  shows "CollectBytesWhileMatchesWith f (parser_at cx (s @ rest)) =
     (Inr \<lparr>BytesValue = s, BytesOffset = cx_off cx\<rparr>, parser_at (advs cx s rest) rest)"
  using collect_at [OF assms, of "[]" cx]
  by (simp add: CollectBytesWhileMatchesWith_def seq_simps CurrentToken_at)

lemma CollectBytesWhileMatchesWithPrevWith_at:
  assumes "\<not> f TokenTypeEOF" and "\<forall>c \<in> set s. f (tok_type c)" and "stops f rest"
  shows "CollectBytesWhileMatchesWithPrevWith f (parser_at cx (s @ rest)) =
     (Inr \<lparr>BytesValue = Value (cx_prev cx) # s, BytesOffset = Offset (cx_prev cx)\<rparr>,
      parser_at (advs cx s rest) rest)"
  using collect_at [OF assms, of "[Value (cx_prev cx)]" cx]
  by (simp add: CollectBytesWhileMatchesWithPrevWith_def seq_simps PreviousToken_at)

lemma ParseAtom_at:
  assumes "s \<noteq> []" and "\<forall>c \<in> set s. IsAtomChar (tok_type c)" and "stops IsAtomChar rest"
  shows "ParseAtom (parser_at cx (s @ rest)) = (Inr s, parser_at (advs cx s rest) rest)"
proof -
  from assms(1) obtain c s' where s: "s = c # s'" by (cases s) auto
  with assms show ?thesis
    using CollectBytesWhileMatchesWithPrevWith_at [of IsAtomChar s' rest "adv cx c (s' @ rest)"]
    by (simp add: ParseAtom_def seq_simps ConsumeWith_at)
qed

lemma ByteToInt_digit: "is_digit c \<Longrightarrow> ByteToInt c = of_nat (digit_val c)"
  by (simp add: ByteToInt_def digit_val_def is_digit_def of_nat_diff)

lemma number_fold:
  assumes "\<forall>c \<in> set ds. is_digit c"
  shows "foldl (\<lambda>n c. n * 10 + ByteToInt c) (of_nat m) ds =
    of_nat (foldl (\<lambda>n c. 10 * n + digit_val c) m ds)"
  using assms
proof (induction ds arbitrary: m)
  case Nil
  then show ?case by simp
next
  case (Cons d ds)
  then have e: "(of_nat m * 10 + ByteToInt d :: goint) = of_nat (10 * m + digit_val d)"
    by (simp add: ByteToInt_digit)
  from Cons show ?case by (simp add: e del: of_nat_add of_nat_mult)
qed

lemma number_at:
  assumes "\<forall>c \<in> set ds. is_digit c" and "stops (\<lambda>t. t = TokenTypeDigit) rest"
  shows "p_loop number_step n (parser_at cx (ds @ rest)) =
     (Inr (foldl (\<lambda>n c. n * 10 + ByteToInt c) n ds), parser_at (advs cx ds rest) rest)"
  using assms(1)
proof (induction ds arbitrary: n cx)
  case Nil
  from assms(2) have "Matches TokenTypeDigit (parser_at cx rest) = (Inr False, parser_at cx rest)"
    by (cases rest) (auto simp: Matches_at)
  then show ?case
    by (subst p_loop_unfold [OF pa_number_step progresses_number_step])
      (simp add: number_step_def seq_simps)
next
  case (Cons d ds)
  then have "number_step n (parser_at cx ((d # ds) @ rest)) =
      (Inr (Inl (n * 10 + ByteToInt d)), parser_at (adv cx d (ds @ rest)) (ds @ rest))"
    by (simp add: number_step_def seq_simps at_simps tok_type_classes isByteDigit_is_digit)
  with Cons show ?case
    by (subst p_loop_unfold [OF pa_number_step progresses_number_step]) simp
qed

lemma ParseNumber_at:
  assumes "ds \<noteq> []" and "\<forall>c \<in> set ds. is_digit c" and "stops (\<lambda>t. t = TokenTypeDigit) rest"
  shows "ParseNumber (parser_at cx (ds @ rest)) =
     (Inr (of_nat (dec_val ds)), parser_at (advs cx ds rest) rest)"
proof -
  from assms(1) obtain d ds' where ds: "ds = d # ds'" by (cases ds) auto
  with assms(2) have d: "is_digit d" "\<forall>c \<in> set ds'. is_digit c" by auto
  then have t: "tok_type d = TokenTypeDigit" by (simp add: tok_type_classes isByteDigit_is_digit)
  have "foldl (\<lambda>n c. n * 10 + ByteToInt c) (ByteToInt d) ds' = of_nat (dec_val ds)"
    using number_fold [OF d(2), of "digit_val d"] d(1) by (simp add: ByteToInt_digit dec_val_def ds)
  with t number_at [OF d(2) assms(3), of "ByteToInt d" "adv cx d (ds' @ rest)"] show ?thesis
    by (simp add: ParseNumber_def ds seq_simps at_simps)
qed

section \<open>Quoted strings and literals\<close>

definition escape_byte :: "char \<Rightarrow> bytes" where
  "escape_byte c = (if c = CHR 0x22 \<or> c = CHR 0x5C then [CHR 0x5C, c] else [c])"

definition quote :: "bytes \<Rightarrow> bytes" where
  "quote s = CHR 0x22 # concat (map escape_byte s) @ [CHR 0x22]"

lemma quoted_loop_unfold:
  "p_loop quoted_step acc p =
     (case quoted_step acc p of
        (Inl e, p') \<Rightarrow> (Inl e, p')
      | (Inr (Inr a), p') \<Rightarrow> (Inr a, p')
      | (Inr (Inl b'), p') \<Rightarrow> p_loop quoted_step b' p')"
proof (rule p_loop_unfold)
  show "parser_action (quoted_step b)" for b
    unfolding quoted_step_def by (intro safe_intros)
  show "progresses (\<lambda>x. \<exists>b'. x = Inl b') (quoted_step b)" for b
    unfolding quoted_step_def
    by (rule progresses_MatchesWith)
      (auto intro!: safe_intros progresses_return progresses_Matches)
qed

lemma IsQuotedChar_byte [simp]: "IsQuotedChar (tok_type c) \<longleftrightarrow> c \<noteq> CHR 0x22 \<and> c \<noteq> CHR 0x5C"
  by (auto simp: token_class_defs tok_type_punct)

lemma IsQuotedSpecial_byte [simp]: "IsQuotedSpecial (tok_type c) \<longleftrightarrow> c = CHR 0x22 \<or> c = CHR 0x5C"
  by (auto simp: token_class_defs tok_type_punct)

lemma quoted_step_at:
  "quoted_step acc (parser_at cx (escape_byte c @ rest)) =
     (Inr (Inl (acc @ [c])), parser_at (advs cx (escape_byte c) rest) rest)"
  by (simp add: escape_byte_def quoted_step_def seq_simps at_simps tok_type_punct)

lemma quoted_at:
  "p_loop quoted_step acc (parser_at cx (concat (map escape_byte s) @ CHR 0x22 # rest)) =
     (Inr (acc @ s),
      parser_at (advs cx (concat (map escape_byte s)) (CHR 0x22 # rest)) (CHR 0x22 # rest))"
proof (induction s arbitrary: acc cx)
  case Nil
  show ?case
    by (subst quoted_loop_unfold) (simp add: quoted_step_def seq_simps at_simps tok_type_punct)
next
  case (Cons c s)
  show ?case
    by (subst quoted_loop_unfold)
      (simp add: quoted_step_at Cons advs_append)
qed

lemma cx_off_adv [simp]: "cs \<noteq> [] \<Longrightarrow> cx_off (adv cx c cs) = cx_off cx + 1"
  by (simp add: adv_def)

lemma ParseQuoted_at:
  "ParseQuoted (parser_at cx (quote s @ rest)) =
     (Inr \<lparr>StringValue = s, StringOffset = cx_off cx + 1\<rparr>, parser_at (advs cx (quote s) rest) rest)"
  by (simp add: ParseQuoted_def quote_def seq_simps at_simps tok_type_punct quoted_at advs_append)


text \<open>A literal: its size in braces, CRLF, and the bytes.\<close>

definition literal_bytes :: "bytes \<Rightarrow> bytes" where
  "literal_bytes bs = ''{'' @ show_nat (length bs) @ ''}'' @ [CHR 0x0D, CHR 0x0A] @ bs"

lemma literalContinuation_at:
  assumes "cx_cb cx = Some cb" and "cb msg = None"
  shows "literalContinuation msg (parser_at cx (CHR 0x0A # cs)) =
     (Inr (), parser_at (cx\<lparr>cx_log := cx_log cx @ [(msg, cx_off cx)]\<rparr>) (CHR 0x0A # cs))"
  using assms by (simp add: literalContinuation_def parser_at.simps tok_type_punct byte_token_def)

lemma literalContinuation_None_at:
  "cx_cb cx = None \<Longrightarrow> literalContinuation msg (parser_at cx bs) = (Inr (), parser_at cx bs)"
  by (simp add: literalContinuation_def)

text \<open>The bytes of a literal, read past the token that is already loaded, and the next token.\<close>

lemma read_literal_at:
  "p_bind (read_literal (length (b # bs))) (\<lambda>l. p_then Advance (p_return l))
      (parser_at cx (b # bs @ rest)) =
     (Inr (b # bs),
      parser_at (cx\<lparr>cx_prev := byte_token cx b, cx_byte := (if rest = [] then b else CHR 0x00),
        cx_off := cx_off cx + int (length bs) + (if rest = [] then 0 else 1)\<rparr>) rest)"
  by (cases rest)
    (simp_all add: seq_simps read_literal_def parser_at.simps scanner_ConsumeBytes_def ReadFull_def
      Advance_def ScanToken_Cons ScanToken_Nil makeEOF_def byte_token_def)

lemma sint_of_nat_literal: "n < 70 * 1024 * 1024 \<Longrightarrow> sint (of_nat n :: goint) = int n"
  by (simp add: signed_of_nat signed_take_bit_int_eq_self)

lemma unat_of_nat_literal: "n < 70 * 1024 * 1024 \<Longrightarrow> unat (of_nat n :: goint) = n"
  by (simp add: unat_of_nat take_bit_nat_eq_self)

lemma digit_not_rcurly [simp]: "stops (\<lambda>t. t = TokenTypeDigit) (CHR ''}'' # cs)"
  by (simp add: tok_type_classes isByteDigit_def)

lemma cx_off_advs_nonempty: "rest \<noteq> [] \<Longrightarrow> cx_off (advs cx s rest) = cx_off cx + int (length s)"
  by (induction s arbitrary: cx) simp_all

text \<open>The state in which \<open>ParseLiteral\<close> has read the size and decides about it.\<close>

lemma ParseLiteral_size_at:
  assumes "ds \<noteq> []" and "\<forall>c \<in> set ds. is_digit c"
  shows "ParseLiteral (parser_at cx (CHR ''{'' # ds @ CHR ''}'' # rest)) =
    (let size = of_nat (dec_val ds) :: goint;
         cx1 = advs cx (CHR ''{'' # ds) (CHR ''}'' # rest)
     in if sint size \<le> 0
        then (Inl (PlainError ''invalid literal size''), parser_at cx1 (CHR ''}'' # rest))
        else if sint size \<ge> 70 * 1024 * 1024
        then (Inl (PlainError ''literal size exceeds maximum size of 70MB''),
              parser_at cx1 (CHR ''}'' # rest))
        else p_then (Consume TokenTypeCR ''expected CR'')
             (p_then (literalContinuation DefaultContinuationMessage)
               (p_then (Consume TokenTypeLF ''expected LF after CR'')
                 (p_bind (read_literal (unat size)) (\<lambda>literal.
                   p_then Advance (p_return literal)))))
             (parser_at (adv cx1 (CHR ''}'') rest) rest))"
  using ParseNumber_at [OF assms digit_not_rcurly, of "adv cx CHR ''{'' (ds @ CHR ''}'' # rest)" rest]
  by (simp add: ParseLiteral_def seq_simps at_simps tok_type_punct Let_def)

lemma literal_digits:
  "show_nat n \<noteq> []" "\<forall>c \<in> set (show_nat n). is_digit c"
  using show_nat_digits by simp_all

lemma literal_tail_at:
  assumes "cx_cb cx = Some cb" and "cb ''Ready'' = None"
  shows "p_then (Consume TokenTypeCR ''expected CR'')
        (p_then (literalContinuation DefaultContinuationMessage)
          (p_then (Consume TokenTypeLF ''expected LF after CR'') k))
        (parser_at cx (CHR 0x0D # CHR 0x0A # cs)) =
     k (parser_at (adv ((adv cx CHR 0x0D (CHR 0x0A # cs))
          \<lparr>cx_log := cx_log cx @ [(''Ready'', cx_off cx + 1)]\<rparr>) CHR 0x0A cs) cs)"
  using assms
  by (simp add: seq_simps at_simps tok_type_punct DefaultContinuationMessage_def
      literalContinuation_at [where cb = cb])

lemma ParseLiteral_at:
  assumes "bs \<noteq> []" and "length bs < 70 * 1024 * 1024" and "cx_cb cx = Some cb"
    and "cb ''Ready'' = None"
  shows "\<exists>cx'. ParseLiteral (parser_at cx (literal_bytes bs @ rest)) = (Inr bs, parser_at cx' rest)
     \<and> cx_log cx' = cx_log cx @ [(''Ready'', cx_off cx + int (length (literal_bytes bs) - length bs) - 1)]
     \<and> cx_cb cx' = cx_cb cx"
proof -
  from assms(1) obtain b bs' where bs: "bs = b # bs'" by (cases bs) auto
  let ?n = "length bs"
  let ?r = "CHR 0x0D # CHR 0x0A # b # bs' @ rest"
  let ?cx1 = "adv (advs cx (CHR ''{'' # show_nat ?n) (CHR ''}'' # ?r)) (CHR ''}'') ?r"
  let ?cx2 = "adv ((adv ?cx1 CHR 0x0D (CHR 0x0A # b # bs' @ rest))
      \<lparr>cx_log := cx_log cx @ [(''Ready'', cx_off ?cx1 + 1)]\<rparr>) CHR 0x0A (b # bs' @ rest)"
  have off: "cx_off ?cx1 + 1 = cx_off cx + int (length (literal_bytes bs) - length bs) - 1"
    using cx_off_advs_nonempty [of "CHR ''}'' # ?r" "adv cx CHR ''{'' (show_nat ?n @ CHR ''}'' # ?r)" "show_nat ?n"]
    by (simp add: literal_bytes_def)
  have size: "sint (of_nat ?n :: goint) = int ?n" "unat (of_nat ?n :: goint) = ?n"
    using assms(2) sint_of_nat_literal unat_of_nat_literal by blast+
  have "ParseLiteral (parser_at cx (literal_bytes bs @ rest)) =
      p_then (Consume TokenTypeCR ''expected CR'')
        (p_then (literalContinuation DefaultContinuationMessage)
          (p_then (Consume TokenTypeLF ''expected LF after CR'')
            (p_bind (read_literal ?n) (\<lambda>literal. p_then Advance (p_return literal)))))
        (parser_at ?cx1 ?r)"
    using ParseLiteral_size_at [OF literal_digits, of cx ?n ?r] size assms(1,2)
    by (simp add: literal_bytes_def bs dec_val_show_nat)
  also have "\<dots> = p_bind (read_literal ?n) (\<lambda>literal. p_then Advance (p_return literal))
      (parser_at ?cx2 (b # bs' @ rest))"
    using assms(3,4) by (subst literal_tail_at [where cb = cb]) simp_all
  finally show ?thesis
    unfolding bs read_literal_at using off [unfolded bs] by (intro exI conjI) (assumption, simp_all)
qed

section \<open>What a successful parse yields\<close>

text \<open>
  \<open>yields Q m\<close>: started with any input, \<open>m\<close> either fails, or returns a value in \<open>Q\<close> and has the
  rest of some input before it.
\<close>

definition yields :: "('a \<Rightarrow> bool) \<Rightarrow> 'a parse \<Rightarrow> bool" where
  "yields Q m \<longleftrightarrow>
     (\<forall>cx bs x p'. m (parser_at cx bs) = (Inr x, p') \<longrightarrow> Q x \<and> (\<exists>cx' bs'. p' = parser_at cx' bs'))"

abbreviation yields_any :: "'a parse \<Rightarrow> bool" where
  "yields_any m \<equiv> yields (\<lambda>_. True) m"

lemma yieldsI:
  assumes "\<And>cx bs x p'. m (parser_at cx bs) = (Inr x, p') \<Longrightarrow> Q x \<and> (\<exists>cx' bs'. p' = parser_at cx' bs')"
  shows "yields Q m"
  using assms unfolding yields_def by blast

lemma yieldsD:
  assumes "yields Q m" and "m (parser_at cx bs) = (Inr x, p')"
  shows "Q x" and "\<exists>cx' bs'. p' = parser_at cx' bs'"
  using assms unfolding yields_def by blast+

lemma yields_weaken: "yields P m \<Longrightarrow> (\<And>x. P x \<Longrightarrow> Q x) \<Longrightarrow> yields Q m"
  unfolding yields_def by blast

lemmas [yield_intros] = TrueI

lemma yields_return [yield_intros]: "Q a \<Longrightarrow> yields Q (p_return a)"
  by (rule yieldsI) (auto simp: p_return_def)

lemma yields_fail [yield_intros]: "yields Q (p_fail e)"
  by (rule yieldsI) (simp add: p_fail_def)

lemma yields_MakeError [yield_intros]: "yields Q (MakeError msg)"
  by (rule yieldsI) (simp add: MakeError_def)

lemma yields_MakeErrorAtOffset [yield_intros]: "yields Q (MakeErrorAtOffset msg off)"
  unfolding MakeErrorAtOffset_def by (rule yields_fail)

lemma yields_if [yield_intros]:
  "(b \<Longrightarrow> yields Q m) \<Longrightarrow> (\<not> b \<Longrightarrow> yields Q m') \<Longrightarrow> yields Q (if b then m else m')"
  by simp

lemma yields_bind:
  assumes "yields P m" and "\<And>a. P a \<Longrightarrow> yields Q (f a)"
  shows "yields Q (p_bind m f)"
proof (rule yieldsI)
  fix cx bs x p'
  assume "p_bind m f (parser_at cx bs) = (Inr x, p')"
  then obtain a p1 where m: "m (parser_at cx bs) = (Inr a, p1)" and f: "f a p1 = (Inr x, p')"
    by (auto simp: p_bind_def split: prod.splits sum.splits)
  from yieldsD [OF assms(1) m] obtain cx1 bs1 where "P a" "p1 = parser_at cx1 bs1" by blast
  with f assms(2) show "Q x \<and> (\<exists>cx' bs'. p' = parser_at cx' bs')" by (auto dest: yieldsD)
qed

lemma yields_bind_any [yield_intros]:
  "yields_any m \<Longrightarrow> (\<And>a. yields Q (f a)) \<Longrightarrow> yields Q (p_bind m f)"
  by (rule yields_bind)

lemma yields_then [yield_intros]: "yields_any m \<Longrightarrow> yields Q k \<Longrightarrow> yields Q (p_then m k)"
  unfolding p_then_def by (rule yields_bind)

lemma yields_map: "yields P m \<Longrightarrow> (\<And>a. P a \<Longrightarrow> Q (f a)) \<Longrightarrow> yields Q (p_map f m)"
  unfolding p_map_def by (rule yields_bind [where P = P]) (auto intro: yields_return)

lemma yields_map_any [yield_intros]: "yields_any m \<Longrightarrow> yields_any (p_map f m)"
  by (rule yields_map)

lemma yields_Advance [yield_intros]: "yields_any Advance"
proof (rule yieldsI)
  fix cx bs x p'
  assume "Advance (parser_at cx bs) = (Inr x, p')"
  then have "\<exists>cx' bs'. p' = parser_at cx' bs'"
  proof (cases bs)
    case Nil
    have "Advance (parser_at cx []) =
        (Inr (), parser_at (cx\<lparr>cx_prev := currentToken (parser_at cx [])\<rparr>) [])"
      by (simp add: Advance_def ScanToken_Nil parser_at.simps makeEOF_def)
    with Nil \<open>Advance (parser_at cx bs) = _\<close> show ?thesis by auto
  qed (auto simp: Advance_at)
  then show "True \<and> (\<exists>cx' bs'. p' = parser_at cx' bs')" by simp
qed

lemma yields_ConsumeWith [yield_intros]: "yields_any (ConsumeWith f msg)"
  by (rule yieldsI)
    (auto simp: ConsumeWith_def MakeError_def dest: yieldsD(2) [OF yields_Advance] split: if_splits)

lemma yields_Consume [yield_intros]: "yields_any (Consume t msg)"
  unfolding Consume_def by (rule yields_ConsumeWith)

lemma yields_MatchesWith [yield_intros]: "yields_any (MatchesWith f)"
proof (rule yieldsI)
  fix cx bs x p'
  assume m: "MatchesWith f (parser_at cx bs) = (Inr x, p')"
  obtain cx' bs' where "snd (Advance (parser_at cx bs)) = parser_at cx' bs'"
    using yieldsD(2) [OF yields_Advance Advance_eq, of cx bs] by blast
  with m have "p' = parser_at cx' bs' \<or> p' = parser_at cx bs"
    by (simp add: MatchesWith_eq split: if_splits)
  then show "True \<and> (\<exists>cx' bs'. p' = parser_at cx' bs')" by blast
qed

lemma yields_Matches [yield_intros]: "yields_any (Matches t)"
  unfolding Matches_def by (rule yields_MatchesWith)

lemma yields_CurrentToken [yield_intros]: "yields_any CurrentToken"
  by (rule yieldsI) (auto simp: CurrentToken_at)

lemma yields_PreviousToken [yield_intros]: "yields_any PreviousToken"
  by (rule yieldsI) (auto simp: PreviousToken_at)

lemma yields_iter:
  assumes "\<And>b. I b \<Longrightarrow> yields (\<lambda>x. case x of Inl b' \<Rightarrow> I b' | Inr a \<Rightarrow> Q a) (body b)" and "I b"
  shows "yields Q (p_iter n body b)"
  using assms(2)
proof (induction n arbitrary: b)
  case 0
  show ?case by (rule yieldsI) simp
next
  case (Suc n)
  have eq: "p_iter (Suc n) body b =
      p_bind (body b) (\<lambda>x. case x of Inl b' \<Rightarrow> p_iter n body b' | Inr a \<Rightarrow> p_return a)"
    by (rule ext) (auto simp: p_bind_def p_return_def split: prod.splits sum.splits)
  show ?case
    unfolding eq using Suc
    by (intro yields_bind [OF assms(1)]) (auto intro: yields_return split: sum.splits)
qed

lemma yields_loop:
  assumes "\<And>b. I b \<Longrightarrow> yields (\<lambda>x. case x of Inl b' \<Rightarrow> I b' | Inr a \<Rightarrow> Q a) (body b)" and "I b"
  shows "yields Q (p_loop body b)"
proof (rule yieldsI)
  fix cx bs x p'
  assume "p_loop body b (parser_at cx bs) = (Inr x, p')"
  then have "p_iter (Suc (length bs)) body b (parser_at cx bs) = (Inr x, p')"
    by (simp add: p_loop_def)
  then show "Q x \<and> (\<exists>cx' bs'. p' = parser_at cx' bs')"
    using yieldsD [OF yields_iter [where I = I and body = body and Q = Q, OF assms]] by blast
qed

lemma yields_sep_loop:
  assumes "yields P item" and "\<forall>x \<in> set acc. P x"
  shows "yields (\<lambda>xs. (\<forall>x \<in> set xs. P x) \<and> length acc \<le> length xs) (sep_loop sep item acc)"
  unfolding sep_loop_def
proof (rule yields_loop [where I = "\<lambda>xs. (\<forall>x \<in> set xs. P x) \<and> length acc \<le> length xs"])
  fix xs
  assume I: "(\<forall>x \<in> set xs. P x) \<and> length acc \<le> length xs"
  show "yields (\<lambda>x. case x of Inl ys \<Rightarrow> (\<forall>x \<in> set ys. P x) \<and> length acc \<le> length ys
      | Inr ys \<Rightarrow> (\<forall>x \<in> set ys. P x) \<and> length acc \<le> length ys) (sep_step sep item xs)"
    unfolding sep_step_def using I
    by (intro yield_intros yields_bind [OF assms(1)]) auto
qed (use assms(2) in simp)

lemma yields_sep_loop_any [yield_intros]: "yields_any item \<Longrightarrow> yields_any (sep_loop sep item acc)"
  by (rule yields_weaken [OF yields_sep_loop]) auto

lemma yields_loop_any:
  assumes "\<And>b. yields_any (body b)"
  shows "yields_any (p_loop body b)"
  by (rule yields_loop [where I = "\<lambda>_. True"])
    (auto intro: yields_weaken [OF assms] split: sum.splits)

lemma yields_CollectBytesWhileMatchesWith [yield_intros]:
  "yields_any (CollectBytesWhileMatchesWith f)"
  unfolding CollectBytesWhileMatchesWith_def collect_step_def
  by (intro yield_intros yields_loop_any)

lemma yields_CollectBytesWhileMatchesWithPrevWith [yield_intros]:
  "yields_any (CollectBytesWhileMatchesWithPrevWith f)"
  unfolding CollectBytesWhileMatchesWithPrevWith_def collect_step_def
  by (intro yield_intros yields_loop_any)

lemma yields_CollectBytesWhileMatches [yield_intros]: "yields_any (CollectBytesWhileMatches t)"
  unfolding CollectBytesWhileMatches_def by (intro yield_intros)

lemma yields_ParseNumber [yield_intros]: "yields_any ParseNumber"
  unfolding ParseNumber_def number_step_def by (intro yield_intros yields_loop_any)

lemma yields_number_n_loop [yield_intros]: "yields_any (number_n_loop i n)"
proof (induction i arbitrary: n)
  case 0
  show ?case by (rule yieldsI) auto
next
  case (Suc i)
  have "yields_any (case x of Inl n' \<Rightarrow> number_n_loop i n' | Inr n' \<Rightarrow> p_return n')" for x
    using Suc by (cases x) (auto intro: yield_intros)
  then show ?case
    unfolding number_n_loop_Suc number_step_def by (intro yield_intros)
qed

lemma yields_ParseNumberN [yield_intros]: "yields_any (ParseNumberN n)"
  unfolding ParseNumberN_def by (intro yield_intros)

lemma yields_ParseAtom [yield_intros]: "yields_any ParseAtom"
  unfolding ParseAtom_def by (intro yield_intros)

lemma yields_ConsumeBytesFold [yield_intros]: "yields_any (ConsumeBytesFold cs)"
proof (induction cs)
  case Nil
  show ?case by (rule yieldsI) auto
next
  case (Cons c cs)
  then show ?case unfolding ConsumeBytesFold_Cons by (intro yield_intros)
qed

lemma yields_ParseQuoted [yield_intros]: "yields_any ParseQuoted"
  unfolding ParseQuoted_def quoted_step_def by (intro yield_intros yields_loop_any)

lemma yields_literalContinuation [yield_intros]: "yields_any (literalContinuation msg)"
proof (rule yieldsI)
  fix cx bs x p'
  assume "literalContinuation msg (parser_at cx bs) = (Inr x, p')"
  then have "p' = parser_at cx bs \<or> p' = parser_at (cx\<lparr>cx_log := continuations p'\<rparr>) bs"
    by (cases bs) (auto simp: literalContinuation_def parser_at.simps Let_def byte_token_def
        split: option.splits if_splits)
  then show "True \<and> (\<exists>cx' bs'. p' = parser_at cx' bs')" by blast
qed

lemma yields_read_literal [yield_intros]:
  "yields_any (p_bind (read_literal n) (\<lambda>l. p_then Advance (p_return l)))"
proof (rule yieldsI)
  fix cx bs x p'
  assume r: "p_bind (read_literal n) (\<lambda>l. p_then Advance (p_return l)) (parser_at cx bs) = (Inr x, p')"
  show "True \<and> (\<exists>cx' bs'. p' = parser_at cx' bs')"
  proof (cases bs)
    case Nil
    with r have "n = 1"
      by (auto simp: p_bind_def read_literal_def scanner_ConsumeBytes_def ReadFull_def parser_at.simps
          split: if_splits)
    with r Nil have "p' = parser_at (cx\<lparr>cx_prev := currentToken (parser_at cx [])\<rparr>) []"
      by (simp add: seq_simps read_literal_def scanner_ConsumeBytes_def ReadFull_def parser_at.simps
          Advance_def ScanToken_Nil makeEOF_def)
    then show ?thesis by blast
  next
    case (Cons b cs)
    with r have n: "0 < n" "n - 1 \<le> length cs"
      by (auto simp: p_bind_def read_literal_def scanner_ConsumeBytes_def ReadFull_def parser_at.simps
          split: if_splits)
    then have "parser_at cx bs = parser_at cx (b # take (n - 1) cs @ drop (n - 1) cs)"
      and "n = length (b # take (n - 1) cs)" by (simp_all add: Cons)
    with r read_literal_at [of b "take (n - 1) cs" cx "drop (n - 1) cs"] show ?thesis by auto
  qed
qed

lemma yields_ParseLiteral [yield_intros]: "yields_any ParseLiteral"
  unfolding ParseLiteral_def by (intro yield_intros)

lemma yields_ParseString [yield_intros]: "yields_any ParseString"
  unfolding ParseString_def by (intro yield_intros)

lemma yields_TryParseString [yield_intros]: "yields_any TryParseString"
  unfolding TryParseString_def by (intro yield_intros)

lemma yields_ParseAString [yield_intros]: "yields_any ParseAString"
  unfolding ParseAString_def by (intro yield_intros)

lemma yields_ParseStringAfterContinuation [yield_intros]:
  "yields_any (ParseStringAfterContinuation msg)"
  unfolding ParseStringAfterContinuation_def by (intro yield_intros)

text \<open>An atom is a non-empty run of atom characters.\<close>

lemma collect_bytes_at:
  assumes "\<not> f TokenTypeEOF"
  shows "p_loop (collect_step f) acc (parser_at cx bs) =
    (let s = takeWhile (\<lambda>c. f (tok_type c)) bs; rest = dropWhile (\<lambda>c. f (tok_type c)) bs
     in (Inr (acc @ s), parser_at (advs cx s rest) rest))"
proof -
  let ?s = "takeWhile (\<lambda>c. f (tok_type c)) bs" and ?r = "dropWhile (\<lambda>c. f (tok_type c)) bs"
  have "stops f ?r"
  proof (cases ?r)
    case Nil
    then show ?thesis unfolding Nil using assms by simp
  next
    case (Cons c r)
    then have "\<not> f (tok_type c)" using hd_dropWhile [of "\<lambda>c. f (tok_type c)" bs] by simp
    then show ?thesis unfolding Cons by simp
  qed
  then have "p_loop (collect_step f) acc (parser_at cx (?s @ ?r)) =
      (Inr (acc @ ?s), parser_at (advs cx ?s ?r) ?r)"
    using assms by (intro collect_at) (auto dest: set_takeWhileD)
  then show ?thesis by (simp add: Let_def)
qed

lemma ParseAtom_atom_chars:
  "yields (\<lambda>s. s \<noteq> [] \<and> (\<forall>c \<in> set s. IsAtomChar (tok_type c))) ParseAtom"
proof (rule yieldsI)
  fix cx bs s p'
  assume r: "ParseAtom (parser_at cx bs) = (Inr s, p')"
  then have "s \<noteq> [] \<and> (\<forall>c \<in> set s. IsAtomChar (tok_type c))"
    by (cases bs)
      (auto simp: ParseAtom_def CollectBytesWhileMatchesWithPrevWith_def seq_simps at_simps
        ConsumeWith_def MakeError_def currentToken_at collect_bytes_at Let_def
        dest: set_takeWhileD split: if_splits)
  then show "(s \<noteq> [] \<and> (\<forall>c \<in> set s. IsAtomChar (tok_type c))) \<and> (\<exists>cx' bs'. p' = parser_at cx' bs')"
    using yieldsD(2) [OF yields_ParseAtom r] by blast
qed

section \<open>Properties\<close>

text \<open>
  scanning an input token by token delivers every byte once, in order, with the token type the
  byte has and consecutive offsets; no byte makes the scanner fail.
\<close>

theorem scan_tokens_delivers:
  "fst (scan_tokens (length (pending (source s))) s) =
     map (\<lambda>i. \<lparr>TType = the (byte_type (pending (source s) ! i)), Value = pending (source s) ! i,
               Offset = offset s + int i + 1\<rparr>) [0..<length (pending (source s))]"
proof (induction "pending (source s)" arbitrary: s)
  case Nil
  then show ?case by simp
next
  case (Cons b bs)
  let ?s = "s\<lparr>source := (source s)\<lparr>pending := bs\<rparr>, currentByte := b, offset := offset s + 1\<rparr>"
  have p: "pending (source s) = b # bs" using Cons.hyps(2) by simp
  have IH: "fst (scan_tokens (length bs) ?s) =
      map (\<lambda>i. \<lparr>TType = the (byte_type (bs ! i)), Value = bs ! i, Offset = offset s + 1 + int i + 1\<rparr>)
        [0..<length bs]"
    using Cons.hyps(1) [of ?s] by simp
  have "fst (scan_tokens (Suc (length bs)) s) =
      \<lparr>TType = tok_type b, Value = b, Offset = offset s + 1\<rparr> # fst (scan_tokens (length bs) ?s)"
    by (simp add: ScanToken_Cons [OF p] case_prod_beta Let_def)
  also have "\<dots> = map (\<lambda>i. \<lparr>TType = the (byte_type ((b # bs) ! i)), Value = (b # bs) ! i,
      Offset = offset s + int i + 1\<rparr>) (0 # map Suc [0..<length bs])"
    unfolding IH by (simp add: tok_type_def)
  finally show ?case by (simp add: p upt_conv_Cons map_Suc_upt del: upt_Suc)
qed

text \<open>
  C29: \<open>ParseNumber\<close> reads the longest run of digits and returns its value as a 64-bit integer, that
  is modulo \<open>2^64\<close>; the input after the digits is left unread.
\<close>

theorem ParseNumber_value:
  assumes "ds \<noteq> []" and "\<forall>c \<in> set ds. is_digit c"
    and "\<forall>c cs. rest = c # cs \<longrightarrow> \<not> is_digit c"
  shows "\<exists>p'. ParseNumber (parser_on cb (ds @ rest)) = (Inr (of_nat (dec_val ds)), p')
    \<and> rest_of p' = rest"
proof -
  have "stops (\<lambda>t. t = TokenTypeDigit) rest"
    using assms(3) by (cases rest) (auto simp: tok_type_classes isByteDigit_is_digit)
  with assms show ?thesis unfolding parser_on_at by (simp add: ParseNumber_at)
qed

theorem ParseNumber_value_witness:
  "\<exists>p'. ParseNumber (parser_on None ''18446744073709551617 x'') = (Inr 1, p') \<and> rest_of p' = '' x''"
proof -
  have "(of_nat (dec_val ''18446744073709551617'') :: goint) = of_nat (2 ^ 64 + 1)"
    by (simp add: dec_val_def digit_val_def)
  also have "\<dots> = 1" unfolding of_nat_add of_nat_power by simp
  finally show ?thesis
    using ParseNumber_value [of "''18446744073709551617''" "'' x''" None] by (simp add: is_digit_def)
qed

text \<open>
  C28: parsing a quoted string gives back exactly the string that was quoted, whatever bytes it
  holds, and leaves the input after the closing quote.
\<close>

theorem ParseQuoted_roundtrip:
  "\<exists>p'. ParseQuoted (parser_on cb (quote s @ rest)) = (Inr \<lparr>StringValue = s, StringOffset = 2\<rparr>, p')
    \<and> rest_of p' = rest"
  unfolding parser_on_at ParseQuoted_at by (simp add: start_cx_def quote_def)

text \<open>
  C24: a literal of 1 to 70 MiB - 1 bytes is read back byte for byte, whatever it holds, and what
  follows is left unread. The continuation request is sent exactly once, when no byte of the
  literal has been read yet.
\<close>

theorem ParseLiteral_roundtrip:
  assumes "bs \<noteq> []" and "length bs < 70 * 1024 * 1024" and "cb ''Ready'' = None"
  shows "\<exists>p'. ParseLiteral (parser_on (Some cb) (literal_bytes bs @ rest)) = (Inr bs, p')
    \<and> rest_of p' = rest
    \<and> continuations p' = [(''Ready'', int (length (literal_bytes bs) - length bs))]"
proof -
  have "literal_bytes bs @ rest \<noteq> []" by (simp add: literal_bytes_def)
  then show ?thesis
    using ParseLiteral_at [OF assms(1,2), of "start_cx (Some cb) (literal_bytes bs @ rest)" cb rest] assms(3)
    unfolding parser_on_at by (auto simp: start_cx_def)
qed

theorem ParseLiteral_roundtrip_witness:
  "\<exists>p'. ParseLiteral (parser_on (Some (\<lambda>_. None)) (''{2}'' @ [CHR 0x0D, CHR 0x0A] @ ''ab)'')) = (Inr ''ab'', p')
    \<and> rest_of p' = '')'' \<and> continuations p' = [(''Ready'', 5)]"
proof -
  have l: "literal_bytes ''ab'' = ''{2}'' @ [CHR 0x0D, CHR 0x0A] @ ''ab''" by code_simp
  show ?thesis using ParseLiteral_roundtrip [of "''ab''" "\<lambda>_. None" "'')''"] by (simp add: l)
qed

text \<open>
  C27: a literal size that is zero or negative as a 64-bit integer, or 70 MiB and more, is refused
  with an error before any continuation request and before the closing brace is consumed.
\<close>

theorem ParseLiteral_size_refused:
  assumes "ds \<noteq> []" and "\<forall>c \<in> set ds. is_digit c"
    and "\<not> (0 < sint (of_nat (dec_val ds) :: goint)
             \<and> sint (of_nat (dec_val ds) :: goint) < 70 * 1024 * 1024)"
  shows "\<exists>msg p'. ParseLiteral (parser_on cb (CHR ''{'' # ds @ CHR ''}'' # rest)) = (Inl (PlainError msg), p')
    \<and> rest_of p' = CHR ''}'' # rest \<and> continuations p' = []"
  using assms(3) unfolding parser_on_at ParseLiteral_size_at [OF assms(1,2)]
  by (auto simp: Let_def start_cx_def)

theorem ParseLiteral_size_refused_witness:
  "\<exists>msg p'. ParseLiteral (parser_on None ''{73400320}x'') = (Inl (PlainError msg), p')
    \<and> rest_of p' = ''}x'' \<and> continuations p' = []"
  using ParseLiteral_size_refused [of "''73400320''" None "''x''"]
  by (simp add: is_digit_def dec_val_def digit_val_def)

end
