(* ===== verification/Command_Syntax.thy ===== *)
theory Command_Syntax
  imports Rfc_Roundtrip
begin

text \<open>
  The pieces the command parsers of \<open>imap/command\<close> share: sequence sets (\<open>seq_set.go\<close>), flags
  (\<open>flags.go\<close>), mailbox names (\<open>mailbox.go\<close>), \<open>nstring.go\<close>, dates and times (\<open>date_time.go\<close>).
  A \<open>SeqNum\<close> is a 64-bit integer and 0 stands for \<open>*\<close>. A \<open>time.Time\<close> is kept as the arguments
  given to \<open>time.Date\<close>; a \<open>*time.Location\<close> is its offset in seconds.
\<close>

section \<open>Sequence sets\<close>

type_synonym SeqNum = goint

record SeqRange =
  Begin :: SeqNum
  End :: SeqNum

definition SeqNumValueAsterisk :: SeqNum where
  "SeqNumValueAsterisk = 0"

definition SeqNum_IsAsterisk :: "SeqNum \<Rightarrow> bool" where
  "SeqNum_IsAsterisk s \<longleftrightarrow> s = SeqNumValueAsterisk"

definition SeqNum_String :: "SeqNum \<Rightarrow> string" where
  "SeqNum_String s = (if SeqNum_IsAsterisk s then ''*'' else show_int (sint s))"

definition SeqRange_String :: "SeqRange \<Rightarrow> string" where
  "SeqRange_String s = SeqNum_String (Begin s) @ '':'' @ SeqNum_String (End s)"

definition ParseNZNumber :: "goint parse" where
  "ParseNZNumber =
     p_bind ParseNumber (\<lambda>num.
       if sint num \<le> 0 then MakeError ''expected non zero number'' else p_return num)"

definition ParseSeqNumber :: "SeqNum parse" where
  "ParseSeqNumber =
     p_bind (Matches TokenTypeAsterisk) (\<lambda>ok.
       if ok then p_return SeqNumValueAsterisk else ParseNZNumber)"

definition ParseSeqRange :: "SeqRange parse" where
  "ParseSeqRange =
     p_bind ParseSeqNumber (\<lambda>seqBegin.
       p_bind (Matches TokenTypeColon) (\<lambda>ok.
         if \<not> ok then p_return \<lparr>Begin = seqBegin, End = seqBegin\<rparr>
         else p_bind ParseSeqNumber (\<lambda>seqEnd. p_return \<lparr>Begin = seqBegin, End = seqEnd\<rparr>)))"

definition ParseSeqSet :: "SeqRange list parse" where
  "ParseSeqSet =
     p_bind ParseSeqRange (\<lambda>firstRange. sep_loop TokenTypeComma ParseSeqRange [firstRange])"

section \<open>Flags, mailbox names, nstring\<close>

definition ParseFlag :: "string parse" where
  "ParseFlag =
     p_bind (Matches TokenTypeBackslash) (\<lambda>hasBackslash.
       if hasBackslash then
         p_bind ParseAtom (\<lambda>flag.
           if EqualFold flag ''recent'' then MakeError ''Recent Flag is not allowed in this context''
           else p_return (CHR 0x5C # flag))
       else ParseAtom)"

definition quoted_char :: "char \<Rightarrow> string" where
  "quoted_char c = [CHR 0x27, c, CHR 0x27]"

definition ParseFlagList :: "string list parse" where
  "ParseFlagList =
     p_then (Consume TokenTypeLParen (''Expected '' @ quoted_char CHR ''('' @ '' at start of flag list''))
       (p_bind CurrentToken (\<lambda>t.
         p_bind
           (if TType t \<noteq> TokenTypeRParen
            then p_bind ParseFlag (\<lambda>firstFlag. sep_loop TokenTypeSP ParseFlag [firstFlag])
            else p_return [])
           (\<lambda>flags.
             p_then (Consume TokenTypeRParen (''Expected '' @ quoted_char CHR '')'' @ '' at end of flag list''))
               (p_return flags))))"

definition TryParseFlagList :: "(string list \<times> bool) parse" where
  "TryParseFlagList =
     p_bind CurrentToken (\<lambda>t.
       if TType t \<noteq> TokenTypeLParen then p_return ([], False)
       else p_bind ParseFlagList (\<lambda>flags. p_return (flags, True)))"

definition ParseMailbox :: "rfc_String parse" where
  "ParseMailbox =
     p_bind ParseAString (\<lambda>astring.
       p_return (if EqualFold (StringValue astring) ''INBOX''
                 then astring\<lparr>StringValue := ''INBOX''\<rparr> else astring))"

definition ParseNString :: "(rfc_String \<times> bool) parse" where
  "ParseNString =
     p_bind TryParseString (\<lambda>(s, ok).
       if ok then p_return (s, False)
       else p_then (ConsumeBytesFold ''NIL'')
         (p_return (\<lparr>StringValue = [], StringOffset = 0\<rparr>, True)))"

section \<open>Dates and times\<close>

record Time =
  tyear :: int
  tmonth :: int
  tday :: int
  thour :: int
  tmin :: int
  tsec :: int
  tzone :: int

definition dateMonthToInt :: "string \<Rightarrow> int option" where
  "dateMonthToInt = map_of
     [(''jan'', 1), (''feb'', 2), (''mar'', 3), (''apr'', 4), (''may'', 5), (''jun'', 6),
      (''jul'', 7), (''aug'', 8), (''sep'', 9), (''oct'', 10), (''nov'', 11), (''dec'', 12)]"

definition ParseDateDayFixed :: "goint parse" where
  "ParseDateDayFixed =
     p_bind (Matches TokenTypeSP) (\<lambda>ok.
       if ok then
         p_then (Consume TokenTypeDigit ''expected digit after space separated date day'')
           (p_bind PreviousToken (\<lambda>t. p_return (ByteToInt (Value t))))
       else ParseNumberN 2)"

text \<open>The loop over three characters, unrolled.\<close>

definition month_char :: "char parse" where
  "month_char =
     p_then (Consume TokenTypeChar ''unexpected character for date month'')
       (p_bind PreviousToken (\<lambda>t. p_return (Value t)))"

definition ParseDateMonth :: "int parse" where
  "ParseDateMonth =
     p_bind month_char (\<lambda>a. p_bind month_char (\<lambda>b. p_bind month_char (\<lambda>c.
       case dateMonthToInt (ToLower [a, b, c]) of
         Some v \<Rightarrow> p_return v
       | None \<Rightarrow> MakeError (''invalid date month '' @ [CHR 0x27, a, b, c, CHR 0x27]))))"

definition ParseDateYear :: "goint parse" where
  "ParseDateYear = ParseNumberN 4"

definition ParseZone :: "int parse" where
  "ParseZone =
     p_bind (Matches TokenTypePlus) (\<lambda>plus.
       p_bind
         (if plus then p_return 1
          else p_bind (Matches TokenTypeMinus) (\<lambda>minus.
            if minus then p_return (- 1)
            else MakeError (''expected either '' @ quoted_char CHR ''+'' @ '' or '' @ quoted_char CHR ''-''
              @ '' on time zone start'')))
         (\<lambda>multiplier.
           p_bind (ParseNumberN 2) (\<lambda>zoneHour.
             p_bind (ParseNumberN 2) (\<lambda>zoneMinute.
               p_return ((sint zoneHour * 3600 + sint zoneMinute * 60) * multiplier)))))"

definition ParseTime :: "(int \<times> int \<times> int) parse" where
  "ParseTime =
     p_bind (ParseNumberN 2) (\<lambda>hour.
       p_then (Consume TokenTypeColon ''expected colon after hour component'')
         (p_bind (ParseNumberN 2) (\<lambda>min.
           p_then (Consume TokenTypeColon ''expected colon after minute component'')
             (p_bind (ParseNumberN 2) (\<lambda>sec. p_return (sint hour, sint min, sint sec))))))"

definition ParseDateTime :: "Time parse" where
  "ParseDateTime =
     p_then (Consume TokenTypeDQuote (''Expected '' @ quoted_char CHR 0x22 @ '' at start of date time''))
       (p_bind ParseDateDayFixed (\<lambda>dateDay.
         p_then (Consume TokenTypeMinus (''Expected '' @ quoted_char CHR ''-'' @ '' after date day''))
           (p_bind ParseDateMonth (\<lambda>dateMonth.
             p_then (Consume TokenTypeMinus (''Expected '' @ quoted_char CHR ''-'' @ '' after date month''))
               (p_bind ParseDateYear (\<lambda>dateYear.
                 p_then (Consume TokenTypeSP ''Expected space after date year'')
                   (p_bind ParseTime (\<lambda>(timeHour, timeMin, timeSec).
                     p_then (Consume TokenTypeSP ''Expected space after date time'')
                       (p_bind ParseZone (\<lambda>timeZone.
                         p_then (Consume TokenTypeDQuote
                            (''Expected '' @ quoted_char CHR 0x22 @ '' at end of date time''))
                           (p_return \<lparr>tyear = sint dateYear, tmonth = dateMonth, tday = sint dateDay,
                              thour = timeHour, tmin = timeMin, tsec = timeSec,
                              tzone = timeZone\<rparr>)))))))))))"

definition ParseDateText :: "Time parse" where
  "ParseDateText =
     p_bind (ParseNumberN 2) (\<lambda>day.
       p_then (Consume TokenTypeMinus ''expected - after year'')
         (p_bind ParseDateMonth (\<lambda>month.
           p_then (Consume TokenTypeMinus ''expected - after month'')
             (p_bind ParseDateYear (\<lambda>year.
               p_return \<lparr>tyear = sint year, tmonth = month, tday = sint day, thour = 0, tmin = 0,
                 tsec = 0, tzone = 0\<rparr>)))))"

definition ParseDate :: "Time parse" where
  "ParseDate =
     p_bind (Matches TokenTypeDQuote) (\<lambda>hasQuotes.
       p_bind ParseDateText (\<lambda>date.
         if hasQuotes
         then p_then (Consume TokenTypeDQuote (''expected closing '' @ [CHR 0x22])) (p_return date)
         else p_return date))"

section \<open>The contract holds\<close>

lemma pa_case_option [safe_intros]:
  "(x = None \<Longrightarrow> parser_action m) \<Longrightarrow> (\<And>a. x = Some a \<Longrightarrow> parser_action (f a)) \<Longrightarrow>
   parser_action (case x of None \<Rightarrow> m | Some a \<Rightarrow> f a)"
  by (cases x) auto

lemma pa_case_prod [safe_intros]:
  "(\<And>a b. parser_action (f a b)) \<Longrightarrow> parser_action (case x of (a, b) \<Rightarrow> f a b)"
  by (cases x) auto

lemma pa_ParseNZNumber [safe_intros]: "parser_action ParseNZNumber"
  unfolding ParseNZNumber_def by (intro safe_intros)

lemma pa_ParseSeqNumber [safe_intros]: "parser_action ParseSeqNumber"
  unfolding ParseSeqNumber_def by (intro safe_intros)

lemma pa_ParseSeqRange [safe_intros]: "parser_action ParseSeqRange"
  unfolding ParseSeqRange_def by (intro safe_intros)

lemma pa_ParseSeqSet [safe_intros]: "parser_action ParseSeqSet"
  unfolding ParseSeqSet_def by (intro safe_intros) simp

lemma pa_ParseFlag [safe_intros]: "parser_action ParseFlag"
  unfolding ParseFlag_def by (intro safe_intros)

lemma pa_ParseFlagList [safe_intros]: "parser_action ParseFlagList"
  unfolding ParseFlagList_def by (intro safe_intros) simp

lemma pa_TryParseFlagList [safe_intros]: "parser_action TryParseFlagList"
  unfolding TryParseFlagList_def by (intro safe_intros)

lemma pa_ParseMailbox [safe_intros]: "parser_action ParseMailbox"
  unfolding ParseMailbox_def by (intro safe_intros)

lemma pa_ParseNString [safe_intros]: "parser_action ParseNString"
  unfolding ParseNString_def by (intro safe_intros)

lemma pa_month_char [safe_intros]: "parser_action month_char"
  unfolding month_char_def by (intro safe_intros)

lemma pa_ParseDateMonth [safe_intros]: "parser_action ParseDateMonth"
  unfolding ParseDateMonth_def by (intro safe_intros)

lemma pa_ParseDateDayFixed [safe_intros]: "parser_action ParseDateDayFixed"
  unfolding ParseDateDayFixed_def by (intro safe_intros)

lemma pa_ParseDateYear [safe_intros]: "parser_action ParseDateYear"
  unfolding ParseDateYear_def by (intro safe_intros)

lemma pa_ParseZone [safe_intros]: "parser_action ParseZone"
  unfolding ParseZone_def by (intro safe_intros)

lemma pa_ParseTime [safe_intros]: "parser_action ParseTime"
  unfolding ParseTime_def by (intro safe_intros)

lemma pa_ParseDateTime [safe_intros]: "parser_action ParseDateTime"
  unfolding ParseDateTime_def by (intro safe_intros)

lemma pa_ParseDateText [safe_intros]: "parser_action ParseDateText"
  unfolding ParseDateText_def by (intro safe_intros)

lemma pa_ParseDate [safe_intros]: "parser_action ParseDate"
  unfolding ParseDate_def by (intro safe_intros)

section \<open>Results\<close>

lemma yields_case_option [yield_intros]:
  "(x = None \<Longrightarrow> yields Q m) \<Longrightarrow> (\<And>a. x = Some a \<Longrightarrow> yields Q (f a)) \<Longrightarrow>
   yields Q (case x of None \<Rightarrow> m | Some a \<Rightarrow> f a)"
  by (cases x) auto

lemma yields_case_prod [yield_intros]:
  "(\<And>a b. yields Q (f a b)) \<Longrightarrow> yields Q (case x of (a, b) \<Rightarrow> f a b)"
  by (cases x) auto

definition not_recent :: "string \<Rightarrow> bool" where
  "not_recent f \<longleftrightarrow> \<not> EqualFold f (CHR 0x5C # ''Recent'')"

text \<open>A sequence number is \<open>*\<close> or positive; a parsed range has only such bounds.\<close>

definition seqnum_ok :: "SeqNum \<Rightarrow> bool" where
  "seqnum_ok n \<longleftrightarrow> 0 \<le> sint n"

definition seqrange_ok :: "SeqRange \<Rightarrow> bool" where
  "seqrange_ok r \<longleftrightarrow> seqnum_ok (Begin r) \<and> seqnum_ok (End r)"

lemma yields_ParseNZNumber: "yields (\<lambda>n. 0 < sint n) ParseNZNumber"
  unfolding ParseNZNumber_def by (intro yield_intros) simp

lemma yields_ParseSeqNumber: "yields seqnum_ok ParseSeqNumber"
  unfolding ParseSeqNumber_def
  by (intro yield_intros yields_weaken [OF yields_ParseNZNumber])
    (simp_all add: seqnum_ok_def SeqNumValueAsterisk_def)

lemma yields_ParseSeqRange: "yields seqrange_ok ParseSeqRange"
  unfolding ParseSeqRange_def
  by (rule yields_bind [OF yields_ParseSeqNumber])
    (intro yield_intros yields_bind [OF yields_ParseSeqNumber]; simp add: seqrange_ok_def)

lemma yields_ParseSeqSet: "yields (\<lambda>rs. rs \<noteq> [] \<and> (\<forall>r \<in> set rs. seqrange_ok r)) ParseSeqSet"
  unfolding ParseSeqSet_def
proof (rule yields_bind [OF yields_ParseSeqRange])
  fix r
  assume "seqrange_ok r"
  then show "yields (\<lambda>rs. rs \<noteq> [] \<and> (\<forall>r \<in> set rs. seqrange_ok r))
      (sep_loop TokenTypeComma ParseSeqRange [r])"
    by (intro yields_weaken [OF yields_sep_loop [OF yields_ParseSeqRange, where acc = "[r]"]]) auto
qed

lemma backslash_not_atom: "\<not> IsAtomChar (tok_type CHR 0x5C)"
  by (simp add: token_class_defs tok_type_punct(2) [THEN iffD2, OF refl])

lemma lower_byte_backslash: "lower_byte c = CHR 0x5C \<longleftrightarrow> c = CHR 0x5C"
proof
  assume "lower_byte c = CHR 0x5C"
  then have "bval (lower_byte c) = 92" by simp
  then have "bval c = bval CHR 0x5C" by (simp add: lower_byte_val split: if_splits)
  then show "c = CHR 0x5C" by (simp only: of_char_eq_iff)
qed (simp add: lower_byte_def)

lemma yields_ParseFlag: "yields not_recent ParseFlag"
  unfolding ParseFlag_def
proof (intro yield_intros)
  fix flag
  assume "\<not> EqualFold flag ''recent''"
  moreover have "ToLower ''Recent'' = ''recent''" and "ToLower ''recent'' = ''recent''" by code_simp+
  ultimately show "not_recent (CHR 0x5C # flag)"
    unfolding not_recent_def EqualFold_def by (simp del: ToLower_Cons add: ToLower_Cons [of "CHR 0x5C"])
next
  show "yields not_recent ParseAtom"
  proof (rule yields_weaken [OF ParseAtom_atom_chars])
    fix s
    assume s: "s \<noteq> [] \<and> (\<forall>c \<in> set s. IsAtomChar (tok_type c))"
    then obtain c s' where "s = c # s'" "c \<noteq> CHR 0x5C"
      using backslash_not_atom by (cases s) auto
    then show "not_recent s"
      using lower_byte_backslash [of c] by (auto simp: not_recent_def EqualFold_def lower_byte_def)
  qed
qed

lemma yields_flags:
  "yields (\<lambda>fs. \<forall>f \<in> set fs. not_recent f)
     (p_bind ParseFlag (\<lambda>firstFlag. sep_loop TokenTypeSP ParseFlag [firstFlag]))"
proof (rule yields_bind [OF yields_ParseFlag])
  fix f
  assume "not_recent f"
  then show "yields (\<lambda>fs. \<forall>f \<in> set fs. not_recent f) (sep_loop TokenTypeSP ParseFlag [f])"
    by (intro yields_weaken [OF yields_sep_loop [OF yields_ParseFlag, where acc = "[f]"]]) auto
qed

lemma yields_ParseFlagList: "yields (\<lambda>fs. \<forall>f \<in> set fs. not_recent f) ParseFlagList"
  unfolding ParseFlagList_def
  by (intro yield_intros yields_bind [where P = "\<lambda>fs. \<forall>f \<in> set fs. not_recent f"] yields_flags)
    auto

lemma yields_TryParseFlagList: "yields (\<lambda>(fs, ok). \<forall>f \<in> set fs. not_recent f) TryParseFlagList"
  unfolding TryParseFlagList_def
  by (intro yield_intros yields_bind [OF yields_ParseFlagList]) simp_all

lemma yields_ParseMailbox:
  "yields (\<lambda>s. EqualFold (StringValue s) ''INBOX'' \<longrightarrow> StringValue s = ''INBOX'') ParseMailbox"
  unfolding ParseMailbox_def by (intro yield_intros) simp

lemma yields_any_weaken: "yields P m \<Longrightarrow> yields_any m"
  by (rule yields_weaken) simp_all

lemmas [yield_intros] =
  yields_any_weaken [OF yields_ParseNZNumber] yields_any_weaken [OF yields_ParseSeqNumber]
  yields_any_weaken [OF yields_ParseSeqSet] yields_any_weaken [OF yields_ParseFlagList]
  yields_any_weaken [OF yields_TryParseFlagList] yields_any_weaken [OF yields_ParseMailbox]
  yields_any_weaken [OF yields_ParseFlag]

lemma yields_ParseNString [yield_intros]: "yields_any ParseNString"
  unfolding ParseNString_def by (intro yield_intros)

lemma yields_month_char [yield_intros]: "yields_any month_char"
  unfolding month_char_def by (intro yield_intros)

lemma yields_ParseDateMonth: "yields (\<lambda>m. 1 \<le> m \<and> m \<le> 12) ParseDateMonth"
  unfolding ParseDateMonth_def
  by (intro yield_intros) (auto simp: dateMonthToInt_def split: if_splits)

lemmas [yield_intros] = yields_any_weaken [OF yields_ParseDateMonth]

lemma yields_ParseDateText [yield_intros]: "yields_any ParseDateText"
  unfolding ParseDateText_def ParseDateYear_def by (intro yield_intros)

lemma yields_ParseDate [yield_intros]: "yields_any ParseDate"
  unfolding ParseDate_def by (intro yield_intros)

lemma yields_ParseDateTime [yield_intros]: "yields_any ParseDateTime"
  unfolding ParseDateTime_def ParseDateYear_def ParseDateDayFixed_def ParseTime_def ParseZone_def
  by (intro yield_intros)

section \<open>Printing and parsing sequence sets\<close>

definition seq_stops :: "bytes \<Rightarrow> bool" where
  "seq_stops rest \<longleftrightarrow> (case rest of [] \<Rightarrow> True | c # _ \<Rightarrow> \<not> is_digit c \<and> c \<noteq> CHR '':'' \<and> c \<noteq> CHR '','')"

lemma SeqNum_String_pos:
  assumes "0 < sint n"
  shows "SeqNum_String n = show_nat (nat (sint n))"
  using assms by (auto simp: SeqNum_String_def SeqNum_IsAsterisk_def SeqNumValueAsterisk_def show_int_def)

lemma of_nat_nat_sint: "0 < sint n \<Longrightarrow> (of_nat (nat (sint n)) :: goint) = n"
  by (simp add: of_nat_nat)

lemma ParseSeqNumber_at:
  assumes "seqnum_ok n" and "stops (\<lambda>t. t = TokenTypeDigit) rest"
  shows "ParseSeqNumber (parser_at cx (SeqNum_String n @ rest)) =
     (Inr n, parser_at (advs cx (SeqNum_String n) rest) rest)"
proof (cases "n = 0")
  case True
  then show ?thesis
    by (simp add: ParseSeqNumber_def SeqNum_String_def SeqNum_IsAsterisk_def SeqNumValueAsterisk_def
        seq_simps at_simps tok_type_punct)
next
  case False
  with assms(1) have pos: "0 < sint n"
    using sint_0 by (metis order_le_less seqnum_ok_def signed_eq_0_iff)
  let ?ds = "show_nat (nat (sint n))"
  have d: "?ds \<noteq> []" "\<forall>c \<in> set ?ds. is_digit c" using literal_digits by auto
  then obtain d ds where ds: "?ds = d # ds" "is_digit d" by (cases ?ds) auto
  then have "tok_type d \<noteq> TokenTypeAsterisk"
    by (auto simp: tok_type_punct is_digit_def)
  then have "Matches TokenTypeAsterisk (parser_at cx (?ds @ rest)) = (Inr False, parser_at cx (?ds @ rest))"
    by (simp add: ds Matches_at)
  then show ?thesis
    using ParseNumber_at [OF d assms(2), of cx] pos
    by (simp add: ParseSeqNumber_def ParseNZNumber_def seq_simps SeqNum_String_pos
        dec_val_show_nat of_nat_nat_sint)
qed

lemma ParseSeqRange_at:
  assumes "seqrange_ok r" and "seq_stops rest \<or> (\<exists>cs. rest = CHR '','' # cs)"
  shows "ParseSeqRange (parser_at cx (SeqRange_String r @ rest)) =
     (Inr r, parser_at (advs cx (SeqRange_String r) rest) rest)"
proof -
  have s1: "stops (\<lambda>t. t = TokenTypeDigit) (CHR '':'' # SeqNum_String (End r) @ rest)"
    by (simp add: tok_type_classes isByteDigit_def)
  have s2: "stops (\<lambda>t. t = TokenTypeDigit) rest"
    using assms(2) by (cases rest) (auto simp: seq_stops_def tok_type_classes isByteDigit_is_digit is_digit_def)
  from assms(1) ParseSeqNumber_at [OF _ s1] ParseSeqNumber_at [OF _ s2] show ?thesis
    by (simp add: ParseSeqRange_def SeqRange_String_def seqrange_ok_def seq_simps at_simps
        tok_type_punct advs_append)
qed

lemma sep_loop_unfold:
  assumes "parser_action item" and "sep \<noteq> TokenTypeEOF"
  shows "sep_loop sep item acc p =
     (case sep_step sep item acc p of
        (Inl e, p') \<Rightarrow> (Inl e, p')
      | (Inr (Inr a), p') \<Rightarrow> (Inr a, p')
      | (Inr (Inl b'), p') \<Rightarrow> sep_loop sep item b' p')"
  unfolding sep_loop_def
proof (rule p_loop_unfold)
  show "parser_action (sep_step sep item b)" for b
    unfolding sep_step_def by (intro safe_intros assms)
  show "progresses (\<lambda>x. \<exists>b'. x = Inl b') (sep_step sep item b)" for b
    unfolding sep_step_def using assms
    by (intro progresses_Matches) (auto intro!: safe_intros progresses_return)
qed

text \<open>\<open>seq_prints s r\<close>: the text \<open>s\<close> is read as the range \<open>r\<close>, in any position of a sequence set.\<close>

definition seq_prints :: "bytes \<Rightarrow> SeqRange \<Rightarrow> bool" where
  "seq_prints s r \<longleftrightarrow> (\<forall>cx rest. seq_stops rest \<or> (\<exists>cs. rest = CHR '','' # cs) \<longrightarrow>
     ParseSeqRange (parser_at cx (s @ rest)) = (Inr r, parser_at (advs cx s rest) rest))"

lemma seq_printsD:
  "seq_prints s r \<Longrightarrow> seq_stops rest \<or> (\<exists>cs. rest = CHR '','' # cs) \<Longrightarrow>
   ParseSeqRange (parser_at cx (s @ rest)) = (Inr r, parser_at (advs cx s rest) rest)"
  unfolding seq_prints_def by blast

lemma seq_prints_String: "seqrange_ok r \<Longrightarrow> seq_prints (SeqRange_String r) r"
  unfolding seq_prints_def using ParseSeqRange_at by blast

lemma seq_loop_at:
  assumes "list_all2 seq_prints ss rs" and "seq_stops rest"
  shows "\<exists>cx'. sep_loop TokenTypeComma ParseSeqRange acc
      (parser_at cx (concat (map (\<lambda>s. CHR '','' # s) ss) @ rest)) =
     (Inr (acc @ rs), parser_at cx' rest)"
  using assms(1)
proof (induction ss rs arbitrary: acc cx rule: list_all2_induct)
  case Nil
  from assms(2) have "Matches TokenTypeComma (parser_at cx rest) = (Inr False, parser_at cx rest)"
    by (cases rest) (auto simp: Matches_at seq_stops_def tok_type_punct)
  then show ?case
    by (subst sep_loop_unfold [OF pa_ParseSeqRange]) (auto simp: sep_step_def seq_simps)
next
  case (Cons s ss r rs)
  let ?tail = "concat (map (\<lambda>s. CHR '','' # s) ss) @ rest"
  have stop: "seq_stops ?tail \<or> (\<exists>cs. ?tail = CHR '','' # cs)"
    using assms(2) by (cases ss) auto
  have "sep_step TokenTypeComma ParseSeqRange acc (parser_at cx (CHR '','' # s @ ?tail)) =
      (Inr (Inl (acc @ [r])), parser_at (advs cx (CHR '','' # s) ?tail) ?tail)"
    by (simp add: seq_printsD [OF Cons.hyps(1) stop] sep_step_def seq_simps at_simps tok_type_punct)
  with Cons.IH [of "acc @ [r]"] show ?case
    by (subst sep_loop_unfold [OF pa_ParseSeqRange]) simp_all
qed

lemma Join_comma: "Join (s # ss) '','' = s @ concat (map (\<lambda>t. CHR '','' # t) ss)"
  by (induction ss arbitrary: s) auto

lemma ParseSeqSet_at:
  assumes "rs \<noteq> []" and "list_all2 seq_prints ss rs" and "seq_stops rest"
  shows "\<exists>cx'. ParseSeqSet (parser_at cx (Join ss '','' @ rest)) = (Inr rs, parser_at cx' rest)"
proof -
  from assms(1,2) obtain s ss' r rs' where eq: "ss = s # ss'" "rs = r # rs'"
    and p: "seq_prints s r" "list_all2 seq_prints ss' rs'"
    by (cases rs) (auto simp: list_all2_Cons2)
  let ?tail = "concat (map (\<lambda>s. CHR '','' # s) ss') @ rest"
  have stop: "seq_stops ?tail \<or> (\<exists>cs. ?tail = CHR '','' # cs)"
    using assms(3) by (cases ss') auto
  obtain cx' where "sep_loop TokenTypeComma ParseSeqRange [r] (parser_at (advs cx s ?tail) ?tail) =
      (Inr ([r] @ rs'), parser_at cx' rest)"
    using seq_loop_at [OF p(2) assms(3)] by blast
  then show ?thesis
    by (auto simp: ParseSeqSet_def seq_simps eq Join_comma seq_printsD [OF p(1) stop])
qed

text \<open>
  C25: parsing a printed sequence set gives back the sequence set: for a non-empty list of ranges
  whose bounds are \<open>*\<close> or positive 64-bit integers, printed and joined with commas, and followed
  by something that does not continue it, \<open>ParseSeqSet\<close> returns exactly that list.
\<close>

theorem ParseSeqSet_roundtrip:
  assumes "rs \<noteq> []" and "\<forall>r \<in> set rs. seqrange_ok r" and "seq_stops rest"
  shows "\<exists>p'. ParseSeqSet (parser_on cb (Join (map SeqRange_String rs) '','' @ rest)) = (Inr rs, p')
    \<and> rest_of p' = rest"
proof -
  have "list_all2 seq_prints (map SeqRange_String rs) rs"
    using assms(2) by (simp add: list_all2_conv_all_nth seq_prints_String)
  from ParseSeqSet_at [OF assms(1) this assms(3)] show ?thesis
    unfolding parser_on_at by fastforce
qed

theorem ParseSeqSet_roundtrip_witness:
  "\<exists>p'. ParseSeqSet (parser_on None ''1:4,7:* (FLAGS)'') =
      (Inr [\<lparr>Begin = 1, End = 4\<rparr>, \<lparr>Begin = 7, End = 0\<rparr>], p')
    \<and> rest_of p' = '' (FLAGS)''"
proof -
  let ?rs = "[\<lparr>Begin = 1, End = 4\<rparr>, \<lparr>Begin = 7, End = 0\<rparr>] :: SeqRange list"
  have "Join (map SeqRange_String ?rs) '','' = ''1:4,7:*''" by code_simp
  then show ?thesis
    using ParseSeqSet_roundtrip [of ?rs "'' (FLAGS)''" None]
    by (simp add: seqrange_ok_def seqnum_ok_def seq_stops_def is_digit_def)
qed

text \<open>
  a parsed flag is never the system flag Recent, in any case: clients cannot set that flag through a flag
  list.
\<close>

theorem ParseFlagList_not_recent:
  assumes "ParseFlagList (parser_on cb bs) = (Inr flags, p')" and "f \<in> set flags"
  shows "\<not> EqualFold f (CHR 0x5C # ''Recent'')"
  using yieldsD(1) [OF yields_ParseFlagList] assms unfolding parser_on_at not_recent_def by blast

theorem ParseFlagList_not_recent_witness:
  "\<exists>p'. ParseFlagList (parser_on None (''('' @ [CHR 0x5C] @ ''Seen foo)'')) =
      (Inr [CHR 0x5C # ''Seen'', ''foo''], p')
    \<and> \<not> EqualFold (CHR 0x5C # ''Seen'') (CHR 0x5C # ''Recent'')"
proof -
  let ?p = "parser_on None (''('' @ [CHR 0x5C] @ ''Seen foo)'')"
  have "fst (ParseFlagList ?p) = Inr [CHR 0x5C # ''Seen'', ''foo'']" by code_simp
  then obtain p' where "ParseFlagList ?p = (Inr [CHR 0x5C # ''Seen'', ''foo''], p')"
    by (metis prod.collapse)
  with ParseFlagList_not_recent [OF this] show ?thesis by auto
qed

end
