(* ===== verification/Command_Fetch.thy ===== *)
theory Command_Fetch
  imports Command_Syntax
begin

text \<open>
  The FETCH command of \<open>imap/command/fetch.go\<close> and \<open>fetch_attributes.go\<close>: the attributes a client
  can ask for, body sections, partial ranges, and their parsers.
\<close>

section \<open>Attributes\<close>

datatype BodySection =
    BodySectionHeader
  | BodySectionHeaderFields bool "string list"
  | BodySectionText
  | BodySectionMIME
  | BodySectionPart "goint list" "BodySection option"

record BodySectionPartial =
  PartialOffset :: goint
  PartialCount :: goint

datatype FetchAttribute =
    FetchAttributeAll | FetchAttributeFull | FetchAttributeFast | FetchAttributeEnvelope
  | FetchAttributeFlags | FetchAttributeInternalDate | FetchAttributeRFC822Header
  | FetchAttributeRFC822Size | FetchAttributeRFC822 | FetchAttributeRFC822Text
  | FetchAttributeBodyStructure | FetchAttributeBody | FetchAttributeUID
  | FetchAttributeBodySection "BodySection option" bool "BodySectionPartial option"

text \<open>How a \<open>[]string\<close> prints under the verb \<open>%v\<close>.\<close>

definition show_strings :: "string list \<Rightarrow> string" where
  "show_strings ss = ''['' @ Join ss '' '' @ '']''"

fun BodySection_String :: "BodySection \<Rightarrow> string" where
  "BodySection_String BodySectionHeader = ''HEADER''"
| "BodySection_String (BodySectionHeaderFields negate fs) =
     ''HEADER.FIELDS'' @ (if negate then '' NOT '' else '' '') @ show_strings fs"
| "BodySection_String BodySectionText = ''TEXT''"
| "BodySection_String BodySectionMIME = ''MIME''"
| "BodySection_String (BodySectionPart part None) =
     Join (map (\<lambda>v. show_int (sint v)) part) ''.''"
| "BodySection_String (BodySectionPart part (Some section)) =
     Join (map (\<lambda>v. show_int (sint v)) part) ''.'' @ ''.'' @ BodySection_String section"

fun FetchAttribute_String :: "FetchAttribute \<Rightarrow> string" where
  "FetchAttribute_String FetchAttributeAll = ''ALL''"
| "FetchAttribute_String FetchAttributeFull = ''FULL''"
| "FetchAttribute_String FetchAttributeFast = ''FAST''"
| "FetchAttribute_String FetchAttributeEnvelope = ''ENVELOPE''"
| "FetchAttribute_String FetchAttributeFlags = ''FLAGS''"
| "FetchAttribute_String FetchAttributeInternalDate = ''INTERNALDATE''"
| "FetchAttribute_String FetchAttributeRFC822Header = ''RFC822.Header''"
| "FetchAttribute_String FetchAttributeRFC822Size = ''RFC822.Size''"
| "FetchAttribute_String FetchAttributeRFC822 = ''RFC822''"
| "FetchAttribute_String FetchAttributeRFC822Text = ''RFC822.Text''"
| "FetchAttribute_String FetchAttributeBodyStructure = ''BODYSTRUCTURE''"
| "FetchAttribute_String FetchAttributeBody = ''BODY''"
| "FetchAttribute_String FetchAttributeUID = ''UID''"
| "FetchAttribute_String (FetchAttributeBodySection section peek part) =
     ''BODY'' @ (if peek then ''.PEEK'' else '''') @ ''['' @
     (case section of None \<Rightarrow> '''' | Some s \<Rightarrow> BodySection_String s) @ '']''"

section \<open>Parsers\<close>

definition parseHeaderList :: "string list parse" where
  "parseHeaderList =
     p_then (Consume TokenTypeLParen ''expected ( for header list start'')
       (p_bind ParseAString (\<lambda>header.
         p_bind (sep_loop TokenTypeSP (p_map StringValue ParseAString) [StringValue header]) (\<lambda>result.
           p_then (Consume TokenTypeRParen ''expected ) for header list end'') (p_return result))))"

definition collectBodySectionText :: "string parse" where
  "collectBodySectionText =
     p_map (\<lambda>text. ToLower (BytesValue text)) (CollectBytesWhileMatches TokenTypeChar)"

definition parseHeaderFieldsSectionMessageText :: "BodySection parse" where
  "parseHeaderFieldsSectionMessageText =
     p_bind collectBodySectionText (\<lambda>text.
       if text \<noteq> ''fields''
       then MakeError (''expected '' @ [CHR 0x27] @ ''FIELDS'' @ [CHR 0x27] @ '' after '' @ [CHR 0x27]
              @ ''HEADER.'' @ [CHR 0x27])
       else p_bind (Matches TokenTypePeriod) (\<lambda>ok.
         p_bind
           (if ok then p_bind collectBodySectionText (\<lambda>text.
              if text \<noteq> ''not'' then MakeError (''expected '' @ [CHR 0x27] @ ''NOT'' @ [CHR 0x27])
              else p_return True)
            else p_return False)
           (\<lambda>negate.
             p_then (Consume TokenTypeSP ''expected space'')
               (p_bind parseHeaderList (\<lambda>headerList.
                 p_return (BodySectionHeaderFields negate headerList))))))"

definition handleSectionMessageText :: "rfc_String \<Rightarrow> BodySection parse" where
  "handleSectionMessageText text =
     (if StringValue text = ''header'' then
        p_bind (Matches TokenTypePeriod) (\<lambda>ok.
          if \<not> ok then p_return BodySectionHeader else parseHeaderFieldsSectionMessageText)
      else if StringValue text = ''text'' then p_return BodySectionText
      else MakeErrorAtOffset (''unknown section msg text value '' @ [CHR 0x27] @ StringValue text @ [CHR 0x27])
             (StringOffset text))"

definition parseSectionMsgText :: "BodySection parse" where
  "parseSectionMsgText =
     p_bind (CollectBytesWhileMatches TokenTypeChar) (\<lambda>text.
       handleSectionMessageText (String_ToLower (IntoString text)))"

definition parseSectionText :: "BodySection parse" where
  "parseSectionText =
     p_bind (CollectBytesWhileMatches TokenTypeChar) (\<lambda>text.
       let textStr = String_ToLower (IntoString text)
       in if StringValue textStr = ''mime'' then p_return BodySectionMIME
          else handleSectionMessageText textStr)"

text \<open>The loop of \<open>parseSectionPart\<close>: it consumes the period even when no number follows it.\<close>

definition section_part_step :: "goint list \<Rightarrow> (goint list + goint list) parse" where
  "section_part_step result =
     p_bind (Matches TokenTypePeriod) (\<lambda>ok.
       if \<not> ok then p_return (Inr result)
       else p_bind CurrentToken (\<lambda>t.
         if TType t \<noteq> TokenTypeDigit then p_return (Inr result)
         else p_bind ParseNZNumber (\<lambda>num. p_return (Inl (result @ [num])))))"

definition parseSectionPart :: "goint list parse" where
  "parseSectionPart = p_bind ParseNZNumber (\<lambda>num. p_loop section_part_step [num])"

definition parseSectionSpec :: "BodySection parse" where
  "parseSectionSpec =
     p_bind CurrentToken (\<lambda>t.
       if TType t = TokenTypeDigit then
         p_bind parseSectionPart (\<lambda>part.
           p_bind CurrentToken (\<lambda>t.
             if TType t = TokenTypeChar
             then p_bind parseSectionText (\<lambda>text. p_return (BodySectionPart part (Some text)))
             else p_return (BodySectionPart part None)))
       else parseSectionMsgText)"

definition parsePartial :: "BodySectionPartial option parse" where
  "parsePartial =
     p_bind (Matches TokenTypeLess) (\<lambda>ok.
       if \<not> ok then p_return None
       else p_bind ParseNumber (\<lambda>off.
         p_then (Consume TokenTypePeriod (''expected '' @ quoted_char CHR ''.'' @ '' after partial start''))
           (p_bind ParseNZNumber (\<lambda>count.
             p_then (Consume TokenTypeGreater ''expected > for end of partial specification'')
               (p_return (Some \<lparr>PartialOffset = off, PartialCount = count\<rparr>))))))"

definition handleBodyFetchAttribute :: "FetchAttribute parse" where
  "handleBodyFetchAttribute =
     p_bind CurrentToken (\<lambda>t.
       if TType t \<noteq> TokenTypeLBracket \<and> TType t \<noteq> TokenTypePeriod
       then p_return FetchAttributeBody
       else p_bind (Matches TokenTypePeriod) (\<lambda>ok.
         p_bind
           (if ok then p_then (ConsumeBytesFold ''PEEK'') (p_return True) else p_return False)
           (\<lambda>readOnly.
             p_then (Consume TokenTypeLBracket ''expected [ for body section start'')
               (p_bind CurrentToken (\<lambda>t.
                 p_bind
                   (if TType t \<noteq> TokenTypeRBracket then p_map Some parseSectionSpec else p_return None)
                   (\<lambda>section.
                     p_then (Consume TokenTypeRBracket ''expected ] for body section end'')
                       (p_bind parsePartial (\<lambda>part.
                         p_return (FetchAttributeBodySection section readOnly part)))))))))"

definition parseFetchAttributeName :: "rfc_String parse" where
  "parseFetchAttributeName =
     p_map (\<lambda>att. String_ToLower (IntoString att)) (CollectBytesWhileMatches TokenTypeChar)"

definition handleRFC822FetchAttribute :: "FetchAttribute parse" where
  "handleRFC822FetchAttribute =
     p_then (ConsumeBytesFold ''822'')
       (p_bind (Matches TokenTypePeriod) (\<lambda>ok.
         if \<not> ok then p_return FetchAttributeRFC822
         else p_bind parseFetchAttributeName (\<lambda>attribute.
           if StringValue attribute = ''header'' then p_return FetchAttributeRFC822Header
           else if StringValue attribute = ''size'' then p_return FetchAttributeRFC822Size
           else if StringValue attribute = ''text'' then p_return FetchAttributeRFC822Text
           else MakeErrorAtOffset
             (''unknown fetch attribute '' @ [CHR 0x27] @ ''RFC822.'' @ StringValue attribute)
             (StringOffset attribute))))"

definition handleFetchAttribute :: "rfc_String \<Rightarrow> FetchAttribute parse" where
  "handleFetchAttribute name =
     (if StringValue name = ''envelope'' then p_return FetchAttributeEnvelope
      else if StringValue name = ''flags'' then p_return FetchAttributeFlags
      else if StringValue name = ''internaldate'' then p_return FetchAttributeInternalDate
      else if StringValue name = ''bodystructure'' then p_return FetchAttributeBodyStructure
      else if StringValue name = ''uid'' then p_return FetchAttributeUID
      else if StringValue name = ''rfc'' then handleRFC822FetchAttribute
      else if StringValue name = ''body'' then handleBodyFetchAttribute
      else MakeErrorAtOffset
        (''unknown fetch attribute '' @ [CHR 0x27] @ StringValue name @ [CHR 0x27]) (StringOffset name))"

definition parseFetchAttribute :: "FetchAttribute parse" where
  "parseFetchAttribute = p_bind parseFetchAttributeName handleFetchAttribute"

definition parseFetchAttributes :: "FetchAttribute list parse" where
  "parseFetchAttributes =
     p_then (Consume TokenTypeLParen ''expected ( for fetch attribute list start'')
       (p_bind parseFetchAttribute (\<lambda>attribute.
         p_bind (sep_loop TokenTypeSP parseFetchAttribute [attribute]) (\<lambda>attributes.
           p_then (Consume TokenTypeRParen ''expected ) for fetch attribute list end'')
             (p_return attributes))))"

definition FetchCommandParser :: "(SeqRange list \<times> FetchAttribute list) parse" where
  "FetchCommandParser =
     p_then (Consume TokenTypeSP ''expected space after command'')
       (p_bind ParseSeqSet (\<lambda>seqSet.
         p_then (Consume TokenTypeSP ''expected space after sequence set'')
           (p_bind CurrentToken (\<lambda>t.
             p_bind
               (if TType t = TokenTypeLParen then parseFetchAttributes
                else p_bind parseFetchAttributeName (\<lambda>attribute.
                  if StringValue attribute = ''all'' then p_return [FetchAttributeAll]
                  else if StringValue attribute = ''full'' then p_return [FetchAttributeFull]
                  else if StringValue attribute = ''fast'' then p_return [FetchAttributeFast]
                  else p_bind (handleFetchAttribute attribute) (\<lambda>attr. p_return [attr])))
               (\<lambda>attributes. p_return (seqSet, attributes))))))"

section \<open>The contract holds\<close>

lemma pa_Let [safe_intros]: "(\<And>a. parser_action (f a)) \<Longrightarrow> parser_action (Let x f)"
  by (simp add: Let_def)

lemma yields_Let [yield_intros]: "(\<And>a. yields Q (f a)) \<Longrightarrow> yields Q (Let x f)"
  by (simp add: Let_def)

lemma pa_parseHeaderList [safe_intros]: "parser_action parseHeaderList"
  unfolding parseHeaderList_def by (intro safe_intros) simp

lemma pa_collectBodySectionText [safe_intros]: "parser_action collectBodySectionText"
  unfolding collectBodySectionText_def by (intro safe_intros) simp

lemma pa_handleSectionMessageText [safe_intros]: "parser_action (handleSectionMessageText text)"
  unfolding handleSectionMessageText_def parseHeaderFieldsSectionMessageText_def
  by (intro safe_intros)

lemma pa_parseSectionPart [safe_intros]: "parser_action parseSectionPart"
  unfolding parseSectionPart_def section_part_step_def
  by (intro safe_intros progresses_Matches progresses_bind_second progresses_if) 
    (auto intro!: progresses_return safe_intros)

lemma pa_parseSectionSpec [safe_intros]: "parser_action parseSectionSpec"
  unfolding parseSectionSpec_def parseSectionText_def parseSectionMsgText_def
  by (intro safe_intros) simp_all

lemma pa_handleBodyFetchAttribute [safe_intros]: "parser_action handleBodyFetchAttribute"
  unfolding handleBodyFetchAttribute_def parsePartial_def by (intro safe_intros)

lemma pa_parseFetchAttributeName [safe_intros]: "parser_action parseFetchAttributeName"
  unfolding parseFetchAttributeName_def by (intro safe_intros) simp

lemma pa_handleFetchAttribute [safe_intros]: "parser_action (handleFetchAttribute name)"
  unfolding handleFetchAttribute_def handleRFC822FetchAttribute_def by (intro safe_intros)

lemma pa_parseFetchAttributes [safe_intros]: "parser_action parseFetchAttributes"
  unfolding parseFetchAttributes_def parseFetchAttribute_def by (intro safe_intros) simp

lemma pa_FetchCommandParser [safe_intros]: "parser_action FetchCommandParser"
  unfolding FetchCommandParser_def by (intro safe_intros)

section \<open>Results\<close>

text \<open>
  What the parser guarantees of a FETCH attribute: section part numbers and the count of a partial
  range are positive. The offset of a partial range is any 64-bit value.
\<close>

fun section_ok :: "BodySection \<Rightarrow> bool" where
  "section_ok (BodySectionPart part sub) \<longleftrightarrow>
     part \<noteq> [] \<and> (\<forall>n \<in> set part. 0 < sint n) \<and> (case sub of None \<Rightarrow> True | Some s \<Rightarrow> section_ok s)"
| "section_ok (BodySectionHeaderFields negate fs) \<longleftrightarrow> fs \<noteq> []"
| "section_ok _ \<longleftrightarrow> True"

fun attribute_ok :: "FetchAttribute \<Rightarrow> bool" where
  "attribute_ok (FetchAttributeBodySection section peek part) \<longleftrightarrow>
     (case section of None \<Rightarrow> True | Some s \<Rightarrow> section_ok s)
     \<and> (case part of None \<Rightarrow> True | Some p \<Rightarrow> 0 < sint (PartialCount p))"
| "attribute_ok _ \<longleftrightarrow> True"

lemma yields_parseHeaderList: "yields (\<lambda>hs. hs \<noteq> []) parseHeaderList"
proof -
  have "yields (\<lambda>hs. hs \<noteq> []) (sep_loop TokenTypeSP (p_map StringValue ParseAString) [h])" for h
    by (rule yields_weaken [OF yields_sep_loop [where P = "\<lambda>_. True"]]) (auto intro: yield_intros)
  then show ?thesis
    unfolding parseHeaderList_def
    by (intro yields_then yields_Consume yields_bind_any [OF yields_ParseAString]
        yields_bind [where P = "\<lambda>hs. hs \<noteq> []"] yields_return)
qed

lemma yields_collectBodySectionText [yield_intros]: "yields_any collectBodySectionText"
  unfolding collectBodySectionText_def by (intro yield_intros)

lemma yields_parseFetchAttributeName [yield_intros]: "yields_any parseFetchAttributeName"
  unfolding parseFetchAttributeName_def by (intro yield_intros)

lemma yields_handleSectionMessageText: "yields section_ok (handleSectionMessageText text)"
  unfolding handleSectionMessageText_def parseHeaderFieldsSectionMessageText_def
  by (intro yield_intros yields_bind [OF yields_parseHeaderList]) simp_all

lemma yields_parseSectionPart: "yields (\<lambda>ns. ns \<noteq> [] \<and> (\<forall>n \<in> set ns. 0 < sint n)) parseSectionPart"
  unfolding parseSectionPart_def
proof (rule yields_bind [OF yields_ParseNZNumber])
  fix n :: goint
  assume "0 < sint n"
  then show "yields (\<lambda>ns. ns \<noteq> [] \<and> (\<forall>n \<in> set ns. 0 < sint n)) (p_loop section_part_step [n])"
    unfolding section_part_step_def
    by (intro yields_loop [where I = "\<lambda>ns. ns \<noteq> [] \<and> (\<forall>n \<in> set ns. 0 < sint n)"] yield_intros
        yields_bind [OF yields_ParseNZNumber]) auto
qed

lemma yields_parseSectionSpec: "yields section_ok parseSectionSpec"
  unfolding parseSectionSpec_def parseSectionText_def parseSectionMsgText_def
  by (intro yield_intros yields_handleSectionMessageText yields_bind [OF yields_parseSectionPart]
      yields_bind [where P = section_ok]) simp_all

lemma yields_parsePartial:
  "yields (\<lambda>p. case p of None \<Rightarrow> True | Some p \<Rightarrow> 0 < sint (PartialCount p)) parsePartial"
  unfolding parsePartial_def by (intro yield_intros yields_bind [OF yields_ParseNZNumber]) simp_all

lemma yields_handleBodyFetchAttribute: "yields attribute_ok handleBodyFetchAttribute"
  unfolding handleBodyFetchAttribute_def
  by (intro yield_intros
      yields_bind [where P = "\<lambda>s. case s of None \<Rightarrow> True | Some s \<Rightarrow> section_ok s"]
      yields_bind [OF yields_parsePartial] yields_map [OF yields_parseSectionSpec]) simp_all

lemma yields_handleFetchAttribute: "yields attribute_ok (handleFetchAttribute name)"
  unfolding handleFetchAttribute_def handleRFC822FetchAttribute_def
  by (intro yield_intros yields_handleBodyFetchAttribute) simp_all

lemma yields_parseFetchAttributes:
  "yields (\<lambda>as. as \<noteq> [] \<and> (\<forall>a \<in> set as. attribute_ok a)) parseFetchAttributes"
proof -
  have item: "yields attribute_ok parseFetchAttribute"
    unfolding parseFetchAttribute_def by (intro yield_intros yields_handleFetchAttribute)
  have loop: "yields (\<lambda>as. as \<noteq> [] \<and> (\<forall>a \<in> set as. attribute_ok a))
      (sep_loop TokenTypeSP parseFetchAttribute [a])" if "attribute_ok a" for a
    using that by (intro yields_weaken [OF yields_sep_loop [OF item, where acc = "[a]"]]) auto
  show ?thesis
    unfolding parseFetchAttributes_def
    by (intro yields_then yield_intros yields_bind [OF item] yields_bind [OF loop]) auto
qed

lemma yields_FetchCommandParser:
  "yields (\<lambda>(ss, as). ss \<noteq> [] \<and> (\<forall>r \<in> set ss. seqrange_ok r) \<and> as \<noteq> []
     \<and> (\<forall>a \<in> set as. attribute_ok a)) FetchCommandParser"
  unfolding FetchCommandParser_def
  by (intro yields_then yields_Consume yields_bind [OF yields_ParseSeqSet]
      yields_bind_any [OF yields_CurrentToken]
      yields_bind [where P = "\<lambda>as. as \<noteq> [] \<and> (\<forall>a \<in> set as. attribute_ok a)"]
      yields_parseFetchAttributes yields_if yields_return
      yields_bind_any [OF yields_parseFetchAttributeName]
      yields_bind [OF yields_handleFetchAttribute]) auto

text \<open>
  C26: a FETCH command that parses has a non-empty sequence set of \<open>*\<close> and positive numbers, at
  least one attribute, positive section part numbers, non-empty header lists, and a positive count
  in every partial range.
\<close>

theorem FetchCommandParser_result:
  assumes "FetchCommandParser (parser_on cb bs) = (Inr (seqSet, attributes), p')"
  shows "seqSet \<noteq> [] \<and> (\<forall>r \<in> set seqSet. seqrange_ok r)
    \<and> attributes \<noteq> [] \<and> (\<forall>a \<in> set attributes. attribute_ok a)"
  using yieldsD(1) [OF yields_FetchCommandParser assms [unfolded parser_on_at]] by simp

theorem FetchCommandParser_result_witness:
  "\<exists>ss as p'. FetchCommandParser (parser_on None '' 2:* (FLAGS BODY.PEEK[1.2]<0.100>)'') = (Inr (ss, as), p')
    \<and> ss \<noteq> [] \<and> as = [FetchAttributeFlags,
        FetchAttributeBodySection (Some (BodySectionPart [1, 2] None)) True
          (Some \<lparr>PartialOffset = 0, PartialCount = 100\<rparr>)]
    \<and> (\<forall>a \<in> set as. attribute_ok a)"
proof -
  let ?p = "parser_on None '' 2:* (FLAGS BODY.PEEK[1.2]<0.100>)''"
  let ?as = "[FetchAttributeFlags, FetchAttributeBodySection (Some (BodySectionPart [1, 2] None)) True
          (Some \<lparr>PartialOffset = 0, PartialCount = 100\<rparr>)]"
  have "fst (FetchCommandParser ?p) = Inr ([\<lparr>Begin = 2, End = 0\<rparr>], ?as)" by code_simp
  then obtain p' where p': "FetchCommandParser ?p = (Inr ([\<lparr>Begin = 2, End = 0\<rparr>], ?as), p')"
    by (metis prod.collapse)
  with FetchCommandParser_result [OF p'] show ?thesis by blast
qed

end
