(* ===== verification/Command_Search.thy ===== *)
theory Command_Search
  imports Command_Syntax
begin

text \<open>
  The SEARCH command of \<open>imap/command/search.go\<close> and the search keys of \<open>search_keys.go\<close>. Search
  keys nest without bound, so the parser \<open>parseSearchKey\<close> takes fuel: the number of tokens left is
  always enough, since every nested key comes after a token that has been consumed.
\<close>

section \<open>Search keys\<close>

datatype (plugins only: code size) SearchKey =
    SearchKeyAll | SearchKeyAnswered | SearchKeyBCC string | SearchKeyBefore Time
  | SearchKeyBody string | SearchKeyCC string | SearchKeyDeleted | SearchKeyFlagged
  | SearchKeyFrom string | SearchKeyKeyword string | SearchKeyNew | SearchKeyOld
  | SearchKeyOn Time | SearchKeyRecent | SearchKeySeen | SearchKeySince Time
  | SearchKeySubject string | SearchKeyText string | SearchKeyTo string
  | SearchKeyUnanswered | SearchKeyUndeleted | SearchKeyUnflagged | SearchKeyUnkeyword string
  | SearchKeyUnseen | SearchKeyDraft | SearchKeyHeader string string | SearchKeyLarger goint
  | SearchKeyNot SearchKey | SearchKeyOr SearchKey SearchKey | SearchKeySentBefore Time
  | SearchKeySentOn Time | SearchKeySentSince Time | SearchKeySmaller goint
  | SearchKeyUID "SeqRange list" | SearchKeyUndraft | SearchKeyList "SearchKey list"
  | SearchKeySeqSet "SeqRange list"

text \<open>How a \<open>[]SeqRange\<close> prints under the verb \<open>%v\<close>.\<close>

definition show_seqset :: "SeqRange list \<Rightarrow> string" where
  "show_seqset rs = ''['' @ Join (map SeqRange_String rs) '' '' @ '']''"

text \<open>
  The \<open>SanitizedString\<close> methods, what reaches the log. \<open>sanitizeString\<close> (a base64 encoded SHA-256
  hash, from the standard library) is the argument \<open>san\<close>.
\<close>

fun SearchKey_SanitizedString :: "(string \<Rightarrow> string) \<Rightarrow> SearchKey \<Rightarrow> string" where
  "SearchKey_SanitizedString san SearchKeyAll = ''ALL''"
| "SearchKey_SanitizedString san SearchKeyAnswered = ''ANSWERED''"
| "SearchKey_SanitizedString san (SearchKeyBCC v) = ''BCC '' @ san v"
| "SearchKey_SanitizedString san (SearchKeyBefore d) = ''BEFORE <DATE>''"
| "SearchKey_SanitizedString san (SearchKeyBody v) = ''BODY '' @ san v"
| "SearchKey_SanitizedString san (SearchKeyCC v) = ''CC '' @ san v"
| "SearchKey_SanitizedString san SearchKeyDeleted = ''DELETED''"
| "SearchKey_SanitizedString san SearchKeyFlagged = ''Flagged''"
| "SearchKey_SanitizedString san (SearchKeyFrom v) = ''FROM '' @ san v"
| "SearchKey_SanitizedString san (SearchKeyKeyword v) = ''KEYWORD '' @ san v"
| "SearchKey_SanitizedString san SearchKeyNew = ''NEW''"
| "SearchKey_SanitizedString san SearchKeyOld = ''NEW''"
| "SearchKey_SanitizedString san (SearchKeyOn d) = ''ON <DATE>''"
| "SearchKey_SanitizedString san SearchKeyRecent = ''RECENT''"
| "SearchKey_SanitizedString san SearchKeySeen = ''SEEN''"
| "SearchKey_SanitizedString san (SearchKeySince d) = ''SINCE <DATE>''"
| "SearchKey_SanitizedString san (SearchKeySubject v) = ''SUBJECT '' @ san v"
| "SearchKey_SanitizedString san (SearchKeyText v) = ''TEXT '' @ san v"
| "SearchKey_SanitizedString san (SearchKeyTo v) = ''TO '' @ san v"
| "SearchKey_SanitizedString san SearchKeyUnanswered = ''UNANSWERED''"
| "SearchKey_SanitizedString san SearchKeyUndeleted = ''UNDELETED''"
| "SearchKey_SanitizedString san SearchKeyUnflagged = ''UNFLAGGED''"
| "SearchKey_SanitizedString san (SearchKeyUnkeyword v) = ''UNKEYWORD '' @ san v"
| "SearchKey_SanitizedString san SearchKeyUnseen = ''UNSEEN''"
| "SearchKey_SanitizedString san SearchKeyDraft = ''DRAFT''"
| "SearchKey_SanitizedString san (SearchKeyHeader f v) = ''HEADER '' @ f @ '' '' @ san v"
| "SearchKey_SanitizedString san (SearchKeyLarger n) = ''LARGER '' @ show_int (sint n)"
| "SearchKey_SanitizedString san (SearchKeyNot k) =
     ''NOT ('' @ SearchKey_SanitizedString san k @ '')''"
| "SearchKey_SanitizedString san (SearchKeyOr k1 k2) =
     ''NOT (('' @ SearchKey_SanitizedString san k1 @ '') ('' @ SearchKey_SanitizedString san k2 @ ''))''"
| "SearchKey_SanitizedString san (SearchKeySentBefore d) = ''SENTBEFORE <DATE>''"
| "SearchKey_SanitizedString san (SearchKeySentOn d) = ''SENTON <DATE>''"
| "SearchKey_SanitizedString san (SearchKeySentSince d) = ''SENTSINCE <DATE>''"
| "SearchKey_SanitizedString san (SearchKeySmaller n) = ''SMALLER '' @ show_int (sint n)"
| "SearchKey_SanitizedString san (SearchKeyUID rs) = ''UID '' @ show_seqset rs"
| "SearchKey_SanitizedString san SearchKeyUndraft = ''UNDRAFT''"
| "SearchKey_SanitizedString san (SearchKeyList ks) =
     ''('' @ Join (map (SearchKey_SanitizedString san) ks) '''' @ '')''"
| "SearchKey_SanitizedString san (SearchKeySeqSet rs) = show_seqset rs"

section \<open>Parsers\<close>

definition parseStringKeyAString :: "string parse" where
  "parseStringKeyAString =
     p_then (Consume TokenTypeSP ''expected space'') (p_map StringValue ParseAString)"

definition parseStringKeyNumber :: "goint parse" where
  "parseStringKeyNumber = p_then (Consume TokenTypeSP ''expected space'') ParseNumber"

definition parseStringKeyDate :: "Time parse" where
  "parseStringKeyDate = p_then (Consume TokenTypeSP ''expected space'') ParseDate"

definition parseStringKeyAtom :: "string parse" where
  "parseStringKeyAtom = p_then (Consume TokenTypeSP ''expected space'') ParseAtom"

definition readSearchKeyword :: "rfc_String parse" where
  "readSearchKeyword =
     p_map (\<lambda>k. String_ToLower (IntoString k)) (CollectBytesWhileMatches TokenTypeChar)"

text \<open>
  The functions of \<open>search.go\<close> call each other; \<open>rec\<close> is \<open>parseSearchKey\<close> in what follows.
\<close>

definition parseSearchKeyList :: "SearchKey parse \<Rightarrow> SearchKey parse" where
  "parseSearchKeyList rec =
     p_bind rec (\<lambda>firstKey.
       p_bind (sep_loop TokenTypeSP rec [firstKey]) (\<lambda>searchKeys.
         p_then (Consume TokenTypeRParen ''expected ) for search key list end'')
           (p_return (SearchKeyList searchKeys))))"

definition handleSearchKey :: "SearchKey parse \<Rightarrow> rfc_String \<Rightarrow> SearchKey parse" where
  "handleSearchKey rec keyword =
     (let k = StringValue keyword in
      if k = ''all'' then p_return SearchKeyAll
      else if k = ''answered'' then p_return SearchKeyAnswered
      else if k = ''bcc'' then p_map SearchKeyBCC parseStringKeyAString
      else if k = ''before'' then p_map SearchKeyBefore parseStringKeyDate
      else if k = ''on'' then p_map SearchKeyOn parseStringKeyDate
      else if k = ''body'' then p_map SearchKeyBody parseStringKeyAString
      else if k = ''cc'' then p_map SearchKeyCC parseStringKeyAString
      else if k = ''deleted'' then p_return SearchKeyDeleted
      else if k = ''flagged'' then p_return SearchKeyFlagged
      else if k = ''from'' then p_map SearchKeyFrom parseStringKeyAString
      else if k = ''keyword'' then p_map SearchKeyKeyword parseStringKeyAtom
      else if k = ''new'' then p_return SearchKeyNew
      else if k = ''old'' then p_return SearchKeyOld
      else if k = ''recent'' then p_return SearchKeyRecent
      else if k = ''seen'' then p_return SearchKeySeen
      else if k = ''since'' then p_map SearchKeySince parseStringKeyDate
      else if k = ''subject'' then p_map SearchKeySubject parseStringKeyAString
      else if k = ''text'' then p_map SearchKeyText parseStringKeyAString
      else if k = ''to'' then p_map SearchKeyTo parseStringKeyAString
      else if k = ''unanswered'' then p_return SearchKeyUnanswered
      else if k = ''undeleted'' then p_return SearchKeyUndeleted
      else if k = ''unflagged'' then p_return SearchKeyUnflagged
      else if k = ''unkeyword'' then p_map SearchKeyUnkeyword parseStringKeyAtom
      else if k = ''unseen'' then p_return SearchKeyUnseen
      else if k = ''draft'' then p_return SearchKeyDraft
      else if k = ''header'' then
        p_bind parseStringKeyAString (\<lambda>field.
          p_bind parseStringKeyAString (\<lambda>value. p_return (SearchKeyHeader field value)))
      else if k = ''larger'' then p_map SearchKeyLarger parseStringKeyNumber
      else if k = ''not'' then
        p_then (Consume TokenTypeSP ''expected space after NOT'') (p_map SearchKeyNot rec)
      else if k = ''or'' then
        p_then (Consume TokenTypeSP ''expected space after OR'')
          (p_bind rec (\<lambda>key1.
            p_then (Consume TokenTypeSP ''expected space after first OR key'')
              (p_bind rec (\<lambda>key2. p_return (SearchKeyOr key1 key2)))))
      else if k = ''sentbefore'' then p_map SearchKeySentBefore parseStringKeyDate
      else if k = ''senton'' then p_map SearchKeySentOn parseStringKeyDate
      else if k = ''sentsince'' then p_map SearchKeySentSince parseStringKeyDate
      else if k = ''smaller'' then p_map SearchKeySmaller parseStringKeyNumber
      else if k = ''uid'' then
        p_then (Consume TokenTypeSP ''expected space'') (p_map SearchKeyUID ParseSeqSet)
      else if k = ''undraft'' then p_return SearchKeyUndraft
      else MakeErrorAtOffset (''unknown search key '' @ [CHR 0x27] @ k @ [CHR 0x27]) (StringOffset keyword))"

fun parseSearchKey :: "nat \<Rightarrow> SearchKey parse" where
  "parseSearchKey 0 = p_fail Diverges"
| "parseSearchKey (Suc fuel) =
     p_bind (Matches TokenTypeLParen) (\<lambda>ok.
       if ok then parseSearchKeyList (parseSearchKey fuel)
       else p_bind CurrentToken (\<lambda>t.
         if TType t = TokenTypeDigit \<or> TType t = TokenTypeAsterisk
         then p_map SearchKeySeqSet ParseSeqSet
         else p_bind readSearchKeyword (handleSearchKey (parseSearchKey fuel))))"

text \<open>\<open>parseSearchKey\<close> with one unit of fuel more than there are tokens left.\<close>

definition search_key :: "SearchKey parse" where
  "search_key p = parseSearchKey (Suc (remaining p)) p"

text \<open>The first key of a SEARCH command, or its charset: \<open>Inl\<close> the charset, \<open>Inr\<close> the key.\<close>

definition search_first :: "(string + SearchKey) parse" where
  "search_first =
     p_bind (Matches TokenTypeChar) (\<lambda>ok.
       if ok then
         p_bind PreviousToken (\<lambda>prev.
           if ByteToLower (Value prev) = CHR ''c'' then
             p_bind CurrentToken (\<lambda>cur.
               if ByteToLower (Value cur) = CHR ''c'' then
                 p_then (Consume TokenTypeChar ''expected char'')
                   (p_map Inr (handleSearchKey search_key
                      \<lparr>StringValue = ''cc'', StringOffset = Offset prev\<rparr>))
               else
                 p_then (ConsumeBytesFold ''HARSET'')
                   (p_then (Consume TokenTypeSP ''expected space after charset'')
                     (p_map (\<lambda>encoding. Inl (StringValue encoding)) ParseAString)))
           else
             p_bind (CollectBytesWhileMatches TokenTypeChar) (\<lambda>keyword.
               p_map Inr (handleSearchKey search_key
                 \<lparr>StringValue = ToLower (Value prev # BytesValue keyword), StringOffset = Offset prev\<rparr>)))
       else p_map Inr search_key)"

definition SearchCommandParser :: "(string \<times> SearchKey list) parse" where
  "SearchCommandParser =
     p_then (Consume TokenTypeSP ''expected space after command'')
       (p_bind search_first (\<lambda>first.
         p_bind (sep_loop TokenTypeSP search_key (case first of Inl _ \<Rightarrow> [] | Inr key \<Rightarrow> [key])) (\<lambda>keys.
           if keys = [] then MakeError ''no search keys specified''
           else p_return ((case first of Inl charset \<Rightarrow> charset | Inr _ \<Rightarrow> ''''), keys))))"

section \<open>The contract holds\<close>

text \<open>\<open>m\<close> never moves backwards, and does not diverge when fewer than \<open>n\<close> tokens are left.\<close>

definition safe_upto :: "nat \<Rightarrow> 'a parse \<Rightarrow> bool" where
  "safe_upto n m \<longleftrightarrow>
     (\<forall>p. remaining (snd (m p)) \<le> remaining p \<and> (remaining p < n \<longrightarrow> fst (m p) \<noteq> Inl Diverges))"

lemma su_action: "parser_action m \<Longrightarrow> safe_upto n m"
  by (simp add: safe_upto_def parser_action_def)

lemma su_bind:
  assumes "safe_upto n m" and "\<And>a. safe_upto n (f a)"
  shows "safe_upto n (p_bind m f)"
  unfolding safe_upto_def
proof
  fix p
  obtain r p1 where m: "m p = (r, p1)" by (cases "m p")
  have 1: "remaining p1 \<le> remaining p" "remaining p < n \<longrightarrow> r \<noteq> Inl Diverges"
    using assms(1) m unfolding safe_upto_def by (metis fst_conv snd_conv)+
  show "remaining (snd (p_bind m f p)) \<le> remaining p
      \<and> (remaining p < n \<longrightarrow> fst (p_bind m f p) \<noteq> Inl Diverges)"
  proof (cases r)
    case (Inl e)
    with m 1 show ?thesis by (simp add: p_bind_def)
  next
    case (Inr a)
    from assms(2) [of a] have "remaining (snd (f a p1)) \<le> remaining p1
        \<and> (remaining p1 < n \<longrightarrow> fst (f a p1) \<noteq> Inl Diverges)"
      unfolding safe_upto_def by blast
    with m Inr 1 show ?thesis by (auto simp: p_bind_def)
  qed
qed

lemma su_bind_consumes:
  assumes "parser_action m" and "consumes m" and "\<And>a. safe_upto n (f a)"
  shows "safe_upto (Suc n) (p_bind m f)"
  unfolding safe_upto_def
proof
  fix p
  obtain r p1 where m: "m p = (r, p1)" by (cases "m p")
  have 1: "remaining p1 \<le> remaining p" "r \<noteq> Inl Diverges"
    using assms(1) m unfolding parser_action_def by (metis fst_conv snd_conv)+
  show "remaining (snd (p_bind m f p)) \<le> remaining p
      \<and> (remaining p < Suc n \<longrightarrow> fst (p_bind m f p) \<noteq> Inl Diverges)"
  proof (cases r)
    case (Inl e)
    with m 1 show ?thesis by (simp add: p_bind_def)
  next
    case (Inr a)
    have "remaining p1 < remaining p" using assms(2) m Inr by (auto dest: progressesD)
    moreover from assms(3) [of a] have "remaining (snd (f a p1)) \<le> remaining p1
        \<and> (remaining p1 < n \<longrightarrow> fst (f a p1) \<noteq> Inl Diverges)"
      unfolding safe_upto_def by blast
    ultimately show ?thesis using m Inr by (auto simp: p_bind_def)
  qed
qed

lemma su_mono: "safe_upto m k \<Longrightarrow> n \<le> m \<Longrightarrow> safe_upto n k"
  unfolding safe_upto_def by (meson order_less_le_trans)

lemma su_if: "(b \<Longrightarrow> safe_upto n m) \<Longrightarrow> (\<not> b \<Longrightarrow> safe_upto n m') \<Longrightarrow> safe_upto n (if b then m else m')"
  by simp

lemma su_map: "safe_upto n m \<Longrightarrow> safe_upto n (p_map f m)"
  unfolding p_map_def by (rule su_bind) (auto intro: su_action pa_return)

lemma su_then: "safe_upto n m \<Longrightarrow> safe_upto n k \<Longrightarrow> safe_upto n (p_then m k)"
  unfolding p_then_def by (rule su_bind)

lemma su_then_consumes:
  "parser_action m \<Longrightarrow> consumes m \<Longrightarrow> safe_upto n k \<Longrightarrow> safe_upto (Suc n) (p_then m k)"
  unfolding p_then_def by (rule su_bind_consumes)

lemma su_Matches:
  assumes "t \<noteq> TokenTypeEOF" and "safe_upto n (k True)" and "safe_upto (Suc n) (k False)"
  shows "safe_upto (Suc n) (p_bind (Matches t) k)"
  unfolding safe_upto_def
proof
  fix p
  show "remaining (snd (p_bind (Matches t) k p)) \<le> remaining p
      \<and> (remaining p < Suc n \<longrightarrow> fst (p_bind (Matches t) k p) \<noteq> Inl Diverges)"
  proof (cases "TType (currentToken p) = t")
    case True
    then have "remaining (snd (Advance p)) < remaining p" using assms(1) remaining_Advance(2) by blast
    moreover have "remaining (snd (k True (snd (Advance p)))) \<le> remaining (snd (Advance p))
        \<and> (remaining (snd (Advance p)) < n \<longrightarrow> fst (k True (snd (Advance p))) \<noteq> Inl Diverges)"
      using assms(2) unfolding safe_upto_def by blast
    ultimately show ?thesis using True by (simp add: p_bind_def Matches_def MatchesWith_eq)
  next
    case False
    have "remaining (snd (k False p)) \<le> remaining p
        \<and> (remaining p < Suc n \<longrightarrow> fst (k False p) \<noteq> Inl Diverges)"
      using assms(3) unfolding safe_upto_def by blast
    with False show ?thesis by (simp add: p_bind_def Matches_def MatchesWith_eq)
  qed
qed

lemma sep_step_remaining:
  assumes "safe_upto n item" and "sep \<noteq> TokenTypeEOF" and "sep_step sep item acc p = (r, p1)"
  shows "remaining p1 \<le> remaining p" and "remaining p \<le> n \<Longrightarrow> r \<noteq> Inl Diverges"
    and "r = Inr (Inl acc') \<Longrightarrow> remaining p1 < remaining p"
proof -
  have "remaining p1 \<le> remaining p \<and> (remaining p \<le> n \<longrightarrow> r \<noteq> Inl Diverges)
      \<and> (r = Inr (Inl acc') \<longrightarrow> remaining p1 < remaining p)"
  proof (cases "TType (currentToken p) = sep")
    case True
    let ?p = "snd (Advance p)"
    from True assms(2) have less: "remaining ?p < remaining p" using remaining_Advance(2) by blast
    obtain q p2 where item: "item ?p = (q, p2)" by (cases "item ?p")
    then have "remaining p2 \<le> remaining ?p" "remaining ?p < n \<longrightarrow> q \<noteq> Inl Diverges"
      using assms(1) unfolding safe_upto_def by (metis fst_conv snd_conv)+
    with True assms(3) item less show ?thesis
      by (cases q) (auto simp: sep_step_def p_bind_def p_return_def Matches_def MatchesWith_eq)
  next
    case False
    with assms(3) show ?thesis
      by (auto simp: sep_step_def p_bind_def p_return_def Matches_def MatchesWith_eq)
  qed
  then show "remaining p1 \<le> remaining p" and "remaining p \<le> n \<Longrightarrow> r \<noteq> Inl Diverges"
    and "r = Inr (Inl acc') \<Longrightarrow> remaining p1 < remaining p" by blast+
qed

lemma su_sep_iter:
  assumes "safe_upto n item" and "sep \<noteq> TokenTypeEOF" and "remaining p < k"
  shows "remaining (snd (p_iter k (sep_step sep item) acc p)) \<le> remaining p
    \<and> (remaining p \<le> n \<longrightarrow> fst (p_iter k (sep_step sep item) acc p) \<noteq> Inl Diverges)"
  using assms(3)
proof (induction k arbitrary: acc p)
  case 0
  then show ?case by simp
next
  case (Suc k)
  obtain r p1 where r: "sep_step sep item acc p = (r, p1)" by (cases "sep_step sep item acc p")
  note step = sep_step_remaining [OF assms(1,2) r]
  show ?case
  proof (cases "\<exists>acc'. r = Inr (Inl acc')")
    case True
    then obtain acc' where a: "r = Inr (Inl acc')" by blast
    have "remaining p1 < remaining p" using step(3) a by blast
    with Suc.IH [of p1 acc'] Suc.prems r a show ?thesis by auto
  next
    case False
    with r step(1,2) show ?thesis by (auto split: sum.splits)
  qed
qed

lemma su_sep_loop:
  assumes "safe_upto n item" and "sep \<noteq> TokenTypeEOF"
  shows "safe_upto (Suc n) (sep_loop sep item acc)"
  unfolding safe_upto_def sep_loop_def p_loop_def
  using su_sep_iter [OF assms, of _ "Suc (remaining _)"] by auto

lemma pa_parseStringKeyAString [safe_intros]: "parser_action parseStringKeyAString"
  unfolding parseStringKeyAString_def by (intro safe_intros)

lemma pa_parseStringKeyNumber [safe_intros]: "parser_action parseStringKeyNumber"
  unfolding parseStringKeyNumber_def by (intro safe_intros)

lemma pa_parseStringKeyDate [safe_intros]: "parser_action parseStringKeyDate"
  unfolding parseStringKeyDate_def by (intro safe_intros)

lemma pa_parseStringKeyAtom [safe_intros]: "parser_action parseStringKeyAtom"
  unfolding parseStringKeyAtom_def by (intro safe_intros)

lemma pa_readSearchKeyword [safe_intros]: "parser_action readSearchKeyword"
  unfolding readSearchKeyword_def by (intro safe_intros) simp

lemma su_parseSearchKeyList: "safe_upto n rec \<Longrightarrow> safe_upto n (parseSearchKeyList rec)"
  unfolding parseSearchKeyList_def
  by (intro su_bind su_then su_mono [OF su_sep_loop]) (auto intro: su_action safe_intros)

lemma su_space: "safe_upto n k \<Longrightarrow> safe_upto (Suc n) (p_then (Consume TokenTypeSP msg) k)"
  by (intro su_then_consumes safe_intros progresses_Consume) simp_all

lemma su_not: "safe_upto n rec \<Longrightarrow> safe_upto (Suc n) (p_then (Consume TokenTypeSP msg) (p_map f rec))"
  by (intro su_space su_map)

lemma su_or:
  assumes "safe_upto n rec"
  shows "safe_upto (Suc n) (p_then (Consume TokenTypeSP msg)
    (p_bind rec (\<lambda>a. p_then (Consume TokenTypeSP msg') (p_bind rec (\<lambda>b. p_return (f a b))))))"
  by (intro su_space su_bind [OF assms] su_mono [OF su_space, of n]) (auto intro: su_action pa_return)

lemma su_handleSearchKey:
  assumes "safe_upto n rec"
  shows "safe_upto (Suc n) (handleSearchKey rec keyword)"
  unfolding handleSearchKey_def Let_def
  by (intro su_if; ((rule su_action, (intro safe_intros; fail)) | rule su_not su_or, rule assms))

lemma su_parseSearchKey: "safe_upto n (parseSearchKey n)"
proof (induction n)
  case 0
  show ?case by (simp add: safe_upto_def p_fail_def)
next
  case (Suc n)
  show ?case
    unfolding parseSearchKey.simps
    by (intro su_Matches su_if su_bind su_parseSearchKeyList su_handleSearchKey Suc)
      (auto intro: su_action safe_intros)
qed

lemma pa_search_key [safe_intros]: "parser_action search_key"
proof (rule parser_actionI)
  fix p
  from su_parseSearchKey [of "Suc (remaining p)"]
  show "remaining (snd (search_key p)) \<le> remaining p \<and> fst (search_key p) \<noteq> Inl Diverges"
    unfolding search_key_def safe_upto_def by blast
qed

lemma pa_handleSearchKey [safe_intros]: "parser_action (handleSearchKey search_key keyword)"
  unfolding handleSearchKey_def Let_def by (intro safe_intros)

lemma pa_search_first [safe_intros]: "parser_action search_first"
  unfolding search_first_def by (intro safe_intros) simp

lemma pa_SearchCommandParser [safe_intros]: "parser_action SearchCommandParser"
  unfolding SearchCommandParser_def by (intro safe_intros) simp

section \<open>What a successful parse yields\<close>

text \<open>Sequence sets are well formed and lists of keys are not empty, at every depth.\<close>

fun searchkey_ok :: "SearchKey \<Rightarrow> bool" where
  "searchkey_ok (SearchKeyNot k) = searchkey_ok k"
| "searchkey_ok (SearchKeyOr k1 k2) \<longleftrightarrow> searchkey_ok k1 \<and> searchkey_ok k2"
| "searchkey_ok (SearchKeyList ks) \<longleftrightarrow> ks \<noteq> [] \<and> list_all searchkey_ok ks"
| "searchkey_ok (SearchKeyUID rs) \<longleftrightarrow> rs \<noteq> [] \<and> list_all seqrange_ok rs"
| "searchkey_ok (SearchKeySeqSet rs) \<longleftrightarrow> rs \<noteq> [] \<and> list_all seqrange_ok rs"
| "searchkey_ok _ \<longleftrightarrow> True"

lemma yields_parseStringKeyAString [yield_intros]: "yields_any parseStringKeyAString"
  unfolding parseStringKeyAString_def by (intro yield_intros)

lemma yields_parseStringKeyNumber [yield_intros]: "yields_any parseStringKeyNumber"
  unfolding parseStringKeyNumber_def by (intro yield_intros)

lemma yields_parseStringKeyDate [yield_intros]: "yields_any parseStringKeyDate"
  unfolding parseStringKeyDate_def by (intro yield_intros)

lemma yields_parseStringKeyAtom [yield_intros]: "yields_any parseStringKeyAtom"
  unfolding parseStringKeyAtom_def by (intro yield_intros)

lemma yields_readSearchKeyword [yield_intros]: "yields_any readSearchKeyword"
  unfolding readSearchKeyword_def by (intro yield_intros)

lemma yields_map_const: "yields_any m \<Longrightarrow> (\<And>a. Q (f a)) \<Longrightarrow> yields Q (p_map f m)"
  by (rule yields_map)

lemma yields_key_list:
  assumes "yields searchkey_ok rec"
  shows "yields (\<lambda>ks. length acc \<le> length ks \<and> (list_all searchkey_ok acc \<longrightarrow> list_all searchkey_ok ks))
    (sep_loop TokenTypeSP rec acc)"
proof (cases "list_all searchkey_ok acc")
  case True
  then have acc: "\<forall>k \<in> set acc. searchkey_ok k" by (simp add: list_all_iff)
  show ?thesis by (rule yields_weaken [OF yields_sep_loop [OF assms acc]]) (simp add: list_all_iff)
next
  case False
  have any: "yields (\<lambda>_. True) rec" by (rule yields_weaken [OF assms]) simp
  have acc: "\<forall>k \<in> set acc. (\<lambda>_. True) k" by simp
  show ?thesis by (rule yields_weaken [OF yields_sep_loop [OF any acc]]) (use False in simp)
qed

lemma yields_parseSearchKeyList:
  assumes "yields searchkey_ok rec"
  shows "yields searchkey_ok (parseSearchKeyList rec)"
  unfolding parseSearchKeyList_def
  by (intro yields_bind [OF assms] yields_bind [OF yields_key_list [OF assms]] yields_then
      yields_Consume yields_return) auto

lemma yields_keyset:
  "yields (\<lambda>k. searchkey_ok k) (p_map SearchKeyUID ParseSeqSet)"
  "yields (\<lambda>k. searchkey_ok k) (p_map SearchKeySeqSet ParseSeqSet)"
  by (rule yields_map [OF yields_ParseSeqSet]; simp add: list_all_iff)+

lemma yields_handleSearchKey:
  assumes "yields searchkey_ok rec"
  shows "yields searchkey_ok (handleSearchKey rec keyword)"
  unfolding handleSearchKey_def Let_def
  by (intro yields_if yields_return yields_map_const yields_then yields_Consume yields_bind [OF assms]
      yields_keyset yields_map [OF assms] yields_bind_any [OF yields_parseStringKeyAString]
      yields_MakeErrorAtOffset) (auto intro: yield_intros)

lemma yields_parseSearchKey: "yields searchkey_ok (parseSearchKey n)"
proof (induction n)
  case 0
  show ?case by (simp add: yields_fail)
next
  case (Suc n)
  show ?case
    unfolding parseSearchKey.simps
    by (intro yields_bind_any [OF yields_Matches] yields_if yields_parseSearchKeyList Suc
        yields_bind_any [OF yields_CurrentToken] yields_keyset
        yields_bind_any [OF yields_readSearchKeyword] yields_handleSearchKey)
qed

lemma yields_search_key: "yields searchkey_ok search_key"
  using yields_parseSearchKey unfolding yields_def search_key_def by blast

lemma yields_search_first:
  "yields (\<lambda>first. case first of Inl _ \<Rightarrow> True | Inr k \<Rightarrow> searchkey_ok k) search_first"
  unfolding search_first_def
  by (intro yields_bind_any [OF yields_Matches] yields_if yields_bind_any [OF yields_PreviousToken]
      yields_bind_any [OF yields_CurrentToken] yields_then yields_Consume
      yields_map [OF yields_handleSearchKey [OF yields_search_key]]
      yields_bind_any [OF yields_CollectBytesWhileMatches] yields_map [OF yields_search_key]
      yields_map_const) (auto intro: yield_intros)

lemma yields_SearchCommandParser:
  "yields (\<lambda>(charset, keys). keys \<noteq> [] \<and> list_all searchkey_ok keys) SearchCommandParser"
  unfolding SearchCommandParser_def
  by (intro yields_then yields_Consume yields_bind [OF yields_search_first] yields_if
      yields_bind [OF yields_key_list [OF yields_search_key]] yields_MakeError yields_return)
    (auto split: sum.splits)

end
