(* ===== verification/Command_Parser.thy ===== *)
theory Command_Parser
  imports Command_Fetch Command_Search "HOL-Library.AList"
begin

text \<open>
  The IMAP command parser: one builder per command (\<open>list.go\<close>, \<open>append.go\<close>, \<open>login.go\<close>,
  \<open>store.go\<close>, \<open>status.go\<close>, \<open>id.go\<close>, \<open>uid.go\<close>, \<open>authenticate.go\<close> and the other files of
  \<open>imap/command\<close>) and the dispatcher \<open>Parser\<close> of \<open>parser.go\<close>. A payload is one constructor per
  payload struct with its fields in the order of the source.
\<close>

section \<open>Payloads\<close>

datatype StoreAction = StoreActionAddFlags | StoreActionRemFlags | StoreActionSetFlags

fun StoreAction_String :: "StoreAction \<Rightarrow> string" where
  "StoreAction_String StoreActionAddFlags = ''+FLAGS''"
| "StoreAction_String StoreActionRemFlags = ''+FLAGS''"
| "StoreAction_String StoreActionSetFlags = ''FLAGS''"

datatype StatusAttribute =
    StatusAttributeMessages | StatusAttributeRecent | StatusAttributeUIDNext
  | StatusAttributeUIDValidity | StatusAttributeUnseen

fun StatusAttribute_String :: "StatusAttribute \<Rightarrow> string" where
  "StatusAttribute_String StatusAttributeRecent = ''RECENT''"
| "StatusAttribute_String StatusAttributeMessages = ''MESSAGES''"
| "StatusAttribute_String StatusAttributeUIDNext = ''UIDNEXT''"
| "StatusAttribute_String StatusAttributeUIDValidity = ''UIDVALIDITY''"
| "StatusAttribute_String StatusAttributeUnseen = ''UNSEEN''"

text \<open>The value map of \<open>IDSet\<close> is an association list with distinct keys.\<close>

datatype (plugins only: code size) Payload =
    Done | List string string | Append string "string list" "Time option" bytes
  | Search string "SearchKey list" | Fetch "SeqRange list" "FetchAttribute list"
  | Capability | Idle | Noop | Logout | CheckCmd | Close | Expunge | Unselect | StartTLS
  | Status string "StatusAttribute list" | Select string | Examine string | Create string
  | Delete string | Subscribe string | Unsubscribe string | Rename string string
  | LSub string string | Login string string
  | Store "SeqRange list" StoreAction "string list" bool
  | Copy "SeqRange list" string | Move "SeqRange list" string
  | UID Payload | UIDExpunge "SeqRange list" | IDGet | IDSet "(string \<times> string) list"
  | Authenticate string string

section \<open>Builders\<close>

definition space :: "string \<Rightarrow> unit parse" where
  "space after = Consume TokenTypeSP (''expected space after '' @ after)"

definition isListChar :: "TokenType \<Rightarrow> bool" where
  "isListChar tt \<longleftrightarrow>
     IsAtomChar tt \<or> IsRespSpecial tt \<or> tt = TokenTypePercent \<or> tt = TokenTypeAsterisk"

definition parseListMailbox :: "rfc_String parse" where
  "parseListMailbox =
     p_bind (MatchesWith isListChar) (\<lambda>ok.
       if \<not> ok then ParseString
       else p_map IntoString (CollectBytesWhileMatchesWithPrevWith isListChar))"

definition ListCommandParser :: "Payload parse" where
  "ListCommandParser =
     p_then (space ''command'')
       (p_bind ParseMailbox (\<lambda>mailbox.
         p_then (space ''mailbox'')
           (p_bind parseListMailbox (\<lambda>listMailbox.
             p_return (List (StringValue mailbox) (StringValue listMailbox))))))"

definition LSubCommandParser :: "Payload parse" where
  "LSubCommandParser =
     p_then (space ''command'')
       (p_bind ParseMailbox (\<lambda>mailbox.
         p_then (space ''mailbox'')
           (p_bind parseListMailbox (\<lambda>listMailbox.
             p_return (LSub (StringValue mailbox) (StringValue listMailbox))))))"

text \<open>The zero \<open>time.Time\<close>, what APPEND stores when the client gives no date, is \<open>None\<close>.\<close>

definition append_date :: "Time option parse" where
  "append_date =
     p_bind CurrentToken (\<lambda>t.
       if TType t \<noteq> TokenTypeLCurly
       then p_bind ParseDateTime (\<lambda>dt. p_then (space ''flag list'') (p_return (Some dt)))
       else p_return None)"

definition AppendCommandParser :: "Payload parse" where
  "AppendCommandParser =
     p_then (space ''command'')
       (p_bind ParseMailbox (\<lambda>mailbox.
         p_then (space ''mailbox'')
           (p_bind TryParseFlagList (\<lambda>(flagList, hasFlagList).
             p_then (if hasFlagList then space ''flag list'' else p_return ())
               (p_bind append_date (\<lambda>dateTime.
                 p_bind ParseLiteral (\<lambda>literal.
                   p_return (Append (StringValue mailbox) (if hasFlagList then flagList else [])
                     dateTime literal))))))))"

definition LoginCommandParser :: "Payload parse" where
  "LoginCommandParser =
     p_then (space ''command'')
       (p_bind ParseAString (\<lambda>user.
         p_then (space ''userid'')
           (p_bind ParseAString (\<lambda>password.
             p_return (Login (StringValue user) (StringValue password))))))"

definition RenameCommandParser :: "Payload parse" where
  "RenameCommandParser =
     p_then (space ''command'')
       (p_bind ParseMailbox (\<lambda>mailboxFrom.
         p_then (space ''mailbox'')
           (p_bind ParseMailbox (\<lambda>mailboxTo.
             p_return (Rename (StringValue mailboxFrom) (StringValue mailboxTo))))))"

definition CopyCommandParser :: "Payload parse" where
  "CopyCommandParser =
     p_then (space ''command'')
       (p_bind ParseSeqSet (\<lambda>seqSet.
         p_then (space ''seqset'')
           (p_bind ParseMailbox (\<lambda>mailbox. p_return (Copy seqSet (StringValue mailbox))))))"

definition MoveCommandParser :: "Payload parse" where
  "MoveCommandParser =
     p_then (space ''command'')
       (p_bind ParseSeqSet (\<lambda>seqSet.
         p_then (space ''seqset'')
           (p_bind ParseMailbox (\<lambda>mailbox. p_return (Move seqSet (StringValue mailbox))))))"

text \<open>The six commands whose only argument is a mailbox.\<close>

definition mailbox_command :: "(string \<Rightarrow> Payload) \<Rightarrow> Payload parse" where
  "mailbox_command cmd =
     p_then (space ''command'') (p_bind ParseMailbox (\<lambda>mailbox. p_return (cmd (StringValue mailbox))))"

definition SelectCommandParser :: "Payload parse" where
  "SelectCommandParser = mailbox_command Select"

definition ExamineCommandParser :: "Payload parse" where
  "ExamineCommandParser = mailbox_command Examine"

definition CreateCommandParser :: "Payload parse" where
  "CreateCommandParser = mailbox_command Create"

definition DeleteCommandParser :: "Payload parse" where
  "DeleteCommandParser = mailbox_command Delete"

definition SubscribeCommandParser :: "Payload parse" where
  "SubscribeCommandParser = mailbox_command Subscribe"

definition UnsubscribeCommandParser :: "Payload parse" where
  "UnsubscribeCommandParser = mailbox_command Unsubscribe"

definition parseStatusAttribute :: "StatusAttribute parse" where
  "parseStatusAttribute =
     p_bind (CollectBytesWhileMatches TokenTypeChar) (\<lambda>attribute.
       let attributeStr = String_ToLower (IntoString attribute); a = StringValue attributeStr in
       if a = ''messages'' then p_return StatusAttributeMessages
       else if a = ''recent'' then p_return StatusAttributeRecent
       else if a = ''uidnext'' then p_return StatusAttributeUIDNext
       else if a = ''uidvalidity'' then p_return StatusAttributeUIDValidity
       else if a = ''unseen'' then p_return StatusAttributeUnseen
       else MakeErrorAtOffset
         (''unknown status attribute '' @ [CHR 0x27] @ ''{'' @ a @ '' ''
            @ show_int (StringOffset attributeStr) @ ''}'' @ [CHR 0x27])
         (StringOffset attributeStr))"

definition StatusCommandParser :: "Payload parse" where
  "StatusCommandParser =
     p_then (space ''command'')
       (p_bind ParseMailbox (\<lambda>mailbox.
         p_then (space ''mailbox'')
           (p_then (Consume TokenTypeLParen ''expected ( for status attributes start'')
             (p_bind parseStatusAttribute (\<lambda>attr.
               p_bind (sep_loop TokenTypeSP parseStatusAttribute [attr]) (\<lambda>attributes.
                 p_then (Consume TokenTypeRParen ''expected ) for status attributes end'')
                   (p_return (Status (StringValue mailbox) attributes))))))))"

definition parseStoreFlags :: "string list parse" where
  "parseStoreFlags =
     p_bind TryParseFlagList (\<lambda>(fl, ok).
       if ok then p_return fl
       else p_bind ParseFlag (\<lambda>f. sep_loop TokenTypeSP ParseFlag [f]))"

definition store_action :: "StoreAction parse" where
  "store_action =
     p_bind (Matches TokenTypePlus) (\<lambda>ok.
       if \<not> ok then
         p_bind (Matches TokenTypeMinus) (\<lambda>ok.
           if ok then p_return StoreActionRemFlags else p_return StoreActionSetFlags)
       else p_return StoreActionAddFlags)"

definition store_silent :: "bool parse" where
  "store_silent =
     p_bind (Matches TokenTypePeriod) (\<lambda>ok.
       if ok then p_then (ConsumeBytesFold ''SILENT'') (p_return True) else p_return False)"

definition StoreCommandParser :: "Payload parse" where
  "StoreCommandParser =
     p_then (space ''command'')
       (p_bind ParseSeqSet (\<lambda>seqSet.
         p_then (space ''sequence set'')
           (p_bind store_action (\<lambda>action.
             p_then (ConsumeBytesFold ''FLAGS'')
               (p_bind store_silent (\<lambda>silent.
                 p_then (space ''FLAGS'')
                   (p_bind parseStoreFlags (\<lambda>flags.
                     p_return (Store seqSet action flags silent)))))))))"

definition id_step :: "(string \<times> string) list \<Rightarrow> ((string \<times> string) list + (string \<times> string) list) parse" where
  "id_step values =
     p_bind TryParseString (\<lambda>(key, ok).
       if \<not> ok then p_return (Inr values)
       else p_then (space ''ID key'')
         (p_bind ParseNString (\<lambda>(value, isNil).
           let values' = AList.update (StringValue key) (if \<not> isNil then StringValue value else '''') values in
           p_bind CurrentToken (\<lambda>t.
             if TType t \<noteq> TokenTypeRParen
             then p_then (space ''ID value'') (p_return (Inl values'))
             else p_return (Inl values')))))"

definition IDCommandParser :: "Payload parse" where
  "IDCommandParser =
     p_then (space ''command'')
       (p_bind CurrentToken (\<lambda>t.
         if TType t = TokenTypeChar then p_then (ConsumeBytesFold ''NIL'') (p_return IDGet)
         else p_then (Consume TokenTypeLParen ''expected ( for id values start'')
           (p_bind (p_loop id_step []) (\<lambda>values.
             p_then (Consume TokenTypeRParen ''expected ) for id values end'')
               (p_return (IDSet values))))))"

text \<open>\<open>base64.StdEncoding.DecodeString\<close>: padded, line breaks ignored, trailing bits not checked.\<close>

definition b64_val :: "char \<Rightarrow> nat option" where
  "b64_val c =
     (let n = bval c in
      if 65 \<le> n \<and> n \<le> 90 then Some (n - 65)
      else if 97 \<le> n \<and> n \<le> 122 then Some (n - 71)
      else if 48 \<le> n \<and> n \<le> 57 then Some (n + 4)
      else if n = 43 then Some 62
      else if n = 47 then Some 63
      else None)"

definition b64_bytes :: "nat \<Rightarrow> nat \<Rightarrow> nat \<Rightarrow> nat \<Rightarrow> bytes" where
  "b64_bytes a b c d =
     [char_of (a * 4 + b div 16), char_of (b mod 16 * 16 + c div 4), char_of (c mod 4 * 64 + d)]"

fun b64_quanta :: "string \<Rightarrow> bytes option" where
  "b64_quanta [] = Some []"
| "b64_quanta (a # b # c # d # s) =
     (case (b64_val a, b64_val b) of
        (Some va, Some vb) \<Rightarrow>
          if d = CHR ''='' then
            if s \<noteq> [] then None
            else if c = CHR ''='' then Some (take 1 (b64_bytes va vb 0 0))
            else (case b64_val c of None \<Rightarrow> None | Some vc \<Rightarrow> Some (take 2 (b64_bytes va vb vc 0)))
          else (case (b64_val c, b64_val d, b64_quanta s) of
                  (Some vc, Some vd, Some bs) \<Rightarrow> Some (b64_bytes va vb vc vd @ bs)
                | _ \<Rightarrow> None)
      | _ \<Rightarrow> None)"
| "b64_quanta _ = None"

definition DecodeString :: "string \<Rightarrow> bytes option" where
  "DecodeString s = b64_quanta (filter (\<lambda>c. c \<noteq> CHR 0x0A \<and> c \<noteq> CHR 0x0D) s)"

definition parseAuthInputString :: "Payload parse" where
  "parseAuthInputString =
     p_bind (ParseStringAfterContinuation '''') (\<lambda>parsed.
       p_bind CurrentToken (\<lambda>t.
         if StringValue parsed = ''*'' \<and> TType t = TokenTypeCR
         then MakeError ''client aborted authentication''
         else (case DecodeString (StringValue parsed) of
             None \<Rightarrow> MakeError ''invalid base64 content''
           | Some decoded \<Rightarrow>
               if length decoded < 2 then MakeError ''invalid authentication data''
               else (case split_byte decoded (CHR 0x00) of
                   [_, user, password] \<Rightarrow> p_return (Authenticate user password)
                 | _ \<Rightarrow> MakeError ''invalid authentication data''))))"

definition AuthenticateCommandParser :: "Payload parse" where
  "AuthenticateCommandParser =
     p_then (space ''command'')
       (p_bind ParseAtom (\<lambda>method.
         if \<not> EqualFold method ''plain'' then MakeError ''unsupported authentication mechanism''
         else parseAuthInputString))"

definition fetch_command :: "Payload parse" where
  "fetch_command = p_map (\<lambda>(seqSet, attributes). Fetch seqSet attributes) FetchCommandParser"

definition search_command :: "Payload parse" where
  "search_command = p_map (\<lambda>(charset, keys). Search charset keys) SearchCommandParser"

text \<open>The loop that reads a command's name in lower case, the same in \<open>parser.go\<close> and \<open>uid.go\<close>.\<close>

definition name_step :: "bytes \<Rightarrow> (bytes + bytes) parse" where
  "name_step commandBytes =
     p_bind (Matches TokenTypeChar) (\<lambda>ok.
       if ok then p_bind PreviousToken (\<lambda>t. p_return (Inl (commandBytes @ [ByteToLower (Value t)])))
       else p_return (Inr commandBytes))"

definition command_name :: "string parse" where
  "command_name = p_loop name_step []"

definition UIDExpungeCommandParser :: "Payload parse" where
  "UIDExpungeCommandParser = p_then (space ''command'') (p_map UIDExpunge ParseSeqSet)"

definition NewUIDCommandParser :: "string \<Rightarrow> Payload parse option" where
  "NewUIDCommandParser =
     map_of [(''copy'', CopyCommandParser), (''fetch'', fetch_command), (''search'', search_command),
             (''move'', MoveCommandParser), (''store'', StoreCommandParser)]"

definition UIDCommandParser :: "Payload parse" where
  "UIDCommandParser =
     p_then (space ''command'')
       (p_bind PreviousToken (\<lambda>prev.
         p_bind command_name (\<lambda>cmd.
           if cmd = ''expunge'' then UIDExpungeCommandParser
           else (case NewUIDCommandParser cmd of
               None \<Rightarrow> MakeErrorAtOffset
                 (''unknown uid command '' @ [CHR 0x27] @ cmd @ [CHR 0x27]) (Offset prev)
             | Some builder \<Rightarrow> p_map UID builder))))"

section \<open>The dispatcher\<close>

text \<open>
  The scanner of \<open>command.Parser\<close> is the one its \<open>rfcparser.Parser\<close> holds, so it is not a field of
  its own. \<open>builders\<close> is the map that \<open>NewParser\<close> fills.
\<close>

record Command =
  Tag :: string
  CmdPayload :: "Payload option"

definition emptyCommand :: Command where
  "emptyCommand = \<lparr>Tag = '''', CmdPayload = None\<rparr>"

record command_Parser =
  rfc_parser :: Parser
  commands :: "string \<Rightarrow> Payload parse option"
  lastTag :: string
  lastCmd :: string

definition builders :: "bool \<Rightarrow> string \<Rightarrow> Payload parse option" where
  "builders disableIMAPAuthenticate =
     map_of ([(''list'', ListCommandParser), (''append'', AppendCommandParser),
       (''search'', search_command), (''fetch'', fetch_command),
       (''capability'', p_return Capability), (''idle'', p_return Idle), (''noop'', p_return Noop),
       (''logout'', p_return Logout), (''check'', p_return CheckCmd), (''close'', p_return Close),
       (''expunge'', p_return Expunge), (''unselect'', p_return Unselect),
       (''starttls'', p_return StartTLS), (''status'', StatusCommandParser),
       (''select'', SelectCommandParser), (''examine'', ExamineCommandParser),
       (''create'', CreateCommandParser), (''delete'', DeleteCommandParser),
       (''subscribe'', SubscribeCommandParser), (''unsubscribe'', UnsubscribeCommandParser),
       (''rename'', RenameCommandParser), (''lsub'', LSubCommandParser),
       (''login'', LoginCommandParser), (''store'', StoreCommandParser),
       (''copy'', CopyCommandParser), (''move'', MoveCommandParser),
       (''uid'', UIDCommandParser), (''id'', IDCommandParser)]
       @ (if disableIMAPAuthenticate then [] else [(''authenticate'', AuthenticateCommandParser)]))"

definition NewCommandParser ::
    "Scanner \<Rightarrow> (string \<Rightarrow> string option) option \<Rightarrow> bool \<Rightarrow> command_Parser" where
  "NewCommandParser s cb disable =
     \<lparr>rfc_parser = NewParserWithLiteralContinuationCb s cb, commands = builders disable,
      lastTag = '''', lastCmd = ''''\<rparr>"

definition ConsumeInvalidInput :: "command_Parser \<Rightarrow> io_error option \<times> command_Parser" where
  "ConsumeInvalidInput cp =
     (let (r, s) = ConsumeUntilNewLine (scanner (rfc_parser cp)) in
      ((case r of Inl e \<Rightarrow> Some e | Inr _ \<Rightarrow> None),
       cp\<lparr>rfc_parser := (rfc_parser cp)\<lparr>scanner := s\<rparr>\<rparr>))"

definition isTagChar :: "TokenType \<Rightarrow> bool" where
  "isTagChar tt \<longleftrightarrow> IsAStringChar tt \<and> tt \<noteq> TokenTypePlus"

definition parseTag :: "rfc_String parse" where
  "parseTag =
     p_then (ConsumeWith isTagChar ''Invalid tag char detected'')
       (p_map IntoString (CollectBytesWhileMatchesWithPrevWith isTagChar))"

text \<open>An operation of the inner parser, as an operation of the command parser.\<close>

definition run_rfc :: "'a parse \<Rightarrow> command_Parser \<Rightarrow> (rfc_error + 'a) \<times> command_Parser" where
  "run_rfc m cp = (let (r, p) = m (rfc_parser cp) in (r, cp\<lparr>rfc_parser := p\<rparr>))"

definition parseCommand :: "command_Parser \<Rightarrow> (rfc_error + Payload) \<times> command_Parser" where
  "parseCommand cp =
     (let commandOffset = Offset (currentToken (rfc_parser cp)) in
      case run_rfc command_name cp of
        (Inl e, cp1) \<Rightarrow> (Inl e, cp1)
      | (Inr name, cp1) \<Rightarrow>
          (let cp2 = cp1\<lparr>lastCmd := name\<rparr> in
           case commands cp2 name of
             None \<Rightarrow> run_rfc (MakeErrorAtOffset
               (''unknown command '' @ [CHR 0x27] @ name @ [CHR 0x27]) commandOffset) cp2
           | Some builder \<Rightarrow> run_rfc builder cp2))"

text \<open>The part of \<open>Parse\<close> after the payload: the CR, and the LF that is not consumed.\<close>

definition parse_end :: "unit parse" where
  "parse_end =
     p_then (Consume TokenTypeCR ''expected CR'')
       (p_bind CurrentToken (\<lambda>t.
         if TType t \<noteq> TokenTypeLF then MakeError ''expected LF after CR'' else p_return ()))"

definition finish :: "Command \<Rightarrow> command_Parser \<Rightarrow> (Command \<times> rfc_error option) \<times> command_Parser" where
  "finish result cp =
     (case run_rfc parse_end cp of
        (Inl e, cp') \<Rightarrow> ((emptyCommand, Some e), cp')
      | (Inr _, cp') \<Rightarrow> ((result, None), cp'))"

text \<open>The first two calls of \<open>Parse\<close>: the offset counter is reset and the first token is loaded.\<close>

definition begin_command :: "unit parse" where
  "begin_command = p_then ResetOffsetCounter Advance"

text \<open>
  \<open>Parse\<close> returns a command and an error, as in the source: both are meaningful on errors.
  \<open>parse_tagged\<close> is its branch for commands other than DONE.
\<close>

definition parse_tagged :: "string \<Rightarrow> command_Parser \<Rightarrow> (Command \<times> rfc_error option) \<times> command_Parser" where
  "parse_tagged tag cp =
     (case run_rfc (Consume TokenTypeSP ''Expected space after tag'') (cp\<lparr>lastTag := tag\<rparr>) of
        (Inl e, cp1) \<Rightarrow> ((\<lparr>Tag = tag, CmdPayload = None\<rparr>, Some e), cp1)
      | (Inr _, cp1) \<Rightarrow>
          (case parseCommand cp1 of
             (Inl e, cp2) \<Rightarrow> ((\<lparr>Tag = tag, CmdPayload = None\<rparr>, Some e), cp2)
           | (Inr payload, cp2) \<Rightarrow> finish \<lparr>Tag = tag, CmdPayload = Some payload\<rparr> cp2))"

definition Parse :: "command_Parser \<Rightarrow> (Command \<times> rfc_error option) \<times> command_Parser" where
  "Parse cp0 =
     (case run_rfc (p_then begin_command parseTag) (cp0\<lparr>lastTag := '''', lastCmd := ''''\<rparr>) of
        (Inl e, cp) \<Rightarrow> ((emptyCommand, Some e), cp)
      | (Inr tag, cp) \<Rightarrow>
          if ToLower (StringValue tag) = ''done''
          then finish \<lparr>Tag = '''', CmdPayload = Some Done\<rparr> (cp\<lparr>lastCmd := ''done''\<rparr>)
          else parse_tagged (StringValue tag) cp)"

section \<open>Every builder keeps the contract\<close>

lemma class_EOF [simp]:
  "\<not> isListChar TokenTypeEOF" "\<not> isTagChar TokenTypeEOF"
  by (simp_all add: isListChar_def isTagChar_def token_class_defs)

lemma pa_space [safe_intros]: "parser_action (space s)"
  unfolding space_def by (rule pa_Consume)

lemma consumes_space: "consumes (space s)"
  unfolding space_def by (rule progresses_Consume) simp

lemma pa_parseListMailbox [safe_intros]: "parser_action parseListMailbox"
  unfolding parseListMailbox_def by (intro safe_intros) simp

lemma pa_list_builders [safe_intros]:
  "parser_action ListCommandParser" "parser_action LSubCommandParser"
  unfolding ListCommandParser_def LSubCommandParser_def by (intro safe_intros)+

lemma pa_AppendCommandParser [safe_intros]: "parser_action AppendCommandParser"
  unfolding AppendCommandParser_def append_date_def by (intro safe_intros)

lemma pa_string_builders [safe_intros]:
  "parser_action LoginCommandParser" "parser_action RenameCommandParser"
  "parser_action CopyCommandParser" "parser_action MoveCommandParser"
  unfolding LoginCommandParser_def RenameCommandParser_def CopyCommandParser_def MoveCommandParser_def
  by (intro safe_intros)+

lemma pa_mailbox_command [safe_intros]: "parser_action (mailbox_command cmd)"
  unfolding mailbox_command_def by (intro safe_intros)

lemmas mailbox_builders =
  SelectCommandParser_def ExamineCommandParser_def CreateCommandParser_def
  DeleteCommandParser_def SubscribeCommandParser_def UnsubscribeCommandParser_def

lemma pa_parseStatusAttribute [safe_intros]: "parser_action parseStatusAttribute"
  unfolding parseStatusAttribute_def Let_def by (intro safe_intros) simp

lemma pa_StatusCommandParser [safe_intros]: "parser_action StatusCommandParser"
  unfolding StatusCommandParser_def by (intro safe_intros) simp

lemma pa_StoreCommandParser [safe_intros]: "parser_action StoreCommandParser"
  unfolding StoreCommandParser_def store_action_def store_silent_def parseStoreFlags_def
  by (intro safe_intros) simp

lemma pa_id_step [safe_intros]: "parser_action (id_step values)"
  unfolding id_step_def Let_def by (intro safe_intros)

lemma progresses_id_step: "progresses (\<lambda>x. \<exists>b. x = Inl b) (id_step values)"
  unfolding id_step_def Let_def
  by (rule progresses_bind_second [OF pa_TryParseString])
    (auto intro!: progresses_return progresses_then_first consumes_space safe_intros)

lemma pa_IDCommandParser [safe_intros]: "parser_action IDCommandParser"
  unfolding IDCommandParser_def by (intro safe_intros progresses_id_step)

lemma pa_parseAuthInputString [safe_intros]: "parser_action parseAuthInputString"
  unfolding parseAuthInputString_def
  by (intro safe_intros) (auto intro!: safe_intros split: option.splits list.splits)

lemma pa_AuthenticateCommandParser [safe_intros]: "parser_action AuthenticateCommandParser"
  unfolding AuthenticateCommandParser_def by (intro safe_intros)

lemma pa_wrapped_builders [safe_intros]: "parser_action fetch_command" "parser_action search_command"
  unfolding fetch_command_def search_command_def by (intro safe_intros)+

lemma pa_command_name [safe_intros]: "parser_action command_name"
  unfolding command_name_def
proof (rule pa_loop)
  show "parser_action (name_step b)" for b
    unfolding name_step_def by (intro safe_intros)
  show "progresses (\<lambda>x. \<exists>b'. x = Inl b') (name_step b)" for b
    unfolding name_step_def by (rule progresses_Matches) (auto intro!: safe_intros progresses_return)
qed

lemma run_rfc_safe:
  assumes "parser_action m" and "run_rfc m cp = (r, cp')"
  shows "r \<noteq> Inl Diverges \<and> remaining (rfc_parser cp') \<le> remaining (rfc_parser cp)
    \<and> commands cp' = commands cp"
  using parser_action.act_mono [OF assms(1), of "rfc_parser cp"]
    parser_action.act_returns [OF assms(1), of "rfc_parser cp"] assms(2)
  by (auto simp: run_rfc_def split: prod.splits)

interpretation begin_act: parser_action "p_then begin_command parseTag"
  unfolding begin_command_def parseTag_def by (intro safe_intros) simp

interpretation end_act: parser_action parse_end
  unfolding parse_end_def by (intro safe_intros)

lemma finish_safe:
  assumes "finish c cp = ((c', err), cp')"
  shows "err \<noteq> Some Diverges \<and> remaining (rfc_parser cp') \<le> remaining (rfc_parser cp)
    \<and> commands cp' = commands cp"
proof -
  obtain r cp1 where r: "run_rfc parse_end cp = (r, cp1)" by fastforce
  from run_rfc_safe [OF end_act.parser_action_axioms r] assms r show ?thesis
    by (auto simp: finish_def split: sum.splits)
qed

text \<open>
  A table of builders, as \<open>NewParser\<close> and \<open>NewUIDCommandParser\<close> fill one: whatever is registered
  keeps the parser contract. The dispatcher needs no more of it.
\<close>

locale command_table =
  fixes table :: "string \<Rightarrow> Payload parse option"
  assumes table_action: "table name = Some builder \<Longrightarrow> parser_action builder"
begin

lemma lookup_action:
  "parser_action (case table name of None \<Rightarrow> MakeErrorAtOffset msg off | Some builder \<Rightarrow> builder)"
  by (auto intro: safe_intros table_action split: option.splits)

lemma lookup_map_action:
  "parser_action (case table name of None \<Rightarrow> MakeErrorAtOffset msg off | Some builder \<Rightarrow> p_map f builder)"
  by (auto intro: safe_intros table_action split: option.splits)

lemma parseCommand_safe:
  assumes "commands cp = table" and "parseCommand cp = (r, cp')"
  shows "r \<noteq> Inl Diverges \<and> remaining (rfc_parser cp') \<le> remaining (rfc_parser cp)
    \<and> commands cp' = table"
proof -
  obtain n cp1 where n: "run_rfc command_name cp = (n, cp1)" by fastforce
  note 1 = run_rfc_safe [OF pa_command_name n]
  show ?thesis
  proof (cases n)
    case (Inl e)
    with assms n 1 show ?thesis by (auto simp: parseCommand_def)
  next
    case (Inr name)
    let ?m = "case table name of None \<Rightarrow>
        MakeErrorAtOffset (''unknown command '' @ [CHR 0x27] @ name @ [CHR 0x27])
          (Offset (currentToken (rfc_parser cp)))
      | Some builder \<Rightarrow> builder"
    from assms(1) 1 have "commands cp1 = table" by simp
    with assms(2) n Inr have "run_rfc ?m (cp1\<lparr>lastCmd := name\<rparr>) = (r, cp')"
      by (simp add: parseCommand_def Let_def split: option.splits)
    from run_rfc_safe [OF lookup_action this] 1 assms(1) show ?thesis by simp
  qed
qed

lemma parse_tagged_safe:
  assumes "commands cp = table" and "parse_tagged tag cp = ((c, err), cp')"
  shows "err \<noteq> Some Diverges \<and> remaining (rfc_parser cp') \<le> remaining (rfc_parser cp)
    \<and> commands cp' = table"
proof -
  obtain r1 cp1 where r1: "run_rfc (Consume TokenTypeSP ''Expected space after tag'')
      (cp\<lparr>lastTag := tag\<rparr>) = (r1, cp1)" by fastforce
  note s1 = run_rfc_safe [OF pa_Consume r1]
  obtain r2 cp2 where r2: "parseCommand cp1 = (r2, cp2)" by fastforce
  have s2: "r2 \<noteq> Inl Diverges \<and> remaining (rfc_parser cp2) \<le> remaining (rfc_parser cp1)
      \<and> commands cp2 = table"
    using parseCommand_safe [OF _ r2] s1 assms(1) by simp
  show ?thesis
  proof (cases "\<exists>u payload. r1 = Inr u \<and> r2 = Inr payload")
    case True
    then obtain u payload where "r1 = Inr u" "r2 = Inr payload" by blast
    with assms(2) r1 r2 have "finish \<lparr>Tag = tag, CmdPayload = Some payload\<rparr> cp2 = ((c, err), cp')"
      by (simp add: parse_tagged_def)
    from finish_safe [OF this] s1 s2 assms(1) show ?thesis by simp
  next
    case False
    with assms r1 r2 s1 s2 show ?thesis by (cases r1; cases r2) (auto simp: parse_tagged_def)
  qed
qed

text \<open>\<open>Parse\<close> ends, for every table that keeps the contract.\<close>

lemma Parse_safe:
  assumes "commands cp = table" and "Parse cp = ((c, err), cp')"
  shows "err \<noteq> Some Diverges \<and> remaining (rfc_parser cp') \<le> remaining (rfc_parser cp)
    \<and> commands cp' = table"
proof -
  obtain r1 cp1 where r1: "run_rfc (p_then begin_command parseTag) (cp\<lparr>lastTag := '''', lastCmd := ''''\<rparr>) = (r1, cp1)"
    by fastforce
  note s1 = run_rfc_safe [OF begin_act.parser_action_axioms r1]
  show ?thesis
  proof (cases r1)
    case (Inl e)
    with assms r1 s1 show ?thesis by (auto simp: Parse_def)
  next
    case (Inr tag)
    show ?thesis
    proof (cases "ToLower (StringValue tag) = ''done''")
      case True
      with assms r1 Inr have "finish \<lparr>Tag = '''', CmdPayload = Some Done\<rparr> (cp1\<lparr>lastCmd := ''done''\<rparr>) = ((c, err), cp')"
        by (simp add: Parse_def)
      from finish_safe [OF this] s1 assms(1) show ?thesis by simp
    next
      case False
      with assms r1 Inr have "parse_tagged (StringValue tag) cp1 = ((c, err), cp')"
        by (simp add: Parse_def)
      from parse_tagged_safe [OF _ this] s1 assms(1) show ?thesis by simp
    qed
  qed
qed

end

lemma command_table_map_of:
  assumes "list_all (\<lambda>(name, builder). parser_action builder) table"
  shows "command_table (map_of table)"
  using assms by (intro command_table.intro) (auto simp: list_all_iff dest: map_of_SomeD)

interpretation uid_table: command_table NewUIDCommandParser
  unfolding NewUIDCommandParser_def
  by (rule command_table_map_of) (simp, intro conjI safe_intros)

lemma pa_UIDCommandParser [safe_intros]: "parser_action UIDCommandParser"
  unfolding UIDCommandParser_def UIDExpungeCommandParser_def
  by (intro safe_intros uid_table.lookup_map_action)

interpretation main_table: command_table "builders d"
  unfolding builders_def mailbox_builders
  by (rule command_table_map_of) (simp, intro conjI impI safe_intros)

section \<open>Termination\<close>

text \<open>
  C1: The command parser always returns, whatever the client sends: \<open>Parse\<close> ends after at most as
  many steps as there are tokens left (no loop of any builder and no nesting of search keys exhausts
  the input's length as fuel), it never reads backwards, and the table of builders stays in place.
\<close>

theorem Parse_returns:
  "snd (fst (Parse (cp\<lparr>commands := builders d\<rparr>))) \<noteq> Some Diverges
   \<and> remaining (rfc_parser (snd (Parse (cp\<lparr>commands := builders d\<rparr>)))) \<le> remaining (rfc_parser cp)
   \<and> commands (snd (Parse (cp\<lparr>commands := builders d\<rparr>))) = builders d"
proof -
  obtain c err cp' where "Parse (cp\<lparr>commands := builders d\<rparr>) = ((c, err), cp')" by (metis prod.exhaust)
  with main_table.Parse_safe [OF _ this, of d] show ?thesis by simp
qed

end
