(* ===== verification/Command_Correct.thy ===== *)
theory Command_Correct
  imports Command_Parser
begin

text \<open>
  Correctness of the command parser as a whole: what a command that was parsed may hold, that the
  parser is ready for the next command afterwards, and that a stream of LOGIN commands is read back
  as it was written.
\<close>

section \<open>Well-formed payloads\<close>

definition seqset_ok :: "SeqRange list \<Rightarrow> bool" where
  "seqset_ok rs \<longleftrightarrow> rs \<noteq> [] \<and> (\<forall>r \<in> set rs. seqrange_ok r)"

definition mailbox_ok :: "string \<Rightarrow> bool" where
  "mailbox_ok m \<longleftrightarrow> (EqualFold m ''INBOX'' \<longrightarrow> m = ''INBOX'')"

fun payload_ok :: "Payload \<Rightarrow> bool" where
  "payload_ok Done = False"
| "payload_ok (List m p) = mailbox_ok m"
| "payload_ok (LSub m p) = mailbox_ok m"
| "payload_ok (Append m fs d l) \<longleftrightarrow> mailbox_ok m \<and> (\<forall>f \<in> set fs. not_recent f)"
| "payload_ok (Search cs ks) \<longleftrightarrow> ks \<noteq> [] \<and> list_all searchkey_ok ks"
| "payload_ok (Fetch rs as) \<longleftrightarrow> seqset_ok rs \<and> as \<noteq> [] \<and> (\<forall>a \<in> set as. attribute_ok a)"
| "payload_ok (Status m as) \<longleftrightarrow> mailbox_ok m \<and> as \<noteq> []"
| "payload_ok (Select m) = mailbox_ok m"
| "payload_ok (Examine m) = mailbox_ok m"
| "payload_ok (Create m) = mailbox_ok m"
| "payload_ok (Delete m) = mailbox_ok m"
| "payload_ok (Subscribe m) = mailbox_ok m"
| "payload_ok (Unsubscribe m) = mailbox_ok m"
| "payload_ok (Rename m m') \<longleftrightarrow> mailbox_ok m \<and> mailbox_ok m'"
| "payload_ok (Store rs a fs s) \<longleftrightarrow> seqset_ok rs \<and> (\<forall>f \<in> set fs. not_recent f)"
| "payload_ok (Copy rs m) \<longleftrightarrow> seqset_ok rs \<and> mailbox_ok m"
| "payload_ok (Move rs m) \<longleftrightarrow> seqset_ok rs \<and> mailbox_ok m"
| "payload_ok (UID p) \<longleftrightarrow> payload_ok p
     \<and> (case p of Copy _ _ \<Rightarrow> True | Fetch _ _ \<Rightarrow> True | Search _ _ \<Rightarrow> True
          | Move _ _ \<Rightarrow> True | Store _ _ _ _ \<Rightarrow> True | _ \<Rightarrow> False)"
| "payload_ok (UIDExpunge rs) = seqset_ok rs"
| "payload_ok (IDSet vs) = distinct (map fst vs)"
| "payload_ok _ = True"

lemma yields_split:
  "(\<And>a b. x = (a, b) \<Longrightarrow> yields Q (f a b)) \<Longrightarrow> yields Q (case x of (a, b) \<Rightarrow> f a b)"
  by (cases x) auto

lemma yields_space [yield_intros]: "yields_any (space s)"
  unfolding space_def by (rule yields_Consume)

lemma yields_Mailbox: "yields (\<lambda>s. mailbox_ok (StringValue s)) ParseMailbox"
  unfolding mailbox_ok_def by (rule yields_ParseMailbox)

lemma yields_SeqSet: "yields seqset_ok ParseSeqSet"
  unfolding seqset_ok_def by (rule yields_ParseSeqSet)

lemma yields_parseListMailbox [yield_intros]: "yields_any parseListMailbox"
  unfolding parseListMailbox_def by (intro yield_intros)

lemma yields_list_builders:
  "yields payload_ok ListCommandParser" "yields payload_ok LSubCommandParser"
  unfolding ListCommandParser_def LSubCommandParser_def
  by (intro yields_then yields_space yields_bind [OF yields_Mailbox]
      yields_bind_any [OF yields_parseListMailbox] yields_return; simp)+

lemma yields_append_date [yield_intros]: "yields_any append_date"
  unfolding append_date_def by (intro yield_intros)

lemma yields_AppendCommandParser: "yields payload_ok AppendCommandParser"
  unfolding AppendCommandParser_def
  by (intro yields_then yields_space yields_bind [OF yields_Mailbox]
      yields_bind [OF yields_TryParseFlagList] yields_split yields_if
      yields_bind_any [OF yields_append_date] yields_bind_any [OF yields_ParseLiteral] yields_return)
    auto

lemma yields_LoginCommandParser: "yields payload_ok LoginCommandParser"
  unfolding LoginCommandParser_def by (intro yield_intros) simp

lemma yields_RenameCommandParser: "yields payload_ok RenameCommandParser"
  unfolding RenameCommandParser_def
  by (intro yields_then yields_space yields_bind [OF yields_Mailbox] yields_return) simp

lemma yields_CopyCommandParser: "yields payload_ok CopyCommandParser"
  unfolding CopyCommandParser_def
  by (intro yields_then yields_space yields_bind [OF yields_Mailbox] yields_bind [OF yields_SeqSet]
      yields_return) simp

lemma yields_MoveCommandParser: "yields payload_ok MoveCommandParser"
  unfolding MoveCommandParser_def
  by (intro yields_then yields_space yields_bind [OF yields_Mailbox] yields_bind [OF yields_SeqSet]
      yields_return) simp

lemma yields_mailbox_command:
  "(\<And>m. mailbox_ok m \<Longrightarrow> payload_ok (cmd m)) \<Longrightarrow> yields payload_ok (mailbox_command cmd)"
  unfolding mailbox_command_def
  by (intro yields_then yields_space yields_bind [OF yields_Mailbox] yields_return) simp

lemma yields_parseStatusAttribute [yield_intros]: "yields_any parseStatusAttribute"
  unfolding parseStatusAttribute_def Let_def by (intro yield_intros)

lemma yields_StatusCommandParser: "yields payload_ok StatusCommandParser"
  unfolding StatusCommandParser_def
proof (intro yields_then yields_space yields_Consume yields_bind [OF yields_Mailbox]
    yields_bind_any [OF yields_parseStatusAttribute])
  fix mb :: rfc_String and attr :: StatusAttribute
  assume mb: "mailbox_ok (StringValue mb)"
  have acc: "\<forall>x \<in> set [attr]. (\<lambda>_. True) x" by simp
  show "yields payload_ok (p_bind (sep_loop TokenTypeSP parseStatusAttribute [attr]) (\<lambda>attributes.
      p_then (Consume TokenTypeRParen ''expected ) for status attributes end'')
        (p_return (Status (StringValue mb) attributes))))"
    by (rule yields_bind [OF yields_sep_loop [OF yields_parseStatusAttribute acc]])
      (intro yields_then yields_Consume yields_return, use mb in auto)
qed

lemma yields_parseStoreFlags: "yields (\<lambda>fs. \<forall>f \<in> set fs. not_recent f) parseStoreFlags"
  unfolding parseStoreFlags_def
  by (intro yields_bind [OF yields_TryParseFlagList] yields_split yields_if yields_return
      yields_flags) simp

lemma yields_store_action [yield_intros]: "yields_any store_action"
  unfolding store_action_def by (intro yield_intros)

lemma yields_store_silent [yield_intros]: "yields_any store_silent"
  unfolding store_silent_def by (intro yield_intros)

lemma yields_StoreCommandParser: "yields payload_ok StoreCommandParser"
  unfolding StoreCommandParser_def
  by (intro yields_then yields_space yields_bind [OF yields_SeqSet] yields_ConsumeBytesFold
      yields_bind_any [OF yields_store_action] yields_bind_any [OF yields_store_silent]
      yields_bind [OF yields_parseStoreFlags] yields_return) simp

lemma yields_id_step:
  "distinct (map fst vs) \<Longrightarrow>
   yields (\<lambda>x. case x of Inl vs' \<Rightarrow> distinct (map fst vs') | Inr vs' \<Rightarrow> distinct (map fst vs')) (id_step vs)"
  unfolding id_step_def Let_def by (intro yield_intros) (simp_all add: distinct_update)

lemma yields_id_loop: "yields (\<lambda>vs. distinct (map fst vs)) (p_loop id_step [])"
  by (rule yields_loop [where I = "\<lambda>vs. distinct (map fst vs)"]) (simp_all add: yields_id_step)

lemma yields_IDCommandParser: "yields payload_ok IDCommandParser"
  unfolding IDCommandParser_def
  by (intro yields_then yields_space yields_bind_any [OF yields_CurrentToken] yields_if
      yields_ConsumeBytesFold yields_Consume yields_return yields_bind [OF yields_id_loop]) simp_all

lemma yields_AuthenticateCommandParser: "yields payload_ok AuthenticateCommandParser"
  unfolding AuthenticateCommandParser_def parseAuthInputString_def
  by (intro yield_intros) (auto intro!: yield_intros split: option.splits list.splits)

lemma yields_fetch_command: "yields payload_ok fetch_command"
  unfolding fetch_command_def
  by (rule yields_map [OF yields_FetchCommandParser]) (auto simp: seqset_ok_def)

lemma yields_search_command: "yields payload_ok search_command"
  unfolding search_command_def by (rule yields_map [OF yields_SearchCommandParser]) auto

section \<open>Between commands\<close>

text \<open>
  \<open>input_at cp bs\<close>: the parser stands before a command and \<open>bs\<close> is the input that command will be
  read from. It holds of a new parser and again after every command that was parsed.
\<close>

definition input_at :: "command_Parser \<Rightarrow> bytes \<Rightarrow> bool" where
  "input_at cp bs \<longleftrightarrow> (\<exists>cx. begin_command (rfc_parser cp) = (Inr (), parser_at cx bs))"

definition command_parser_on :: "(string \<Rightarrow> string option) option \<Rightarrow> bool \<Rightarrow> bytes \<Rightarrow> command_Parser" where
  "command_parser_on cb disable bs =
     NewCommandParser (NewScannerWithReader \<lparr>pending = bs, at_end = IO_EOF\<rparr>) cb disable"

lemma input_at_new: "input_at (command_parser_on cb d bs) bs"
proof -
  let ?p = "NewParserWithLiteralContinuationCb (NewScannerWithReader \<lparr>pending = bs, at_end = IO_EOF\<rparr>) cb"
  have "ResetOffsetCounter ?p = (Inr (), ?p)"
    by (simp add: ResetOffsetCounter_def scanner_ResetOffsetCounter_def NewScannerWithReader_def
        NewParserWithLiteralContinuationCb_def)
  moreover have "fst (Advance ?p) = Inr ()" by (rule Advance_Inr)
  ultimately have "begin_command ?p = (Inr (), parser_on cb bs)"
    by (cases "Advance ?p") (simp add: begin_command_def seq_simps parser_on_def)
  then show ?thesis
    by (auto simp: input_at_def command_parser_on_def NewCommandParser_def parser_on_at)
qed

lemma commands_new [simp]: "commands (command_parser_on cb d bs) = builders d"
  by (simp add: command_parser_on_def NewCommandParser_def)

lemma begin_command_at:
  "\<exists>cx'. begin_command (parser_at cx bs) = (Inr (), parser_at cx' (tl bs))"
proof -
  let ?cx = "cx\<lparr>cx_prev := currentToken (parser_at cx bs),
      cx_byte := (case bs of [] \<Rightarrow> cx_byte cx | c # _ \<Rightarrow> c), cx_off := (if tl bs = [] then 0 else 1)\<rparr>"
  have "begin_command (parser_at cx bs) = (Inr (), parser_at ?cx (tl bs))"
    by (cases bs; cases "tl bs")
      (simp_all add: parser_at.simps begin_command_def seq_simps ResetOffsetCounter_def scanner_ResetOffsetCounter_def
        Advance_def ScanToken_Cons ScanToken_Nil makeEOF_def byte_token_def)
  then show ?thesis by blast
qed

lemma input_at_next: "rfc_parser cp = parser_at cx bs \<Longrightarrow> input_at cp (tl bs)"
  using begin_command_at [of cx bs] by (simp add: input_at_def)

lemma run_rfc_yields:
  assumes "yields Q m" and "rfc_parser cp = parser_at cx bs" and "run_rfc m cp = (Inr x, cp')"
  shows "Q x \<and> (\<exists>cx' bs'. rfc_parser cp' = parser_at cx' bs') \<and> commands cp' = commands cp
    \<and> lastTag cp' = lastTag cp"
  using yieldsD [OF assms(1)] assms(2,3) by (auto simp: run_rfc_def split: prod.splits)

definition tag_ok :: "string \<Rightarrow> bool" where
  "tag_ok tag \<longleftrightarrow> tag \<noteq> [] \<and> (\<forall>c \<in> set tag. isTagChar (tok_type c))"

lemma yields_parseTag: "yields (\<lambda>tag. tag_ok (StringValue tag)) parseTag"
proof (rule yieldsI)
  fix cx bs s p'
  assume r: "parseTag (parser_at cx bs) = (Inr s, p')"
  have "yields_any parseTag" unfolding parseTag_def by (intro yield_intros)
  from yieldsD(2) [OF this r] have at: "\<exists>cx' bs'. p' = parser_at cx' bs'" .
  show "tag_ok (StringValue s) \<and> (\<exists>cx' bs'. p' = parser_at cx' bs')"
  proof (cases "\<exists>c cs. bs = c # cs \<and> isTagChar (tok_type c)")
    case True
    then obtain c cs where bs: "bs = c # cs" and c: "isTagChar (tok_type c)" by blast
    from r have "StringValue s = c # takeWhile (\<lambda>c. isTagChar (tok_type c)) cs"
      by (auto simp: bs c parseTag_def CollectBytesWhileMatchesWithPrevWith_def seq_simps ConsumeWith_at
          PreviousToken_at collect_bytes_at IntoString_def Let_def)
    with c at show ?thesis by (auto simp: tag_ok_def dest: set_takeWhileD)
  next
    case False
    with r have False
      by (cases bs) (simp_all add: parseTag_def seq_simps ConsumeWith_def currentToken_at)
    then show ?thesis ..
  qed
qed

lemma yields_command_name [yield_intros]: "yields_any command_name"
  unfolding command_name_def name_step_def by (intro yields_loop_any yield_intros)

lemma yields_parse_end: "yields_any parse_end"
  unfolding parse_end_def by (intro yield_intros)

lemma finish_ok:
  assumes "finish c cp = ((c', None), cp')" and "rfc_parser cp = parser_at cx bs"
  shows "c' = c \<and> (\<exists>rest. input_at cp' rest) \<and> lastTag cp' = lastTag cp"
proof -
  from assms(1) obtain u where "run_rfc parse_end cp = (Inr u, cp')" and c: "c' = c"
    by (auto simp: finish_def split: prod.splits sum.splits)
  from run_rfc_yields [OF yields_parse_end assms(2) this(1)] c show ?thesis
    using input_at_next by blast
qed

text \<open>A table whose builders return well-formed payloads only.\<close>

locale sound_table = command_table +
  assumes table_sound: "table name = Some builder \<Longrightarrow> yields payload_ok builder"
begin

lemma lookup_sound:
  "yields payload_ok (case table name of None \<Rightarrow> MakeErrorAtOffset msg off | Some builder \<Rightarrow> builder)"
  by (auto intro: yield_intros table_sound split: option.splits)

lemma parseCommand_sound:
  assumes "commands cp = table" and "rfc_parser cp = parser_at cx bs"
    and "parseCommand cp = (Inr payload, cp')"
  shows "payload_ok payload \<and> (\<exists>cx' bs'. rfc_parser cp' = parser_at cx' bs') \<and> lastTag cp' = lastTag cp"
proof -
  from assms(3) obtain name cp1 where n: "run_rfc command_name cp = (Inr name, cp1)"
    by (auto simp: parseCommand_def Let_def split: prod.splits sum.splits)
  from run_rfc_yields [OF yields_command_name assms(2) n] assms(1)
  obtain cx1 bs1 where 1: "rfc_parser cp1 = parser_at cx1 bs1" "commands cp1 = table" "lastTag cp1 = lastTag cp"
    by auto
  let ?m = "case table name of None \<Rightarrow>
      MakeErrorAtOffset (''unknown command '' @ [CHR 0x27] @ name @ [CHR 0x27])
        (Offset (currentToken (rfc_parser cp)))
    | Some builder \<Rightarrow> builder"
  from assms(3) n 1(2) have "run_rfc ?m (cp1\<lparr>lastCmd := name\<rparr>) = (Inr payload, cp')"
    by (simp add: parseCommand_def Let_def split: option.splits)
  from run_rfc_yields [OF lookup_sound _ this, of cx1 bs1] 1 show ?thesis by simp
qed

lemma parse_tagged_sound:
  assumes "commands cp = table" and "rfc_parser cp = parser_at cx bs"
    and "parse_tagged tag cp = ((c, None), cp')"
  shows "(\<exists>payload. c = \<lparr>Tag = tag, CmdPayload = Some payload\<rparr> \<and> payload_ok payload)
    \<and> lastTag cp' = tag \<and> (\<exists>rest. input_at cp' rest)"
proof -
  let ?sp = "run_rfc (Consume TokenTypeSP ''Expected space after tag'') (cp\<lparr>lastTag := tag\<rparr>)"
  from assms(3) obtain u cp1 where sp: "?sp = (Inr u, cp1)"
    by (auto simp: parse_tagged_def split: prod.splits sum.splits)
  from run_rfc_yields [OF yields_Consume _ sp, of cx bs] assms(1,2)
  obtain cx1 bs1 where 1: "rfc_parser cp1 = parser_at cx1 bs1" "commands cp1 = table" "lastTag cp1 = tag"
    by auto
  from assms(3) sp obtain payload cp2 where pc: "parseCommand cp1 = (Inr payload, cp2)"
    by (auto simp: parse_tagged_def split: prod.splits sum.splits)
  note 2 = parseCommand_sound [OF 1(2,1) pc]
  from assms(3) sp pc have "finish \<lparr>Tag = tag, CmdPayload = Some payload\<rparr> cp2 = ((c, None), cp')"
    by (simp add: parse_tagged_def)
  moreover from 2 obtain cx2 bs2 where "rfc_parser cp2 = parser_at cx2 bs2" by blast
  ultimately have "c = \<lparr>Tag = tag, CmdPayload = Some payload\<rparr> \<and> (\<exists>rest. input_at cp' rest) \<and> lastTag cp' = lastTag cp2"
    by (rule finish_ok)
  with 2 1(3) show ?thesis by simp
qed

lemma Parse_sound:
  assumes "input_at cp bs" and "commands cp = table" and "Parse cp = ((c, None), cp')"
  shows "(c = \<lparr>Tag = '''', CmdPayload = Some Done\<rparr>
      \<or> (\<exists>payload. c = \<lparr>Tag = lastTag cp', CmdPayload = Some payload\<rparr>
           \<and> tag_ok (lastTag cp') \<and> payload_ok payload))
    \<and> (\<exists>rest. input_at cp' rest)"
proof -
  let ?cp = "cp\<lparr>lastTag := '''', lastCmd := ''''\<rparr>"
  from assms(1) obtain cx where b: "begin_command (rfc_parser cp) = (Inr (), parser_at cx bs)"
    by (auto simp: input_at_def)
  from assms(3) obtain tag cp1 where t: "run_rfc (p_then begin_command parseTag) ?cp = (Inr tag, cp1)"
    by (auto simp: Parse_def split: prod.splits sum.splits)
  with b have "run_rfc parseTag (?cp\<lparr>rfc_parser := parser_at cx bs\<rparr>) = (Inr tag, cp1)"
    by (simp add: run_rfc_def p_then_def p_bind_def)
  from run_rfc_yields [OF yields_parseTag _ this, of cx bs] assms(2)
  obtain cx1 bs1 where 1: "rfc_parser cp1 = parser_at cx1 bs1" "commands cp1 = table" "tag_ok (StringValue tag)"
    by auto
  show ?thesis
  proof (cases "ToLower (StringValue tag) = ''done''")
    case True
    with assms(3) t have "finish \<lparr>Tag = '''', CmdPayload = Some Done\<rparr> (cp1\<lparr>lastCmd := ''done''\<rparr>) = ((c, None), cp')"
      by (simp add: Parse_def)
    from finish_ok [OF this] 1 show ?thesis by simp
  next
    case False
    with assms(3) t have "parse_tagged (StringValue tag) cp1 = ((c, None), cp')"
      by (simp add: Parse_def)
    from parse_tagged_sound [OF 1(2,1) this] 1(3) show ?thesis by auto
  qed
qed

end

lemmas builder_yields =
  yields_list_builders yields_AppendCommandParser yields_LoginCommandParser yields_RenameCommandParser
  yields_CopyCommandParser yields_MoveCommandParser yields_StatusCommandParser
  yields_StoreCommandParser yields_IDCommandParser yields_AuthenticateCommandParser
  yields_fetch_command yields_search_command yields_mailbox_command yields_return

definition uid_payload :: "Payload \<Rightarrow> bool" where
  "uid_payload p = payload_ok (UID p)"

lemma yields_uid_builders:
  "yields uid_payload CopyCommandParser" "yields uid_payload MoveCommandParser"
  "yields uid_payload StoreCommandParser" "yields uid_payload fetch_command"
  "yields uid_payload search_command"
proof -
  show "yields uid_payload CopyCommandParser"
    unfolding CopyCommandParser_def
    by (intro yields_then yields_space yields_bind [OF yields_Mailbox] yields_bind [OF yields_SeqSet]
        yields_return) (simp add: uid_payload_def)
  show "yields uid_payload MoveCommandParser"
    unfolding MoveCommandParser_def
    by (intro yields_then yields_space yields_bind [OF yields_Mailbox] yields_bind [OF yields_SeqSet]
        yields_return) (simp add: uid_payload_def)
  show "yields uid_payload StoreCommandParser"
    unfolding StoreCommandParser_def
    by (intro yields_then yields_space yields_bind [OF yields_SeqSet] yields_ConsumeBytesFold
        yields_bind_any [OF yields_store_action] yields_bind_any [OF yields_store_silent]
        yields_bind [OF yields_parseStoreFlags] yields_return) (simp add: uid_payload_def)
  show "yields uid_payload fetch_command"
    unfolding fetch_command_def
    by (rule yields_map [OF yields_FetchCommandParser]) (auto simp: seqset_ok_def uid_payload_def)
  show "yields uid_payload search_command"
    unfolding search_command_def
    by (rule yields_map [OF yields_SearchCommandParser]) (auto simp: uid_payload_def)
qed

lemma NewUIDCommandParser_yields:
  assumes "NewUIDCommandParser name = Some builder"
  shows "yields uid_payload builder"
  using map_of_SomeD [OF assms [unfolded NewUIDCommandParser_def]] yields_uid_builders by auto

lemma yields_UIDCommandParser: "yields payload_ok UIDCommandParser"
  unfolding UIDCommandParser_def
proof (intro yields_then yields_space yields_bind_any [OF yields_PreviousToken]
    yields_bind_any [OF yields_command_name] yields_if)
  show "yields payload_ok UIDExpungeCommandParser"
    unfolding UIDExpungeCommandParser_def
    by (intro yields_then yields_space yields_map [OF yields_SeqSet]) simp
  show "yields payload_ok (case NewUIDCommandParser cmd of
      None \<Rightarrow> MakeErrorAtOffset (msg cmd) (off prev) | Some builder \<Rightarrow> p_map UID builder)" for cmd msg prev off
    by (auto split: option.splits intro: yields_MakeErrorAtOffset
        yields_map [OF NewUIDCommandParser_yields] simp: uid_payload_def)
qed

lemma sound_table_map_of:
  assumes "command_table (map_of table)"
    and "list_all (\<lambda>(name, builder). yields payload_ok builder) table"
  shows "sound_table (map_of table)"
  using assms
  by (intro sound_table.intro sound_table_axioms.intro) (auto simp: list_all_iff dest: map_of_SomeD)

interpretation sound_builders: sound_table "builders d"
  using main_table.command_table_axioms [of d] unfolding builders_def
  by (rule sound_table_map_of)
    (simp add: mailbox_builders builder_yields yields_UIDCommandParser)

section \<open>Reading LOGIN commands back\<close>

lemma name_loop_unfold:
  "p_loop name_step acc p =
     (case name_step acc p of
        (Inl e, p') \<Rightarrow> (Inl e, p')
      | (Inr (Inr a), p') \<Rightarrow> (Inr a, p')
      | (Inr (Inl b'), p') \<Rightarrow> p_loop name_step b' p')"
proof (rule p_loop_unfold)
  show "parser_action (name_step b)" for b
    unfolding name_step_def by (intro safe_intros)
  show "progresses (\<lambda>x. \<exists>b'. x = Inl b') (name_step b)" for b
    unfolding name_step_def by (rule progresses_Matches) (auto intro!: safe_intros progresses_return)
qed

lemma name_at:
  assumes "\<forall>c \<in> set s. isByteAlpha c" and "\<not> isByteAlpha d"
  shows "p_loop name_step acc (parser_at cx (s @ d # rest)) =
     (Inr (acc @ ToLower s), parser_at (advs cx s (d # rest)) (d # rest))"
  using assms(1)
proof (induction s arbitrary: acc cx)
  case Nil
  from assms(2) show ?case
    by (subst name_loop_unfold) (simp add: name_step_def seq_simps Matches_at tok_type_classes ToLower_def)
next
  case (Cons c s)
  then have "name_step acc (parser_at cx ((c # s) @ d # rest)) =
      (Inr (Inl (acc @ [lower_byte c])), parser_at (adv cx c (s @ d # rest)) (s @ d # rest))"
    by (simp add: name_step_def seq_simps at_simps tok_type_classes ByteToLower_lower_byte)
  with Cons show ?case by (subst name_loop_unfold) (simp add: ToLower_def)
qed

lemma alpha_lower: "isByteAlpha (lower_byte c) \<Longrightarrow> isByteAlpha c"
  by (auto simp: isByteAlpha_def lower_byte_val split: if_splits)

lemma ParseAString_quote_at:
  "ParseAString (parser_at cx (quote s @ rest)) =
     (Inr \<lparr>StringValue = s, StringOffset = cx_off cx + 1\<rparr>, parser_at (advs cx (quote s) rest) rest)"
proof -
  have "TType (currentToken (parser_at cx (quote s @ rest))) = TokenTypeDQuote"
    by (simp add: quote_def currentToken_at tok_type_punct)
  then show ?thesis
    by (simp add: ParseAString_def ParseString_def seq_simps CurrentToken_at ParseQuoted_at)
qed

lemma space_at [at_simps]:
  "space msg (parser_at cx (CHR '' '' # cs)) = (Inr (), parser_at (adv cx (CHR '' '') cs) cs)"
  by (simp add: space_def Consume_at tok_type_punct)

lemma LoginCommandParser_at:
  "\<exists>cx'. LoginCommandParser (parser_at cx ('' '' @ quote u @ '' '' @ quote pw @ rest)) =
     (Inr (Login u pw), parser_at cx' rest)"
  by (intro exI) (simp add: LoginCommandParser_def seq_simps space_at ParseAString_quote_at)

lemma parseTag_at:
  assumes "tag_ok tag" and "\<not> isTagChar (tok_type d)"
  shows "parseTag (parser_at cx (tag @ d # rest)) =
    (Inr \<lparr>StringValue = tag, StringOffset = cx_off cx\<rparr>, parser_at (advs cx tag (d # rest)) (d # rest))"
proof -
  from assms(1) obtain c s where tag: "tag = c # s" and c: "isTagChar (tok_type c)"
    "\<forall>c \<in> set s. isTagChar (tok_type c)" by (cases tag) (auto simp: tag_ok_def)
  from CollectBytesWhileMatchesWithPrevWith_at [OF _ c(2), of "d # rest" "adv cx c (s @ d # rest)"] assms(2) c
  show ?thesis by (simp add: parseTag_def tag seq_simps ConsumeWith_at IntoString_def)
qed

definition login_line :: "string \<Rightarrow> string \<Rightarrow> string \<Rightarrow> string \<Rightarrow> bytes" where
  "login_line tag name u pw =
     tag @ '' '' @ name @ '' '' @ quote u @ '' '' @ quote pw @ [CHR 0x0D, CHR 0x0A]"

definition login_ok :: "string \<Rightarrow> string \<Rightarrow> bool" where
  "login_ok tag name \<longleftrightarrow> tag_ok tag \<and> ToLower tag \<noteq> ''done'' \<and> ToLower name = ''login''"

lemma Parse_login:
  assumes "input_at cp (login_line tag name u pw @ rest)" and "commands cp = builders d"
    and "login_ok tag name"
  shows "\<exists>cp'. Parse cp = ((\<lparr>Tag = tag, CmdPayload = Some (Login u pw)\<rparr>, None), cp')
    \<and> input_at cp' rest \<and> commands cp' = builders d"
proof -
  let ?args = "'' '' @ quote u @ '' '' @ quote pw @ [CHR 0x0D, CHR 0x0A] @ rest"
  from assms(1) obtain cx where b: "begin_command (rfc_parser cp)
      = (Inr (), parser_at cx (tag @ CHR '' '' # name @ ?args))"
    by (auto simp: input_at_def login_line_def)
  have sp: "\<not> isTagChar (tok_type CHR '' '')"
    by (simp add: isTagChar_def tok_type_punct(3) [THEN iffD2, OF refl] token_class_defs)
  have "\<forall>c \<in> set (ToLower name). isByteAlpha c"
    using assms(3) by (simp add: login_ok_def isByteAlpha_def)
  then have name: "\<forall>c \<in> set name. isByteAlpha c" by (auto simp: ToLower_def dest: alpha_lower)
  have cn: "command_name (parser_at cx (name @ ?args)) =
      (Inr ''login'', parser_at (advs cx name ?args) ?args)" for cx
    using name_at [OF name, of "CHR '' ''" "[]" cx "tl ?args"] assms(3)
    by (simp add: command_name_def login_ok_def isByteAlpha_def)
  have lk: "builders d ''login'' = Some LoginCommandParser" by (simp add: builders_def)
  let ?cx = "advs (adv (advs cx tag (CHR '' '' # name @ ?args)) CHR '' '' (name @ ?args)) name ?args"
  obtain cx' where lg: "LoginCommandParser (parser_at ?cx ?args) =
      (Inr (Login u pw), parser_at cx' ([CHR 0x0D, CHR 0x0A] @ rest))"
    using LoginCommandParser_at [of ?cx u pw "[CHR 0x0D, CHR 0x0A] @ rest"] by auto
  let ?cp = "cp\<lparr>lastTag := tag, lastCmd := ''login'', rfc_parser := parser_at (adv cx' CHR 0x0D (CHR 0x0A # rest)) (CHR 0x0A # rest)\<rparr>"
  have "Parse cp = ((\<lparr>Tag = tag, CmdPayload = Some (Login u pw)\<rparr>, None), ?cp)"
    using assms(2,3) b parseTag_at [OF _ sp, of tag cx "name @ ?args"] cn lk lg
    by (simp add: Parse_def parse_tagged_def parseCommand_def finish_def run_rfc_def parse_end_def
        login_ok_def seq_simps at_simps tok_type_punct currentToken_at)
  moreover have "input_at ?cp rest" using input_at_next [of ?cp _ "CHR 0x0A # rest"] by simp
  ultimately show ?thesis using assms(2) by auto
qed

text \<open>The results of \<open>n\<close> calls of \<open>Parse\<close> in a row, as the session's command reader makes them.\<close>

fun parse_many :: "nat \<Rightarrow> command_Parser \<Rightarrow> (Command \<times> rfc_error option) list" where
  "parse_many 0 cp = []"
| "parse_many (Suc n) cp = (let (r, cp') = Parse cp in r # parse_many n cp')"

lemma parse_many_logins:
  assumes "\<forall>(tag, name, u, pw) \<in> set ls. login_ok tag name"
    and "input_at cp (concat (map (\<lambda>(tag, name, u, pw). login_line tag name u pw) ls) @ rest)"
    and "commands cp = builders d"
  shows "parse_many (length ls) cp =
    map (\<lambda>(tag, name, u, pw). (\<lparr>Tag = tag, CmdPayload = Some (Login u pw)\<rparr>, None)) ls"
  using assms
proof (induction ls arbitrary: cp)
  case Nil
  show ?case by simp
next
  case (Cons l ls)
  obtain tag name u pw where l: "l = (tag, name, u, pw)" by (cases l) auto
  from Cons.prems(1) have ok: "login_ok tag name" "\<forall>(tag, name, u, pw) \<in> set ls. login_ok tag name"
    by (auto simp: l)
  from Cons.prems(2) have "input_at cp (login_line tag name u pw
      @ concat (map (\<lambda>(tag, name, u, pw). login_line tag name u pw) ls) @ rest)" by (simp add: l)
  from Parse_login [OF this Cons.prems(3) ok(1)] Cons.IH [OF ok(2)] show ?case by (auto simp: l)
qed

section \<open>Properties\<close>


definition crlf :: string where
  "crlf = [CHR 0x0D, CHR 0x0A]"


text \<open>
  C3: a stream of LOGIN commands is read back as it was written: for any user names and passwords
  (quoted, whatever bytes they hold), any tags and any capitalisation of LOGIN, the \<open>n\<close>-th call of
  \<open>Parse\<close> returns the \<open>n\<close>-th command, and no byte of one command leaks into the next.
\<close>

theorem Parse_login_stream:
  assumes "\<forall>(tag, name, u, pw) \<in> set ls. login_ok tag name"
  shows "parse_many (length ls) (command_parser_on cb d
      (concat (map (\<lambda>(tag, name, u, pw). login_line tag name u pw) ls) @ rest)) =
    map (\<lambda>(tag, name, u, pw). (\<lparr>Tag = tag, CmdPayload = Some (Login u pw)\<rparr>, None)) ls"
  using assms input_at_new commands_new by (rule parse_many_logins)

theorem Parse_login_stream_witness:
  "parse_many 2 (command_parser_on None True
      (login_line ''a1'' ''LoGiN'' ''user'' ''p w'' @ login_line ''a2'' ''login'' '''' ''x'')) =
    [(\<lparr>Tag = ''a1'', CmdPayload = Some (Login ''user'' ''p w'')\<rparr>, None),
     (\<lparr>Tag = ''a2'', CmdPayload = Some (Login '''' ''x'')\<rparr>, None)]"
proof -
  have "login_ok ''a1'' ''LoGiN''" and "login_ok ''a2'' ''login''" by code_simp+
  then have "\<forall>(tag, name, u, pw) \<in> set [(''a1'', ''LoGiN'', ''user'', ''p w''), (''a2'', ''login'', '''', ''x'')].
      login_ok tag name" by simp
  from Parse_login_stream [OF this, of None True "[]"] show ?thesis by (simp add: numeral_2_eq_2)
qed

section \<open>What happens after an error\<close>

text \<open>
  A command with trailing garbage: the error is reported, but the command that is returned with it
  has lost its tag, although \<open>LastParsedTag\<close> still knows it.
\<close>

lemma Parse_trailing_garbage_loses_tag:
  "map_prod fst lastTag (Parse (command_parser_on None False (''a1 noop x'' @ crlf))) =
     (\<lparr>Tag = '''', CmdPayload = None\<rparr>, ''a1'')"
  by code_simp

text \<open>
  A line that ends in a bare LF: \<open>Parse\<close> fails at the LF, which the scanner has consumed already, and
  \<open>ConsumeInvalidInput\<close> then drops the whole next command.
\<close>

lemma ConsumeInvalidInput_drops_next_command:
  "pending (source (scanner (rfc_parser (snd (ConsumeInvalidInput (snd (Parse
     (command_parser_on None False (''a1 noop'' @ [CHR 0x0A] @ ''a2 noop'' @ crlf @ ''a3 noop'' @ crlf)))))))))
   = ''a3 noop'' @ crlf"
  by code_simp

end
