(* ===== verification/Imap_Flags.thy ===== *)
theory Imap_Flags
  imports Go_Prelude "HOL-Library.AList" "HOL-Library.Char_ord" "HOL-Library.List_Lexorder"
begin

text \<open>
  Flag sets (\<open>imap/flags.go\<close>). A \<open>FlagSet\<close> is a Go map from the lower-case spelling of a flag to the
  spelling it was added with; it is modelled by an association list. The order of the list stands
  for the iteration order of the map, and nothing that is proved depends on it. The \<open>...ToSelf\<close> and
  \<open>...FromSelf\<close> methods mutate their receiver: they return it updated.
\<close>

section \<open>Flags\<close>

definition FlagSeen :: string where "FlagSeen = CHR 0x5C # ''Seen''"
definition FlagAnswered :: string where "FlagAnswered = CHR 0x5C # ''Answered''"
definition FlagFlagged :: string where "FlagFlagged = CHR 0x5C # ''Flagged''"
definition FlagDeleted :: string where "FlagDeleted = CHR 0x5C # ''Deleted''"
definition FlagDraft :: string where "FlagDraft = CHR 0x5C # ''Draft''"
definition FlagRecent :: string where "FlagRecent = CHR 0x5C # ''Recent''"

definition FlagSeenLowerCase :: string where "FlagSeenLowerCase = CHR 0x5C # ''seen''"
definition FlagDeletedLowerCase :: string where "FlagDeletedLowerCase = CHR 0x5C # ''deleted''"
definition FlagRecentLowerCase :: string where "FlagRecentLowerCase = CHR 0x5C # ''recent''"

lemma lower_case_flags [simp]:
  "ToLower FlagSeen = FlagSeenLowerCase" "ToLower FlagDeleted = FlagDeletedLowerCase"
  "ToLower FlagRecent = FlagRecentLowerCase"
  by code_simp+

section \<open>Flag sets\<close>

type_synonym FlagSet = "(string \<times> string) list"

definition Values :: "FlagSet \<Rightarrow> string list" where
  "Values fs = map snd fs"

definition ContainsUnchecked :: "FlagSet \<Rightarrow> string \<Rightarrow> bool" where
  "ContainsUnchecked fs flag \<longleftrightarrow> map_of fs flag \<noteq> None"

definition Contains :: "FlagSet \<Rightarrow> string \<Rightarrow> bool" where
  "Contains fs flag \<longleftrightarrow> map_of fs (ToLower flag) \<noteq> None"

text \<open>The loops of the methods \<open>add\<close> and \<open>remove\<close>.\<close>

fun flags_add :: "FlagSet \<Rightarrow> string list \<Rightarrow> FlagSet" where
  "flags_add fs [] = fs"
| "flags_add fs (flag # flags) =
     (let flagLower = ToLower flag in
      if ContainsUnchecked fs flagLower then flags_add fs flags
      else flags_add (AList.update flagLower flag fs) flags)"

fun flags_remove :: "FlagSet \<Rightarrow> string list \<Rightarrow> FlagSet" where
  "flags_remove fs [] = fs"
| "flags_remove fs (flag # flags) =
     (let flagLower = ToLower flag in
      if \<not> ContainsUnchecked fs flagLower then flags_remove fs flags
      else flags_remove (AList.delete flagLower fs) flags)"

definition NewFlagSet :: "string list \<Rightarrow> FlagSet" where
  "NewFlagSet flags = flags_add [] flags"

definition Len :: "FlagSet \<Rightarrow> nat" where
  "Len fs = length fs"

definition ToSlice :: "FlagSet \<Rightarrow> string list" where
  "ToSlice fs = sort (Values fs)"

definition ContainsAny :: "FlagSet \<Rightarrow> string list \<Rightarrow> bool" where
  "ContainsAny fs flags \<longleftrightarrow> find (\<lambda>f. Contains fs f) flags \<noteq> None"

definition ContainsAnyUnchecked :: "FlagSet \<Rightarrow> string list \<Rightarrow> bool" where
  "ContainsAnyUnchecked fs flags \<longleftrightarrow> find (\<lambda>f. ContainsUnchecked fs f) flags \<noteq> None"

definition ContainsAll :: "FlagSet \<Rightarrow> string list \<Rightarrow> bool" where
  "ContainsAll fs flags \<longleftrightarrow> find (\<lambda>f. \<not> Contains fs f) flags = None"

definition FlagSet_Equals :: "FlagSet \<Rightarrow> FlagSet \<Rightarrow> bool" where
  "FlagSet_Equals fs otherFs \<longleftrightarrow>
     Len fs = Len otherFs \<and> list_all (\<lambda>key. map_of otherFs key \<noteq> None) (map fst fs)"

definition Clone :: "FlagSet \<Rightarrow> FlagSet" where
  "Clone fs = NewFlagSet (ToSlice fs)"

definition Add :: "FlagSet \<Rightarrow> string list \<Rightarrow> FlagSet" where
  "Add fs flags = flags_add (Clone fs) flags"

definition AddToSelf :: "FlagSet \<Rightarrow> string list \<Rightarrow> FlagSet" where
  "AddToSelf fs flags = flags_add fs flags"

definition AddFlagSet :: "FlagSet \<Rightarrow> FlagSet \<Rightarrow> FlagSet" where
  "AddFlagSet fs flagset = Add fs (Values flagset)"

definition AddFlagSetToSelf :: "FlagSet \<Rightarrow> FlagSet \<Rightarrow> FlagSet" where
  "AddFlagSetToSelf fs flagset = flags_add fs (Values flagset)"

definition Remove :: "FlagSet \<Rightarrow> string list \<Rightarrow> FlagSet" where
  "Remove fs flags = flags_remove (Clone fs) flags"

definition RemoveFlagSet :: "FlagSet \<Rightarrow> FlagSet \<Rightarrow> FlagSet" where
  "RemoveFlagSet fs flagset = Remove fs (Values flagset)"

definition RemoveFromSelf :: "FlagSet \<Rightarrow> string list \<Rightarrow> FlagSet" where
  "RemoveFromSelf fs flags = flags_remove fs flags"

text \<open>The method calls \<open>Remove\<close>, which changes a clone, and drops the clone.\<close>

definition RemoveFlagSetFromSelf :: "FlagSet \<Rightarrow> FlagSet \<Rightarrow> FlagSet" where
  "RemoveFlagSetFromSelf fs flagset = (let _ = Remove fs (Values flagset) in fs)"

definition FlagSet_Set :: "FlagSet \<Rightarrow> string \<Rightarrow> bool \<Rightarrow> FlagSet" where
  "FlagSet_Set fs flag on = (if on then Add fs [flag] else Remove fs [flag])"

definition SetOnSelf :: "FlagSet \<Rightarrow> string \<Rightarrow> bool \<Rightarrow> FlagSet" where
  "SetOnSelf fs flag on = (if on then AddToSelf fs [flag] else RemoveFromSelf fs [flag])"

section \<open>The invariant\<close>

text \<open>Keys are distinct, and every key is the lower-case spelling of its value.\<close>

definition flagset_ok :: "FlagSet \<Rightarrow> bool" where
  "flagset_ok fs \<longleftrightarrow> distinct (map fst fs) \<and> (\<forall>(k, v) \<in> set fs. k = ToLower v)"

text \<open>What a flag set stands for: the set of flags in it, up to case.\<close>

definition flag_keys :: "FlagSet \<Rightarrow> string set" where
  "flag_keys fs = fst ` set fs"

lemma flagset_ok_Nil [simp]: "flagset_ok []"
  by (simp add: flagset_ok_def)

lemma ContainsUnchecked_keys: "ContainsUnchecked fs k \<longleftrightarrow> k \<in> flag_keys fs"
  by (simp add: ContainsUnchecked_def flag_keys_def map_of_eq_None_iff)

lemma Contains_keys: "Contains fs f \<longleftrightarrow> ToLower f \<in> flag_keys fs"
  by (simp add: Contains_def flag_keys_def map_of_eq_None_iff)

lemma set_update: "set (AList.update k v fs) \<subseteq> insert (k, v) (set fs)"
  by (induction fs) auto

lemma flagset_ok_update:
  "flagset_ok fs \<Longrightarrow> k = ToLower v \<Longrightarrow> flagset_ok (AList.update k v fs)"
  unfolding flagset_ok_def using set_update [of k v fs] by (auto simp: distinct_update)

lemma flagset_ok_delete: "flagset_ok fs \<Longrightarrow> flagset_ok (AList.delete k fs)"
  unfolding flagset_ok_def using distinct_delete [of fs k] by (auto simp: AList.delete_eq)

lemma keys_update [simp]: "flag_keys (AList.update k v fs) = insert k (flag_keys fs)"
  by (simp add: flag_keys_def dom_update)

lemma keys_delete [simp]: "flag_keys (AList.delete k fs) = flag_keys fs - {k}"
  by (auto simp: flag_keys_def AList.delete_eq)

lemma flagset_ok_add: "flagset_ok fs \<Longrightarrow> flagset_ok (flags_add fs flags)"
  by (induction fs flags rule: flags_add.induct) (auto simp: Let_def flagset_ok_update)

lemma flagset_ok_remove: "flagset_ok fs \<Longrightarrow> flagset_ok (flags_remove fs flags)"
  by (induction fs flags rule: flags_remove.induct) (auto simp: Let_def flagset_ok_delete)

lemma keys_add: "flag_keys (flags_add fs flags) = flag_keys fs \<union> ToLower ` set flags"
  by (induction fs flags rule: flags_add.induct) (auto simp: Let_def ContainsUnchecked_keys)

lemma keys_remove: "flag_keys (flags_remove fs flags) = flag_keys fs - ToLower ` set flags"
  by (induction fs flags rule: flags_remove.induct) (auto simp: Let_def ContainsUnchecked_keys)

lemma flagset_ok_NewFlagSet: "flagset_ok (NewFlagSet flags)"
  by (simp add: NewFlagSet_def flagset_ok_add)

lemma keys_NewFlagSet: "flag_keys (NewFlagSet flags) = ToLower ` set flags"
  by (simp add: NewFlagSet_def keys_add) (simp add: flag_keys_def)

lemma keys_Values: "flagset_ok fs \<Longrightarrow> ToLower ` set (Values fs) = flag_keys fs"
  unfolding flagset_ok_def Values_def flag_keys_def by force

lemma keys_Clone: "flagset_ok fs \<Longrightarrow> flag_keys (Clone fs) = flag_keys fs"
  by (simp add: Clone_def keys_NewFlagSet ToSlice_def keys_Values)

lemma flagset_ok_Clone: "flagset_ok (Clone fs)"
  by (simp add: Clone_def flagset_ok_NewFlagSet)

text \<open>The spelling a flag was first added with stays.\<close>

lemma map_of_add:
  "map_of (flags_add fs flags) k =
     (case map_of fs k of Some v \<Rightarrow> Some v | None \<Rightarrow> find (\<lambda>f. ToLower f = k) flags)"
  by (induction fs flags rule: flags_add.induct)
    (auto simp: Let_def ContainsUnchecked_def update_conv' split: option.splits)

lemma Values_distinct: "flagset_ok fs \<Longrightarrow> distinct (map ToLower (Values fs))"
proof -
  assume ok: "flagset_ok fs"
  then have "map ToLower (Values fs) = map fst fs"
    by (auto simp: flagset_ok_def Values_def intro!: map_cong)
  with ok show ?thesis by (simp add: flagset_ok_def)
qed

lemma Values_iff: "flagset_ok fs \<Longrightarrow> v \<in> set (Values fs) \<longleftrightarrow> map_of fs (ToLower v) = Some v"
proof -
  assume ok: "flagset_ok fs"
  then have "v \<in> set (Values fs) \<longleftrightarrow> (ToLower v, v) \<in> set fs"
    by (force simp: Values_def flagset_ok_def)
  with ok show ?thesis by (simp add: flagset_ok_def)
qed

lemma find_Values:
  assumes "flagset_ok fs" and "set vs = set (Values fs)"
  shows "find (\<lambda>f. ToLower f = k) vs = map_of fs k"
proof (cases "find (\<lambda>f. ToLower f = k) vs")
  case None
  then have no: "\<forall>v \<in> set (Values fs). ToLower v \<noteq> k" using assms(2) by (simp add: find_None_iff)
  have "map_of fs k = None"
  proof (cases "map_of fs k")
    case (Some v)
    then have "k = ToLower v" using assms(1) map_of_SomeD [OF Some] by (auto simp: flagset_ok_def)
    with Some Values_iff [OF assms(1), of v] no show ?thesis by auto
  qed
  with None show ?thesis by simp
next
  case (Some w)
  then have "w \<in> set vs" "ToLower w = k" by (auto simp: find_Some_iff)
  with assms(2) Values_iff [OF assms(1)] Some show ?thesis by auto
qed

lemma map_of_Clone: "flagset_ok fs \<Longrightarrow> map_of (Clone fs) = map_of fs"
  by (rule ext) (simp add: Clone_def NewFlagSet_def map_of_add find_Values ToSlice_def)

lemma ToSlice_ext:
  assumes "flagset_ok fs" and "flagset_ok fs'" and "map_of fs = map_of fs'"
  shows "ToSlice fs = ToSlice fs'"
proof -
  have d: "distinct (Values gs)" if "flagset_ok gs" for gs
    using Values_distinct [OF that] by (simp add: distinct_map)
  have "set (Values fs) = set (Values fs')"
    using Values_iff [OF assms(1)] Values_iff [OF assms(2)] assms(3) by auto
  then show ?thesis
    unfolding ToSlice_def by (intro sorted_distinct_set_unique) (simp_all add: d assms)
qed

section \<open>The contract of flag sets\<close>

text \<open>
  What the users of flag sets rely on: membership up to case, how adding and removing changes it,
  and that a first spelling stays.
\<close>

locale flag_set =
  fixes valid :: "'f \<Rightarrow> bool" and member :: "'f \<Rightarrow> string \<Rightarrow> bool"
    and add :: "'f \<Rightarrow> string list \<Rightarrow> 'f" and remove :: "'f \<Rightarrow> string list \<Rightarrow> 'f"
  assumes valid_add: "valid fs \<Longrightarrow> valid (add fs flags)"
    and valid_remove: "valid fs \<Longrightarrow> valid (remove fs flags)"
    and member_fold: "EqualFold f g \<Longrightarrow> member fs f \<longleftrightarrow> member fs g"
    and member_add: "valid fs \<Longrightarrow> member (add fs flags) f \<longleftrightarrow> member fs f \<or> (\<exists>g \<in> set flags. EqualFold g f)"
    and member_remove: "valid fs \<Longrightarrow> member (remove fs flags) f \<longleftrightarrow> member fs f \<and> \<not> (\<exists>g \<in> set flags. EqualFold g f)"
begin

lemma member_switch:
  "valid fs \<Longrightarrow> member (if on then add fs [flag] else remove fs [flag]) f \<longleftrightarrow>
     (if EqualFold flag f then on else member fs f)"
  by (simp add: member_add member_remove)

lemma member_add_remove:
  "valid fs \<Longrightarrow> set flags' \<subseteq> set flags \<Longrightarrow> member (add (remove fs flags) flags') f
     \<Longrightarrow> member (add fs flags') f"
  by (auto simp: member_add member_remove valid_remove)

end

lemma EqualFold_iff: "EqualFold f g \<longleftrightarrow> ToLower f = ToLower g"
  by (simp add: EqualFold_def)

lemma fold_image: "ToLower f \<in> ToLower ` set flags \<longleftrightarrow> (\<exists>g \<in> set flags. EqualFold g f)"
  unfolding EqualFold_iff by (auto simp: image_iff eq_commute)

interpretation fset_copy: flag_set flagset_ok Contains Add Remove
  by unfold_locales
    (auto simp: Add_def Remove_def flagset_ok_add flagset_ok_remove flagset_ok_Clone Contains_keys
      keys_add keys_remove keys_Clone EqualFold_iff fold_image [unfolded EqualFold_iff])

interpretation fset_self: flag_set flagset_ok Contains AddToSelf RemoveFromSelf
  by unfold_locales
    (auto simp: AddToSelf_def RemoveFromSelf_def flagset_ok_add flagset_ok_remove Contains_keys
      keys_add keys_remove EqualFold_iff fold_image [unfolded EqualFold_iff])

lemma Contains_Set:
  "flagset_ok fs \<Longrightarrow> Contains (FlagSet_Set fs flag on) f = (if EqualFold flag f then on else Contains fs f)"
  "flagset_ok fs \<Longrightarrow> Contains (SetOnSelf fs flag on) f = (if EqualFold flag f then on else Contains fs f)"
  unfolding FlagSet_Set_def SetOnSelf_def by (rule fset_copy.member_switch fset_self.member_switch, assumption)+

section \<open>Properties\<close>

lemma FlagSet_Equals_keys:
  assumes "flagset_ok fs" and "flagset_ok fs'"
  shows "FlagSet_Equals fs fs' \<longleftrightarrow> flag_keys fs = flag_keys fs'"
proof -
  have len: "Len gs = card (flag_keys gs)" and fin: "finite (flag_keys gs)" if "flagset_ok gs" for gs
    using that distinct_card [of "map fst gs"] by (auto simp: Len_def flag_keys_def flagset_ok_def)
  have "list_all (\<lambda>key. map_of fs' key \<noteq> None) (map fst fs) \<longleftrightarrow> flag_keys fs \<subseteq> flag_keys fs'"
    by (auto simp: list_all_iff map_of_eq_None_iff flag_keys_def)
  then show ?thesis
    using card_subset_eq [OF fin [OF assms(2)], of "flag_keys fs"]
    by (auto simp: FlagSet_Equals_def len assms)
qed

text \<open>
  C14: a flag set is a set of flags up to case. Over the set of lower-case flags it stands for, Add is
  union, Remove is difference, Contains is membership, Equals is equality and Len the cardinality;
  Add and Remove give valid sets again, and the spelling of a flag that is already present does not
  change when the flag is added once more.
\<close>

theorem FlagSet_refines_set:
  assumes "flagset_ok fs" and "flagset_ok fs'"
  shows "flagset_ok (Add fs flags) \<and> flagset_ok (Remove fs flags)
    \<and> flag_keys (Add fs flags) = flag_keys fs \<union> ToLower ` set flags
    \<and> flag_keys (Remove fs flags) = flag_keys fs - ToLower ` set flags
    \<and> flag_keys (AddFlagSet fs fs') = flag_keys fs \<union> flag_keys fs'
    \<and> flag_keys (RemoveFlagSet fs fs') = flag_keys fs - flag_keys fs'
    \<and> (Contains fs f \<longleftrightarrow> ToLower f \<in> flag_keys fs)
    \<and> (FlagSet_Equals fs fs' \<longleftrightarrow> flag_keys fs = flag_keys fs')
    \<and> Len fs = card (flag_keys fs)
    \<and> (k \<in> flag_keys fs \<longrightarrow> map_of (Add fs flags) k = map_of fs k)"
proof (intro conjI impI)
  show "Len fs = card (flag_keys fs)"
    using assms(1) distinct_card [of "map fst fs"] by (auto simp: Len_def flag_keys_def flagset_ok_def)
  show "k \<in> flag_keys fs \<Longrightarrow> map_of (Add fs flags) k = map_of fs k"
    by (auto simp: Add_def map_of_add map_of_Clone assms(1) ContainsUnchecked_keys [symmetric]
        ContainsUnchecked_def)
qed (simp_all add: assms fset_copy.valid_add fset_copy.valid_remove Add_def Remove_def AddFlagSet_def
    RemoveFlagSet_def keys_add keys_remove keys_Clone keys_Values Contains_keys FlagSet_Equals_keys
    flagset_ok_add flagset_ok_remove flagset_ok_Clone)

theorem FlagSet_refines_set_witness:
  "flagset_ok (NewFlagSet [FlagSeen, ''Work'']) \<and> flagset_ok (NewFlagSet [''WORK''])
    \<and> flag_keys (RemoveFlagSet (NewFlagSet [FlagSeen, ''Work'']) (NewFlagSet [''WORK''])) = {FlagSeenLowerCase}"
proof -
  have 1: "flagset_ok (NewFlagSet [FlagSeen, ''Work''])" and 2: "flagset_ok (NewFlagSet [''WORK''])"
    by code_simp+
  have "flag_keys (NewFlagSet [FlagSeen, ''Work'']) - flag_keys (NewFlagSet [''WORK'']) = {FlagSeenLowerCase}"
    by code_simp
  with FlagSet_refines_set [OF 1 2, of "[]" "[]" "[]"] 1 2 show ?thesis by simp
qed

text \<open>
  C32: two flag sets with the same content give the same slice, whatever the iteration order of the
  maps; the slice is sorted and has no duplicates, not even up to case, and a set rebuilt from its
  slice (what Clone does) has the same content, spelling included.
\<close>

theorem ToSlice_canonical:
  assumes "flagset_ok fs" and "flagset_ok fs'" and "map_of fs = map_of fs'"
  shows "ToSlice fs = ToSlice fs' \<and> sorted (ToSlice fs) \<and> distinct (map ToLower (ToSlice fs))
    \<and> map_of (NewFlagSet (ToSlice fs)) = map_of fs"
proof (intro conjI)
  show "ToSlice fs = ToSlice fs'" using assms by (rule ToSlice_ext)
  show "sorted (ToSlice fs)" by (simp add: ToSlice_def)
  show "distinct (map ToLower (ToSlice fs))"
    using Values_distinct [OF assms(1)] by (simp add: ToSlice_def distinct_map)
  show "map_of (NewFlagSet (ToSlice fs)) = map_of fs"
    using map_of_Clone [OF assms(1)] by (simp add: Clone_def)
qed

theorem ToSlice_canonical_witness:
  "ToSlice (NewFlagSet [''b'', FlagSeen, ''A'']) = ToSlice (NewFlagSet [FlagSeen, ''A'', ''b''])
    \<and> sorted (ToSlice (NewFlagSet [''b'', FlagSeen, ''A'']))"
proof -
  have ok: "flagset_ok (NewFlagSet [''b'', FlagSeen, ''A''])" "flagset_ok (NewFlagSet [FlagSeen, ''A'', ''b''])"
    by (rule flagset_ok_NewFlagSet)+
  have "map_of (NewFlagSet [''b'', FlagSeen, ''A'']) = map_of (NewFlagSet [FlagSeen, ''A'', ''b''])"
  proof -
    have "NewFlagSet [''b'', FlagSeen, ''A''] = [(''b'', ''b''), (FlagSeenLowerCase, FlagSeen), (''a'', ''A'')]"
      and "NewFlagSet [FlagSeen, ''A'', ''b''] = [(FlagSeenLowerCase, FlagSeen), (''a'', ''A''), (''b'', ''b'')]"
      by code_simp+
    then show ?thesis by (simp add: fun_eq_iff FlagSeenLowerCase_def)
  qed
  from ToSlice_canonical [OF ok this] show ?thesis by blast
qed

text \<open>
  \<open>RemoveFlagSetFromSelf\<close> leaves its receiver as it is, whatever flags it is given.
\<close>

lemma RemoveFlagSetFromSelf_no_effect:
  "Contains (RemoveFlagSetFromSelf (NewFlagSet [''Work'']) (NewFlagSet [''Work''])) ''Work''"
  by code_simp

end
