(* ===== verification/Imap_SeqSet.thy ===== *)
theory Imap_SeqSet
  imports Command_Syntax
begin

text \<open>
  Sets of sequence numbers and UIDs as the server prints them in COPYUID, APPENDUID and SEARCH
  responses (\<open>imap/seqset.go\<close>). \<open>SeqID\<close> and \<open>UID\<close> are 32-bit integers.
\<close>

section \<open>Definitions\<close>

type_synonym SeqID = uint32
type_synonym UID = uint32

record SeqVal =
  sv_Begin :: SeqID
  sv_End :: SeqID

definition canCombine :: "SeqVal \<Rightarrow> SeqID \<Rightarrow> bool" where
  "canCombine seqval val \<longleftrightarrow> val = sv_End seqval + 1"

definition show_uint32 :: "uint32 \<Rightarrow> string" where
  "show_uint32 n = show_nat (unat n)"

definition SeqVal_String :: "SeqVal \<Rightarrow> string" where
  "SeqVal_String seqval =
     (if sv_End seqval > sv_Begin seqval
      then show_uint32 (sv_Begin seqval) @ '':'' @ show_uint32 (sv_End seqval)
      else show_uint32 (sv_End seqval))"

text \<open>One round of the loop of \<open>NewSeqSet\<close>.\<close>

definition seqset_step :: "SeqVal list \<Rightarrow> SeqID \<Rightarrow> SeqVal list" where
  "seqset_step res val =
     (let n = length res in
      if n > 0 then
        if canCombine (res ! (n - 1)) val then res[n - 1 := (res ! (n - 1))\<lparr>sv_End := val\<rparr>]
        else res @ [\<lparr>sv_Begin = val, sv_End = val\<rparr>]
      else res @ [\<lparr>sv_Begin = val, sv_End = val\<rparr>])"

definition NewSeqSet :: "SeqID list \<Rightarrow> SeqVal list" where
  "NewSeqSet s = foldl seqset_step [] (sort s)"

definition NewSeqSetFromUID :: "UID list \<Rightarrow> SeqVal list" where
  "NewSeqSetFromUID s = NewSeqSet (map (\<lambda>t. t) s)"

definition SeqSet_String :: "SeqVal list \<Rightarrow> string" where
  "SeqSet_String s = Join (map SeqVal_String s) '',''"

section \<open>Lemmas\<close>

text \<open>The numbers a range stands for, in order.\<close>

definition seqval_expand :: "SeqVal \<Rightarrow> nat list" where
  "seqval_expand v = [unat (sv_Begin v)..<Suc (unat (sv_End v))]"

definition seqval_ok :: "SeqVal \<Rightarrow> bool" where
  "seqval_ok v \<longleftrightarrow> sv_Begin v \<le> sv_End v"

text \<open>Ranges in order, and no range could be merged with the next one.\<close>

definition seqset_minimal :: "SeqVal list \<Rightarrow> bool" where
  "seqset_minimal s \<longleftrightarrow> successively (\<lambda>v w. sv_End v \<le> sv_Begin w
     \<and> unat (sv_Begin w) \<noteq> unat (sv_End v) + 1) s"

lemma seqset_step_snoc:
  "seqset_step (res @ [v]) val =
     (if canCombine v val then res @ [v\<lparr>sv_End := val\<rparr>]
      else res @ [v, \<lparr>sv_Begin = val, sv_End = val\<rparr>])"
  by (simp add: seqset_step_def Let_def nth_append)

lemma unat_succ: "e \<le> val \<Longrightarrow> val = e + 1 \<Longrightarrow> unat val = unat (e :: uint32) + 1"
  by (simp add: unat_plus_simple)

lemma unat_succ_iff: "e \<le> val \<Longrightarrow> val = e + 1 \<longleftrightarrow> unat val = unat (e :: uint32) + 1"
proof
  assume "unat val = unat e + 1"
  then have "(of_nat (unat val) :: uint32) = of_nat (unat e + 1)" by simp
  then show "val = e + 1" by simp
qed (rule unat_succ)

lemma expand_single [simp]: "seqval_expand \<lparr>sv_Begin = x, sv_End = x\<rparr> = [unat x]"
  by (simp add: seqval_expand_def)

lemma expand_extend:
  assumes "sv_Begin v \<le> sv_End v" and "unat val = unat (sv_End v) + 1"
  shows "seqval_expand (v\<lparr>sv_End := val\<rparr>) = seqval_expand v @ [unat val]"
  using assms by (simp add: seqval_expand_def word_le_nat_alt)

lemma seqset_fold:
  assumes "sorted xs"
  shows "concat (map seqval_expand (foldl seqset_step [] xs)) = map unat xs
    \<and> (\<forall>v \<in> set (foldl seqset_step [] xs). seqval_ok v) \<and> seqset_minimal (foldl seqset_step [] xs)
    \<and> (xs \<noteq> [] \<longrightarrow> foldl seqset_step [] xs \<noteq> [] \<and> sv_End (last (foldl seqset_step [] xs)) = last xs)"
  using assms
proof (induction xs rule: rev_induct)
  case Nil
  show ?case by (simp add: seqset_minimal_def)
next
  case (snoc x xs)
  let ?res = "foldl seqset_step [] xs"
  from snoc have IH: "concat (map seqval_expand ?res) = map unat xs" "\<forall>v \<in> set ?res. seqval_ok v"
    "seqset_minimal ?res" "xs \<noteq> [] \<Longrightarrow> ?res \<noteq> [] \<and> sv_End (last ?res) = last xs"
    by (auto simp: sorted_append)
  show ?case
  proof (cases "xs = []")
    case True
    then show ?thesis by (simp add: seqset_step_def seqval_expand_def seqval_ok_def seqset_minimal_def)
  next
    case False
    then obtain r v where res: "?res = r @ [v]" using IH(4) by (metis append_butlast_last_id)
    with IH(4) False snoc.prems have le: "sv_End v \<le> x" by (auto simp: sorted_append)
    have v: "sv_Begin v \<le> sv_End v" using IH(2) res by (simp add: seqval_ok_def)
    show ?thesis
    proof (cases "canCombine v x")
      case True
      then have x: "unat x = unat (sv_End v) + 1" using le unat_succ by (simp add: canCombine_def)
      have "concat (map seqval_expand (r @ [v\<lparr>sv_End := x\<rparr>])) = map unat (xs @ [x])"
        using IH(1) expand_extend [OF v x] by (simp add: res)
      moreover have "seqset_minimal (r @ [v\<lparr>sv_End := x\<rparr>])"
        using IH(3) unfolding res seqset_minimal_def by (auto simp: successively_append_iff)
      ultimately show ?thesis using IH(2) v le True
        by (simp add: res seqset_step_snoc seqval_ok_def)
    next
      case False
      have "seqset_minimal ((r @ [v]) @ [\<lparr>sv_Begin = x, sv_End = x\<rparr>])"
        using IH(3) False le unat_succ_iff [OF le] unfolding res seqset_minimal_def canCombine_def
        by (auto simp: successively_append_iff)
      with IH(1,2) False show ?thesis
        by (simp add: res seqset_step_snoc seqval_ok_def)
    qed
  qed
qed

section \<open>What the server prints, a client reads back\<close>

lemma sint_ucast: "sint (ucast (n :: uint32) :: goint) = int (unat n)"
proof -
  have "0 \<le> uint n" "uint n < 2 ^ 32" using uint_bounded [of n] by simp_all
  then have "signed_take_bit 63 (uint n) = uint n" by (intro signed_take_bit_int_eq_self) (auto intro: order_trans [OF _ uint_ge_0])
  moreover have "uint (ucast n :: goint) = uint n"
    using \<open>uint n < 2 ^ 32\<close> by (simp add: unsigned_ucast_eq take_bit_int_eq_self)
  ultimately show ?thesis by (simp add: sint_uint)
qed

definition seqval_range :: "SeqVal \<Rightarrow> SeqRange" where
  "seqval_range v = \<lparr>Begin = ucast (sv_Begin v), End = ucast (sv_End v)\<rparr>"

lemma show_uint32_SeqNum:
  "n \<noteq> 0 \<Longrightarrow> show_uint32 n = SeqNum_String (ucast n)"
proof -
  assume "n \<noteq> 0"
  then have "0 < unat n" by (simp add: unat_gt_0)
  then have "0 < sint (ucast n :: goint)" by (simp only: sint_ucast of_nat_0_less_iff)
  from SeqNum_String_pos [OF this] show ?thesis by (simp only: sint_ucast show_uint32_def nat_int)
qed

lemma seq_prints_number:
  assumes "seqnum_ok n"
  shows "seq_prints (SeqNum_String n) \<lparr>Begin = n, End = n\<rparr>"
  unfolding seq_prints_def
proof (intro allI impI)
  fix cx rest
  assume r: "seq_stops rest \<or> (\<exists>cs. rest = CHR '','' # cs)"
  have 1: "stops (\<lambda>t. t = TokenTypeDigit) rest"
    using r by (cases rest) (auto simp: seq_stops_def tok_type_classes isByteDigit_is_digit is_digit_def)
  have 2: "Matches TokenTypeColon (parser_at cx' rest) = (Inr False, parser_at cx' rest)" for cx'
    using r by (cases rest) (auto simp: Matches_at seq_stops_def tok_type_punct)
  from ParseSeqNumber_at [OF assms 1, of cx] 2
  show "ParseSeqRange (parser_at cx (SeqNum_String n @ rest)) =
      (Inr \<lparr>Begin = n, End = n\<rparr>, parser_at (advs cx (SeqNum_String n) rest) rest)"
    by (simp add: ParseSeqRange_def seq_simps)
qed

lemma seq_prints_SeqVal:
  assumes "seqval_ok v" and "sv_Begin v \<noteq> 0"
  shows "seq_prints (SeqVal_String v) (seqval_range v)"
proof -
  have ok: "seqnum_ok (ucast (n :: uint32))" for n by (simp add: seqnum_ok_def sint_ucast)
  from assms have e: "sv_End v \<noteq> 0" by (auto simp: seqval_ok_def)
  show ?thesis
  proof (cases "sv_End v > sv_Begin v")
    case True
    then have "SeqVal_String v = SeqRange_String (seqval_range v)"
      by (simp add: SeqVal_String_def SeqRange_String_def seqval_range_def show_uint32_SeqNum assms e)
    moreover have "seqrange_ok (seqval_range v)" by (simp add: seqrange_ok_def seqval_range_def ok)
    ultimately show ?thesis using seq_prints_String by metis
  next
    case False
    with assms(1) have "sv_Begin v = sv_End v" by (simp add: seqval_ok_def)
    with False seq_prints_number [OF ok, of "sv_End v"] show ?thesis
      by (simp add: SeqVal_String_def seqval_range_def show_uint32_SeqNum e)
  qed
qed

section \<open>Properties\<close>

text \<open>
  C15: the ranges of a new sequence set cover exactly the numbers it was built from: written out in
  order they are the numbers sorted, each as often as it was given; every range is in order, the
  ranges are in order, and no two neighbours could be merged. No number wraps around.
\<close>

theorem NewSeqSet_expands:
  "concat (map seqval_expand (NewSeqSet xs)) = map unat (sort xs)
   \<and> list_all seqval_ok (NewSeqSet xs) \<and> seqset_minimal (NewSeqSet xs)"
  using seqset_fold [of "sort xs"] by (simp add: NewSeqSet_def list_all_iff)

lemma NewSeqSet_nonzero:
  assumes "0 \<notin> set xs" and "v \<in> set (NewSeqSet xs)"
  shows "seqval_ok v \<and> sv_Begin v \<noteq> 0"
proof -
  have fold: "concat (map seqval_expand (NewSeqSet xs)) = map unat (sort xs)"
    and ok: "seqval_ok v" using seqset_fold [of "sort xs"] assms(2) by (simp_all add: NewSeqSet_def)
  have "unat (sv_Begin v) \<in> set (seqval_expand v)"
    using ok by (auto simp: seqval_expand_def seqval_ok_def word_le_nat_alt)
  then have "unat (sv_Begin v) \<in> set (concat (map seqval_expand (NewSeqSet xs)))"
    using assms(2) by auto
  then obtain x where "x \<in> set xs" "unat x = unat (sv_Begin v)" unfolding fold by auto
  with assms(1) have "sv_Begin v \<in> set xs" by (metis word_unat_eq_iff)
  with assms(1) ok show ?thesis by auto
qed

text \<open>
  C16: the text of a sequence set (as in a COPYUID response) read back by the command parser is the
  same set: for any non-empty list of UIDs without 0, \<open>ParseSeqSet\<close> returns the ranges of
  \<open>NewSeqSetFromUID\<close>, one by one, and stops where the text ends.
\<close>

theorem SeqSet_String_parses:
  assumes "xs \<noteq> []" and "0 \<notin> set xs" and "seq_stops rest"
  shows "\<exists>p'. ParseSeqSet (parser_on cb (SeqSet_String (NewSeqSetFromUID xs) @ rest)) =
      (Inr (map seqval_range (NewSeqSetFromUID xs)), p') \<and> rest_of p' = rest"
proof -
  let ?s = "NewSeqSet xs"
  have "list_all2 seq_prints (map SeqVal_String ?s) (map seqval_range ?s)"
    using NewSeqSet_nonzero [OF assms(2)] seq_prints_SeqVal by (simp add: list_all2_conv_all_nth)
  moreover have "sort xs \<noteq> []" using assms(1) by (metis length_0_conv length_sort)
  then have "?s \<noteq> []"
    using seqset_fold [of "sort xs"] assms(1) by (simp add: NewSeqSet_def)
  ultimately show ?thesis
    using ParseSeqSet_at [of "map seqval_range ?s" "map SeqVal_String ?s" rest] assms(3)
    unfolding parser_on_at SeqSet_String_def NewSeqSetFromUID_def by fastforce
qed

theorem SeqSet_String_parses_witness:
  "\<exists>p'. ParseSeqSet (parser_on None (''2:4,7'' @ '' ok'')) =
      (Inr [\<lparr>Begin = 2, End = 4\<rparr>, \<lparr>Begin = 7, End = 7\<rparr>], p') \<and> rest_of p' = '' ok''"
proof -
  have s: "SeqSet_String (NewSeqSetFromUID [7, 3, 2, 4]) = ''2:4,7''"
    and r: "map seqval_range (NewSeqSetFromUID [7, 3, 2, 4]) = [\<lparr>Begin = 2, End = 4\<rparr>, \<lparr>Begin = 7, End = 7\<rparr>]"
    by code_simp+
  show ?thesis
    using SeqSet_String_parses [of "[7, 3, 2, 4]" "'' ok''" None]
    unfolding s r by (simp add: seq_stops_def is_digit_def)
qed

end
