(* ===== verification/Imap_UidValidity.thy ===== *)
theory Imap_UidValidity
  imports Go_Prelude
begin

text \<open>
  The generators of UIDVALIDITY values (\<open>imap/uid_validity_generator.go\<close>). The clock is an argument:
  the whole seconds that have passed since the generator's epoch. The method \<open>Generate\<close> of the epoch
  generator is modelled twice: as it runs alone, and as a step relation in which any number of
  goroutines interleave between the atomic operations on \<open>lastUID\<close>.
\<close>

section \<open>Definitions\<close>

datatype generate_error = Capacity_Exceeded

record EpochUIDValidityGenerator =
  lastUID :: uint32

definition NewEpochUIDValidityGenerator :: EpochUIDValidityGenerator where
  "NewEpochUIDValidityGenerator = \<lparr>lastUID = 0\<rparr>"

text \<open>
  The loop of \<open>Generate\<close> when no other goroutine runs: the compare-and-swap succeeds. \<open>max_word\<close> is
  0xFFFFFFFF.
\<close>

function generate_loop :: "uint32 \<Rightarrow> EpochUIDValidityGenerator \<Rightarrow> (generate_error + uint32) \<times> EpochUIDValidityGenerator" where
  "generate_loop timeStampU32 e =
     (if lastUID e \<ge> timeStampU32 then
        if timeStampU32 = 0xFFFFFFFF then (Inl Capacity_Exceeded, e)
        else generate_loop (timeStampU32 + 1) e
      else (Inr timeStampU32, e\<lparr>lastUID := timeStampU32\<rparr>))"
  by pat_completeness auto

lemma unat_bump: "ts \<noteq> 0xFFFFFFFF \<Longrightarrow> unat (ts + 1) = unat (ts :: uint32) + 1"
proof -
  assume ts: "ts \<noteq> 0xFFFFFFFF"
  have "ts + 1 \<noteq> 0"
  proof
    assume "ts + 1 = 0"
    then have "ts = - 1" by (simp add: eq_neg_iff_add_eq_0)
    with ts show False by simp
  qed
  then show ?thesis using unatSuc [of ts] by (simp add: add.commute)
qed

termination generate_loop
proof (relation "measure (\<lambda>(ts, e). 2 ^ 32 - unat ts)")
  show "wf (measure (\<lambda>(ts :: uint32, e :: EpochUIDValidityGenerator). 2 ^ 32 - unat ts))" by simp
  fix ts :: uint32 and e :: EpochUIDValidityGenerator
  assume "ts \<noteq> 0xFFFFFFFF"
  moreover have "unat (ts + 1) < 2 ^ LENGTH(32)" by (rule unsigned_less)
  ultimately show "((ts + 1, e), (ts, e)) \<in> measure (\<lambda>(ts, e). 2 ^ 32 - unat ts)"
    using unat_bump [of ts] by simp
qed

declare generate_loop.simps [simp del]

definition Generate :: "nat \<Rightarrow> EpochUIDValidityGenerator \<Rightarrow> (generate_error + uint32) \<times> EpochUIDValidityGenerator" where
  "Generate timeStamp e =
     (if timeStamp > 0xFFFFFFFF then (Inl Capacity_Exceeded, e)
      else generate_loop (of_nat timeStamp) e)"

definition Incremental_Generate :: "uint32 \<Rightarrow> uint32 \<times> uint32" where
  "Incremental_Generate counter = (counter + 1, counter + 1)"

definition Fixed_Generate :: "uint32 \<Rightarrow> uint32" where
  "Fixed_Generate value = value"

section \<open>One goroutine\<close>

lemma generate_loop_value:
  "generate_loop ts e =
     (if ts > lastUID e then (Inr ts, e\<lparr>lastUID := ts\<rparr>)
      else if lastUID e = 0xFFFFFFFF then (Inl Capacity_Exceeded, e)
      else (Inr (lastUID e + 1), e\<lparr>lastUID := lastUID e + 1\<rparr>))"
proof (induction ts e rule: generate_loop.induct)
  case (1 ts e)
  show ?case
  proof (cases "lastUID e \<ge> ts \<and> ts \<noteq> 0xFFFFFFFF")
    case True
    then have b: "unat (ts + 1) = unat ts + 1" using unat_bump by blast
    have "ts + 1 > lastUID e \<longleftrightarrow> ts = lastUID e"
      using True b by (auto simp: word_less_nat_alt word_le_nat_alt word_unat_eq_iff)
    with 1 True show ?thesis by (subst generate_loop.simps) auto
  next
    case False
    have "(0xFFFFFFFF :: uint32) = - 1" by simp
    then have "lastUID e \<le> 0xFFFFFFFF" by (metis word_order.extremum)
    with False show ?thesis by (subst generate_loop.simps) auto
  qed
qed

text \<open>
  A source of UIDVALIDITY values: what it issues is always greater than everything it issued
  before, and a failed call changes nothing.
\<close>

locale uid_validity_source =
  fixes generate :: "'t \<Rightarrow> 's \<Rightarrow> ('e + uint32) \<times> 's" and issued :: "'s \<Rightarrow> uint32"
  assumes fresh: "generate t s = (Inr u, s') \<Longrightarrow> issued s < u \<and> issued s' = u"
    and failed: "generate t s = (Inl e, s') \<Longrightarrow> issued s' = issued s"
begin

text \<open>The values of a run of calls, at the given times.\<close>

primrec run :: "'t list \<Rightarrow> 's \<Rightarrow> uint32 list" where
  "run [] s = []"
| "run (t # ts) s =
     (case generate t s of (Inr u, s') \<Rightarrow> u # run ts s' | (Inl _, s') \<Rightarrow> run ts s')"

lemma run_increasing: "sorted_wrt (<) (run ts s) \<and> (\<forall>u \<in> set (run ts s). issued s < u)"
proof (induction ts arbitrary: s)
  case Nil
  show ?case by simp
next
  case (Cons t ts)
  obtain r s' where g: "generate t s = (r, s')" by (cases "generate t s")
  show ?case
  proof (cases r)
    case (Inl e)
    with g failed [of t s e s'] Cons [of s'] show ?thesis by simp
  next
    case (Inr u)
    with g fresh [of t s u s'] Cons [of s'] show ?thesis by (auto intro: order.strict_trans)
  qed
qed

end

interpretation epoch: uid_validity_source Generate lastUID
proof
  fix t :: nat and s s' :: EpochUIDValidityGenerator and u e
  have bump: "lastUID s \<noteq> 0xFFFFFFFF \<Longrightarrow> lastUID s < lastUID s + 1"
    using unat_bump [of "lastUID s"] by (simp add: word_less_nat_alt)
  show "Generate t s = (Inr u, s') \<Longrightarrow> lastUID s < u \<and> lastUID s' = u"
    using bump by (auto simp: Generate_def generate_loop_value split: if_splits)
  show "Generate t s = (Inl e, s') \<Longrightarrow> lastUID s' = lastUID s"
    by (auto simp: Generate_def generate_loop_value split: if_splits)
qed

text \<open>The values of a run of calls of \<open>Generate\<close> at the given times.\<close>

primrec generate_run :: "nat list \<Rightarrow> EpochUIDValidityGenerator \<Rightarrow> uint32 list" where
  "generate_run [] e = []"
| "generate_run (t # ts) e =
     (case Generate t e of (Inr u, e') \<Rightarrow> u # generate_run ts e' | (Inl _, e') \<Rightarrow> generate_run ts e')"

lemma generate_run_epoch: "generate_run ts e = epoch.run ts e"
  by (induction ts arbitrary: e) (auto split: prod.splits sum.splits)

section \<open>Many goroutines\<close>

text \<open>
  Where a goroutine stands in \<open>Generate\<close>: before the load of \<open>lastUID\<close>, with its time stamp; between the load and
  the comparison or the compare-and-swap, with the value it loaded; or finished.
\<close>

datatype pc = AtLoad uint32 | Loaded uint32 uint32 | Returned uint32 | Failed

text \<open>
  The state: \<open>lastUID\<close>, the goroutines, and the values returned so far in the order of their
  compare-and-swap.
\<close>

record gen_state =
  shared :: uint32
  threads :: "pc list"
  returned :: "uint32 list"

inductive gen_step :: "gen_state \<Rightarrow> gen_state \<Rightarrow> bool" where
  load: "i < length (threads s) \<Longrightarrow> threads s ! i = AtLoad ts \<Longrightarrow>
    gen_step s (s\<lparr>threads := (threads s)[i := Loaded ts (shared s)]\<rparr>)"
| bump: "i < length (threads s) \<Longrightarrow> threads s ! i = Loaded ts lg \<Longrightarrow> lg \<ge> ts \<Longrightarrow> ts \<noteq> 0xFFFFFFFF \<Longrightarrow>
    gen_step s (s\<lparr>threads := (threads s)[i := AtLoad (ts + 1)]\<rparr>)"
| overflow: "i < length (threads s) \<Longrightarrow> threads s ! i = Loaded ts lg \<Longrightarrow> lg \<ge> ts \<Longrightarrow> ts = 0xFFFFFFFF \<Longrightarrow>
    gen_step s (s\<lparr>threads := (threads s)[i := Failed]\<rparr>)"
| swap: "i < length (threads s) \<Longrightarrow> threads s ! i = Loaded ts lg \<Longrightarrow> lg < ts \<Longrightarrow> shared s = lg \<Longrightarrow>
    gen_step s (s\<lparr>shared := ts, threads := (threads s)[i := Returned ts], returned := returned s @ [ts]\<rparr>)"
| retry: "i < length (threads s) \<Longrightarrow> threads s ! i = Loaded ts lg \<Longrightarrow> lg < ts \<Longrightarrow> shared s \<noteq> lg \<Longrightarrow>
    gen_step s (s\<lparr>threads := (threads s)[i := AtLoad ts]\<rparr>)"

definition gen_start :: "uint32 \<Rightarrow> uint32 list \<Rightarrow> gen_state" where
  "gen_start first stamps = \<lparr>shared = first, threads = map AtLoad stamps, returned = []\<rparr>"

text \<open>
  The values returned are increasing, all above the first value of \<open>lastUID\<close>, and \<open>lastUID\<close> is the last of
  them; the finished goroutines hold exactly these values.
\<close>

definition gen_inv :: "uint32 \<Rightarrow> gen_state \<Rightarrow> bool" where
  "gen_inv first s \<longleftrightarrow>
     sorted_wrt (<) (returned s) \<and> (\<forall>u \<in> set (returned s). first < u \<and> u \<le> shared s)
     \<and> first \<le> shared s
     \<and> (\<forall>i < length (threads s). \<forall>u. threads s ! i = Returned u \<longrightarrow> u \<in> set (returned s))
     \<and> (\<forall>i < length (threads s). \<forall>j < length (threads s). \<forall>u.
          threads s ! i = Returned u \<and> threads s ! j = Returned u \<longrightarrow> i = j)"

lemma gen_inv_start: "gen_inv first (gen_start first stamps)"
  by (simp add: gen_inv_def gen_start_def)

lemma nth_update: "xs[i := v] ! j = (if i = j \<and> i < length xs then v else xs ! j)"
  by (cases "i < length xs") (simp_all add: nth_list_update list_update_beyond)

lemma gen_inv_move:
  assumes "gen_inv first s" and "\<forall>u. pc' \<noteq> Returned u"
  shows "gen_inv first (s\<lparr>threads := (threads s)[i := pc']\<rparr>)"
  using assms unfolding gen_inv_def by (auto simp: nth_update split: if_splits)

lemma gen_inv_step: "gen_step s s' \<Longrightarrow> gen_inv first s \<Longrightarrow> gen_inv first s'"
proof (induction rule: gen_step.induct)
  case (swap i s ts lg)
  then have lt: "shared s < ts" and new: "ts \<notin> set (returned s)" by (auto simp: gen_inv_def)
  have old: "\<forall>u \<in> set (returned s). u < ts \<and> u \<le> ts" using swap.prems lt
    by (auto simp: gen_inv_def)
  have "first < ts" using swap.prems lt by (auto simp: gen_inv_def)
  moreover have "threads s ! j \<noteq> Returned ts" if "j < length (threads s)" for j
    using swap.prems new that by (auto simp: gen_inv_def)
  ultimately show ?case
    using swap.prems old lt unfolding gen_inv_def
    by (auto simp: sorted_wrt_append nth_update split: if_splits)
qed (simp_all add: gen_inv_move)

lemma gen_inv_reachable: "gen_step\<^sup>*\<^sup>* s s' \<Longrightarrow> gen_inv first s \<Longrightarrow> gen_inv first s'"
  by (induction rule: rtranclp_induct) (auto intro: gen_inv_step)

section \<open>Properties\<close>

text \<open>
  C31: the epoch generator never issues a value twice and never goes back: started at any state and
  called at any times, even many times within one second or with a clock that goes back, the values
  it returns are strictly increasing and greater than the last value issued before.
\<close>

theorem Generate_strictly_increasing:
  "sorted_wrt (<) (generate_run ts e) \<and> (\<forall>u \<in> set (generate_run ts e). lastUID e < u)"
  unfolding generate_run_epoch by (rule epoch.run_increasing)

theorem Generate_strictly_increasing_witness:
  "generate_run [3, 3, 2] NewEpochUIDValidityGenerator = [3, 4, 5]
   \<and> sorted_wrt (<) (generate_run [3, 3, 2] NewEpochUIDValidityGenerator)"
proof -
  have "generate_run [3, 3, 2] NewEpochUIDValidityGenerator = [3, 4, 5]"
    by (simp add: NewEpochUIDValidityGenerator_def Generate_def generate_loop_value)
  with Generate_strictly_increasing [of "[3, 3, 2]" NewEpochUIDValidityGenerator] show ?thesis
    by (simp add: NewEpochUIDValidityGenerator_def)
qed

text \<open>
  C30: what one call returns. It fails exactly when the clock is past 2^32 - 1 seconds or the last
  value issued is 2^32 - 1 already and the clock is not above it, and then the generator is
  unchanged. Otherwise it returns the time in seconds or the successor of the last value, whichever
  is greater, without wrap-around, and the loop that bumps the time stamp ends.
\<close>

theorem Generate_value:
  "Generate t e =
     (if t > 0xFFFFFFFF \<or> lastUID e = 0xFFFFFFFF then (Inl Capacity_Exceeded, e)
      else (let u = max (of_nat t) (lastUID e + 1) in (Inr u, e\<lparr>lastUID := u\<rparr>)))
   \<and> (lastUID e \<noteq> 0xFFFFFFFF \<longrightarrow> unat (lastUID e + 1) = unat (lastUID e) + 1)"
proof
  have m: "(0xFFFFFFFF :: uint32) = - 1" by simp
  have top: "\<not> of_nat t > (0xFFFFFFFF :: uint32)" unfolding m by (simp add: not_less)
  have succ: "lastUID e \<noteq> 0xFFFFFFFF \<Longrightarrow> of_nat t > lastUID e \<longleftrightarrow> of_nat t \<ge> lastUID e + 1"
    using unat_bump [of "lastUID e"] by (auto simp: word_less_nat_alt word_le_nat_alt)
  show "Generate t e = (if t > 0xFFFFFFFF \<or> lastUID e = 0xFFFFFFFF then (Inl Capacity_Exceeded, e)
      else (let u = max (of_nat t) (lastUID e + 1) in (Inr u, e\<lparr>lastUID := u\<rparr>)))"
    using top succ by (auto simp: Generate_def generate_loop_value Let_def max_def not_less)
  show "lastUID e \<noteq> 0xFFFFFFFF \<longrightarrow> unat (lastUID e + 1) = unat (lastUID e) + 1"
    using unat_bump by blast
qed

theorem Generate_value_witness:
  "Generate 5 \<lparr>lastUID = 9\<rparr> = (Inr 10, \<lparr>lastUID = 10\<rparr>) \<and> (9 :: uint32) \<noteq> 0xFFFFFFFF"
proof -
  have "max 5 10 = (10 :: uint32)" by simp
  with Generate_value [of 5 "\<lparr>lastUID = 9\<rparr>"] show ?thesis by simp
qed

text \<open>
  C4: concurrent callers get distinct values. From any start, after any interleaving of the atomic
  loads and compare-and-swaps of any number of goroutines, two goroutines that have returned hold
  different values, the values are strictly increasing in the order of the successful swaps, and all
  are greater than the value the generator started from.
\<close>

theorem Generate_concurrent_unique:
  assumes "gen_step\<^sup>*\<^sup>* (gen_start first stamps) s"
  shows "sorted_wrt (<) (returned s) \<and> (\<forall>u \<in> set (returned s). first < u)
    \<and> (\<forall>i < length (threads s). \<forall>j < length (threads s). \<forall>u.
         threads s ! i = Returned u \<and> threads s ! j = Returned u \<longrightarrow> i = j)"
  using gen_inv_reachable [OF assms gen_inv_start] by (auto simp: gen_inv_def)

theorem Generate_concurrent_unique_witness:
  "\<exists>s. gen_step\<^sup>*\<^sup>* (gen_start 0 [7, 7]) s \<and> threads s = [Returned 7, Loaded 7 0]
     \<and> sorted_wrt (<) (returned s)"
proof -
  let ?s0 = "gen_start 0 [7, 7]"
  let ?s1 = "?s0\<lparr>threads := (threads ?s0)[0 := Loaded 7 (shared ?s0)]\<rparr>"
  let ?s2 = "?s1\<lparr>threads := (threads ?s1)[1 := Loaded 7 (shared ?s1)]\<rparr>"
  let ?s3 = "?s2\<lparr>shared := 7, threads := (threads ?s2)[0 := Returned 7], returned := returned ?s2 @ [7]\<rparr>"
  have "gen_step ?s0 ?s1" by (rule gen_step.load) (simp_all add: gen_start_def)
  moreover have "gen_step ?s1 ?s2" by (rule gen_step.load) (simp_all add: gen_start_def)
  moreover have "gen_step ?s2 ?s3" by (rule gen_step.swap [where lg = 0]) (simp_all add: gen_start_def)
  ultimately have run: "gen_step\<^sup>*\<^sup>* ?s0 ?s3" by (meson rtranclp.rtrancl_refl rtranclp.rtrancl_into_rtrancl)
  have "threads ?s3 = [Returned 7, Loaded 7 0]" by (simp add: gen_start_def)
  with run Generate_concurrent_unique [OF run] show ?thesis by blast
qed

end
