(* ===== verification/Imap_Limits.thy ===== *)
theory Imap_Limits
  imports Imap_SeqSet
begin

text \<open>
  The limits a server enforces (\<open>limits/imap.go\<close>). The limits and the counts are signed 64-bit
  integers and the sums the checks form wrap around. The result of a check is the error, if any.
\<close>

section \<open>Definitions\<close>

record IMAP =
  maxMailboxCount :: goint
  maxMessageCountPerMailbox :: goint
  maxUIDValidity :: goint
  maxUID :: goint

datatype limit_error =
    ErrMaxMailboxCountReached | ErrMaxMailboxMessageCountReached | ErrMaxUIDReached | ErrMaxUIDValidityReached

definition CheckMailBoxCount :: "IMAP \<Rightarrow> goint \<Rightarrow> limit_error option" where
  "CheckMailBoxCount i mailboxCount =
     (if maxMailboxCount i \<le>s mailboxCount then Some ErrMaxMailboxCountReached else None)"

definition CheckMailBoxMessageCount :: "IMAP \<Rightarrow> goint \<Rightarrow> goint \<Rightarrow> limit_error option" where
  "CheckMailBoxMessageCount i existingCount newCount =
     (let nextMessageCount = existingCount + newCount in
      if maxMessageCountPerMailbox i <s nextMessageCount \<or> nextMessageCount <s existingCount
      then Some ErrMaxMailboxMessageCountReached else None)"

definition CheckUIDCount :: "IMAP \<Rightarrow> UID \<Rightarrow> goint \<Rightarrow> limit_error option" where
  "CheckUIDCount i existingUID newCount =
     (let nextUIDCount = ucast existingUID + newCount in
      if maxUID i <s nextUIDCount \<or> nextUIDCount <s ucast existingUID
      then Some ErrMaxUIDReached else None)"

definition CheckUIDValidity :: "IMAP \<Rightarrow> UID \<Rightarrow> limit_error option" where
  "CheckUIDValidity i uid = (if maxUIDValidity i \<le>s ucast uid then Some ErrMaxUIDValidityReached else None)"

text \<open>The limits of a 64-bit build.\<close>

definition DefaultLimits :: IMAP where
  "DefaultLimits = \<lparr>maxMailboxCount = 4294967295, maxMessageCountPerMailbox = 4294967295,
     maxUIDValidity = 4294967295, maxUID = 4294967295\<rparr>"

definition NewIMAPLimits :: "uint32 \<Rightarrow> uint32 \<Rightarrow> UID \<Rightarrow> UID \<Rightarrow> IMAP" where
  "NewIMAPLimits mailboxes messages uid uidValidity =
     \<lparr>maxMailboxCount = ucast mailboxes, maxMessageCountPerMailbox = ucast messages,
      maxUIDValidity = ucast uidValidity, maxUID = ucast uid\<rparr>"

section \<open>The checks are exact\<close>

lemma sint_ucast32: "sint (ucast (u :: uint32) :: goint) = uint u"
proof -
  have small: "signed_take_bit 63 k = k" if "0 \<le> k" "k < 2 ^ 32" for k :: int
    using that by (intro signed_take_bit_int_eq_self) simp_all
  have "uint u < 2 ^ 32" using uint_bounded [of u] by simp
  moreover from small [OF uint_ge_0 this] have "signed_take_bit 63 (uint u) = uint u" .
  ultimately show ?thesis by (simp add: sint_uint unsigned_ucast_eq take_bit_int_eq_self)
qed

lemma sint_range: "- (2 ^ 63) \<le> sint (a :: goint)" "sint (a :: goint) < 2 ^ 63"
  using sint_greater_eq [of a] sint_less [of a] by simp_all

text \<open>The test \<open>a + b < a\<close> sees every overflow of a sum of a count that is not negative.\<close>

lemma sum_check:
  fixes a b m :: goint
  assumes "0 \<le> sint a"
  shows "\<not> (m <s a + b \<or> a + b <s a) \<longleftrightarrow> 0 \<le> sint b \<and> sint a + sint b \<le> sint m"
proof -
  have s: "sint (a + b) = signed_take_bit 63 (sint a + sint b)"
    using signed_take_bit_add [of 63 "sint a" "sint b"] by (simp add: sint_word_ariths)
  show ?thesis
  proof (cases "sint a + sint b < 2 ^ 63")
    case True
    then have "sint (a + b) = sint a + sint b"
      using s assms sint_range [of b] by (simp add: signed_take_bit_int_eq_self)
    then show ?thesis by (auto simp: word_sless_alt)
  next
    case False
    have "signed_take_bit 63 (sint a + sint b) = sint a + sint b - 2 ^ 64"
      using False sint_range [of a] sint_range [of b]
        signed_take_bit_int_eq_self [of 63 "sint a + sint b - 2 ^ 64"]
        signed_take_bit_eq_iff_take_bit_eq [of 63 "sint a + sint b - 2 ^ 64" "sint a + sint b"]
      by (simp add: take_bit_eq_mod)
    then show ?thesis using s False sint_range [of b] sint_range [of m] by (auto simp: word_sless_alt)
  qed
qed

text \<open>
  C34: The limit checks are exact in spite of wrap-around: with the limits a server is configured with
  and a message count that is not negative, adding \<open>n\<close> messages passes exactly when \<open>n\<close> is not
  negative and the true sum does not exceed the limit, for messages and for UIDs; a mailbox count and
  a UID validity pass exactly below their limits.
\<close>

theorem limit_checks_exact:
  fixes boxes msgs uids validity :: uint32
  defines "lim \<equiv> NewIMAPLimits boxes msgs uids validity"
  assumes "0 \<le> sint existing"
  shows "(CheckMailBoxMessageCount lim existing n = None \<longleftrightarrow> 0 \<le> sint n \<and> sint existing + sint n \<le> uint msgs)
    \<and> (CheckUIDCount lim uid n = None \<longleftrightarrow> 0 \<le> sint n \<and> uint uid + sint n \<le> uint uids)
    \<and> (CheckMailBoxCount lim k = None \<longleftrightarrow> sint k < uint boxes)
    \<and> (CheckUIDValidity lim uid = None \<longleftrightarrow> uint uid < uint validity)"
proof -
  have "0 \<le> sint (ucast uid :: goint)" by (simp add: sint_ucast32)
  from sum_check [OF this, of "ucast uids" n] sum_check [OF assms(2), of "ucast msgs" n]
  show ?thesis
    by (auto simp: lim_def NewIMAPLimits_def CheckMailBoxMessageCount_def CheckUIDCount_def
        CheckMailBoxCount_def CheckUIDValidity_def Let_def sint_ucast32 word_sle_eq word_sless_alt)
qed

theorem limit_checks_exact_witness:
  "CheckMailBoxMessageCount (NewIMAPLimits 1 10 20 5) 7 3 = None
   \<and> CheckUIDCount (NewIMAPLimits 1 10 20 5) 18 3 \<noteq> None
   \<and> CheckMailBoxMessageCount (NewIMAPLimits 1 10 20 5) 7 9223372036854775807 \<noteq> None"
  using limit_checks_exact [of 7 1 10 20 5 3 18 0] limit_checks_exact [of 7 1 10 20 5 9223372036854775807 18 0]
  by simp

end
