(* ===== verification/Db_Types.thy ===== *)
theory Db_Types
  imports Imap_Flags Imap_Limits
begin

text \<open>
  Identifiers and records that the database, the states and the sessions share (\<open>db/types.go\<close>,
  \<open>imap/strong_types.go\<close>) and the errors they return (\<open>db/errors.go\<close>, \<open>internal/state/errors.go\<close>).
  An internal message ID is a UUID of 128 bits. The errors of the connector, the store and the
  other packages, which are only passed on, are \<open>ErrOther\<close> with a text.
\<close>

type_synonym InternalMessageID = "128 word"
type_synonym MessageID = string
type_synonym InternalMailboxID = "64 word"
type_synonym MailboxID = string

record MessageIDPair =
  InternalID :: InternalMessageID
  RemoteID :: MessageID

record MailboxIDPair =
  mp_InternalID :: InternalMailboxID
  mp_RemoteID :: MailboxID

text \<open>A row of the table of mailboxes.\<close>

record Mailbox =
  mbx_ID :: InternalMailboxID
  mbx_RemoteID :: MailboxID
  mbx_Name :: string
  mbx_UIDValidity :: UID
  mbx_Subscribed :: bool

definition NewMailboxIDPair :: "Mailbox \<Rightarrow> MailboxIDPair" where
  "NewMailboxIDPair mbox = \<lparr>mp_InternalID = mbx_ID mbox, mp_RemoteID = mbx_RemoteID mbox\<rparr>"

definition SplitMessageIDPairSlice :: "MessageIDPair list \<Rightarrow> InternalMessageID list \<times> MessageID list" where
  "SplitMessageIDPairSlice s = (map InternalID s, map RemoteID s)"

text \<open>
  The errors of the database: those of \<open>db/errors.go\<close> and those of SQLite that the sources can meet.
  \<open>DB_unique t\<close> is a violated uniqueness constraint on \<open>t\<close> (table and column).
\<close>

datatype db_error =
    ErrNotFound
  | ErrTransactionFailed
  | UniqueLabelConstraintError string "Mailbox option" MailboxID string
  | DB_unique string
  | DB_foreign_key
  | DB_not_null
  | DB_no_such_table string
  | DB_table_exists string
  | DB_full
  | DB_syntax
  | DB_arguments
  | DB_scan
  | DB_no_values_changed

datatype state_error =
    ErrNoSuchMessage | ErrNoSuchMailbox | ErrExistingMailbox | ErrAlreadySubscribed
  | ErrAlreadyUnsubscribed | ErrSessionNotSelected | ErrOperationNotAllowed
  | ErrMailboxNameBeginsWithSeparator | ErrMailboxNameAdjacentSeparator
  | ErrOutOfOrderUIDInsertion UID UID
  | ErrLimit limit_error
  | ErrDB db_error
  | ErrOther string

definition IsStateError :: "state_error \<Rightarrow> bool" where
  "IsStateError err \<longleftrightarrow> err \<in> {ErrNoSuchMailbox, ErrNoSuchMessage, ErrExistingMailbox, ErrAlreadySubscribed,
     ErrAlreadyUnsubscribed, ErrSessionNotSelected, ErrOperationNotAllowed,
     ErrMailboxNameBeginsWithSeparator, ErrMailboxNameAdjacentSeparator}"

definition IsErrNotFound :: "state_error \<Rightarrow> bool" where
  "IsErrNotFound err \<longleftrightarrow> err = ErrDB ErrNotFound"

fun IsUniqueLabelConstraintError :: "state_error \<Rightarrow> bool" where
  "IsUniqueLabelConstraintError (ErrDB (UniqueLabelConstraintError f m i n)) = True"
| "IsUniqueLabelConstraintError e = False"

end
