(* ===== verification/State_SnapMsgList.thy ===== *)
theory State_SnapMsgList
  imports Db_Types
begin

text \<open>
  The ordered message list of a mailbox snapshot (\<open>internal/state/snapshot_messages.go\<close>). The source
  keeps pointers to messages in a slice and in a map at once, and updates messages through either:
  the model has a heap, addresses in both, and a counter for fresh addresses. Slice expressions and
  indexing that are out of range panic. A slice expression between the length and the capacity of a
  slice, which Go would allow, counts as out of range too; no caller relies on it.
\<close>

section \<open>Data\<close>

type_synonym addr = nat

record snapMsg =
  sm_ID :: MessageIDPair
  sm_UID :: UID
  sm_flags :: FlagSet
  toExpunge :: bool

record snapMsgWithSeq =
  Seq :: SeqID
  sm_ptr :: addr

record snapMsgList =
  ml_msg :: "addr list"
  ml_idx :: "InternalMessageID \<Rightarrow> addr option"
  ml_heap :: "addr \<Rightarrow> snapMsg"
  ml_next :: addr

record Interval =
  iv_begin :: uint32
  iv_end :: uint32

section \<open>Operations\<close>

definition zeroMsg :: snapMsg where
  "zeroMsg = \<lparr>sm_ID = \<lparr>InternalID = 0, RemoteID = ''''\<rparr>, sm_UID = 0, sm_flags = [], toExpunge = False\<rparr>"

definition newMsgList :: snapMsgList where
  "newMsgList = \<lparr>ml_msg = [], ml_idx = (\<lambda>_. None), ml_heap = (\<lambda>_. zeroMsg), ml_next = 0\<rparr>"

text \<open>What a pointer to a message points to.\<close>

abbreviation msg_at :: "snapMsgList \<Rightarrow> addr \<Rightarrow> snapMsg" where
  "msg_at l a \<equiv> ml_heap l a"

abbreviation uid_at :: "snapMsgList \<Rightarrow> addr \<Rightarrow> UID" where
  "uid_at l a \<equiv> sm_UID (ml_heap l a)"

definition binarySearchByUID :: "snapMsgList \<Rightarrow> UID \<Rightarrow> nat \<times> bool" where
  "binarySearchByUID l uid =
     BinarySearchFunc (ml_msg l) uid (\<lambda>s1 s2. int (unat (uid_at l s1)) - int (unat s2))"

definition newSnapMsg :: "MessageIDPair \<Rightarrow> UID \<Rightarrow> FlagSet \<Rightarrow> snapMsg" where
  "newSnapMsg i uid fl =
     \<lparr>sm_ID = i, sm_UID = uid, sm_flags = fl, toExpunge = ContainsUnchecked fl FlagDeletedLowerCase\<rparr>"

text \<open>Put a new message at position \<open>k\<close> of the slice and into the map.\<close>

definition place :: "nat \<Rightarrow> MessageIDPair \<Rightarrow> UID \<Rightarrow> FlagSet \<Rightarrow> snapMsgList \<Rightarrow> snapMsgList" where
  "place k i uid fl l =
     \<lparr>ml_msg = take k (ml_msg l) @ [ml_next l] @ drop k (ml_msg l),
      ml_idx = (ml_idx l)(InternalID i \<mapsto> ml_next l),
      ml_heap = (ml_heap l)(ml_next l := newSnapMsg i uid fl),
      ml_next = ml_next l + 1\<rparr>"

definition list_insert ::
    "MessageIDPair \<Rightarrow> UID \<Rightarrow> FlagSet \<Rightarrow> snapMsgList \<Rightarrow> (state_error, snapMsgList) outcome" where
  "list_insert i uid fl l =
     (if ml_msg l \<noteq> [] \<and> uid_at l (last (ml_msg l)) \<ge> uid
      then Err (ErrOutOfOrderUIDInsertion (uid_at l (last (ml_msg l))) uid)
      else Ok (place (length (ml_msg l)) i uid fl l))"

definition insertOutOfOrder ::
    "MessageIDPair \<Rightarrow> UID \<Rightarrow> FlagSet \<Rightarrow> snapMsgList \<Rightarrow> (state_error, snapMsgList) outcome" where
  "insertOutOfOrder i uid fl l =
     (let (index, ok) = binarySearchByUID l uid in
      if ok then Panic ''Duplicate UID added'' else Ok (place index i uid fl l))"

definition list_remove :: "InternalMessageID \<Rightarrow> snapMsgList \<Rightarrow> bool \<times> snapMsgList" where
  "list_remove i l =
     (case ml_idx l i of
        None \<Rightarrow> (False, l)
      | Some a \<Rightarrow>
          (let (index, ok) = binarySearchByUID l (uid_at l a) in
           if \<not> ok then (False, l)
           else (True, l\<lparr>ml_idx := (ml_idx l)(i := None),
                         ml_msg := take index (ml_msg l) @ drop (index + 1) (ml_msg l)\<rparr>)))"

definition list_update_remote :: "InternalMessageID \<Rightarrow> MessageID \<Rightarrow> snapMsgList \<Rightarrow> bool \<times> snapMsgList" where
  "list_update_remote i r l =
     (case ml_idx l i of
        None \<Rightarrow> (False, l)
      | Some a \<Rightarrow>
          (True, l\<lparr>ml_heap := (ml_heap l)(a :=
             (msg_at l a)\<lparr>sm_ID := (sm_ID (msg_at l a))\<lparr>RemoteID := r\<rparr>\<rparr>)\<rparr>))"

definition list_len :: "snapMsgList \<Rightarrow> nat" where
  "list_len l = length (ml_msg l)"

text \<open>A message of the slice with its sequence number.\<close>

definition with_seq :: "snapMsgList \<Rightarrow> nat \<Rightarrow> snapMsgWithSeq" where
  "with_seq l i = \<lparr>Seq = of_nat (i + 1), sm_ptr = ml_msg l ! i\<rparr>"

definition where_seq :: "snapMsgList \<Rightarrow> (snapMsgWithSeq \<Rightarrow> bool) \<Rightarrow> snapMsgWithSeq list" where
  "where_seq l fn = filter fn (map (with_seq l) [0..<length (ml_msg l)])"

definition whereCount :: "snapMsgList \<Rightarrow> (snapMsgWithSeq \<Rightarrow> bool) \<Rightarrow> nat" where
  "whereCount l fn =
     foldl (\<lambda>result s. if fn s then result + 1 else result) 0 (map (with_seq l) [0..<length (ml_msg l)])"

definition list_has :: "InternalMessageID \<Rightarrow> snapMsgList \<Rightarrow> bool" where
  "list_has i l \<longleftrightarrow> ml_idx l i \<noteq> None"

definition list_get :: "InternalMessageID \<Rightarrow> snapMsgList \<Rightarrow> snapMsgWithSeq option" where
  "list_get i l =
     (case ml_idx l i of
        None \<Rightarrow> None
      | Some a \<Rightarrow>
          (let (index, ok) = binarySearchByUID l (uid_at l a) in
           if \<not> ok then None else Some (with_seq l index)))"

definition list_seq :: "SeqID \<Rightarrow> snapMsgList \<Rightarrow> (state_error, snapMsgWithSeq option) outcome" where
  "list_seq s l =
     (if of_nat (length (ml_msg l)) < s then Ok None
      else if unat (s - 1) < length (ml_msg l)
      then Ok (Some \<lparr>Seq = s, sm_ptr = ml_msg l ! unat (s - 1)\<rparr>)
      else Panic ''index out of range'')"

definition list_last :: "snapMsgList \<Rightarrow> (state_error, snapMsgWithSeq) outcome" where
  "list_last l =
     (if ml_msg l = [] then Panic ''index out of range''
      else Ok \<lparr>Seq = of_nat (length (ml_msg l)), sm_ptr = last (ml_msg l)\<rparr>)"

text \<open>The slice expression \<open>xs[lo:hi]\<close>.\<close>

definition slice_expr :: "'a list \<Rightarrow> nat \<Rightarrow> nat \<Rightarrow> ('e, 'a list) outcome" where
  "slice_expr xs lo hi =
     (if lo \<le> hi \<and> hi \<le> length xs then Ok (take (hi - lo) (drop lo xs))
      else Panic ''slice bounds out of range'')"

definition seqRange :: "SeqID \<Rightarrow> SeqID \<Rightarrow> snapMsgList \<Rightarrow> (state_error, snapMsgWithSeq list) outcome" where
  "seqRange seqLo seqHi l =
     bind_outcome (slice_expr (ml_msg l) (unat (seqLo - 1)) (unat seqHi)) (\<lambda>interval.
       Ok (map (\<lambda>i. \<lparr>Seq = seqLo + of_nat i, sm_ptr = interval ! i\<rparr>) [0..<length interval]))"

definition uidRange :: "UID \<Rightarrow> UID \<Rightarrow> snapMsgList \<Rightarrow> (state_error, snapMsgWithSeq list) outcome" where
  "uidRange uidLo uidHi l =
     (let listLen = length (ml_msg l); (indexLo, _) = binarySearchByUID l uidLo in
      if indexLo \<ge> listLen then Ok []
      else
        (let (hi, ok) = binarySearchByUID l uidHi;
             hi1 = (if ok then hi + 1 else hi);
             indexHi = (if hi1 \<ge> listLen then listLen else hi1) in
         bind_outcome (slice_expr (ml_msg l) indexLo indexHi) (\<lambda>interval.
           Ok (map (\<lambda>i. \<lparr>Seq = of_nat (indexLo + i + 1), sm_ptr = interval ! i\<rparr>)
                 [0..<length interval]))))"

definition getWithUID :: "UID \<Rightarrow> snapMsgList \<Rightarrow> snapMsgWithSeq option" where
  "getWithUID uid l =
     (let (index, ok) = binarySearchByUID l uid in
      if \<not> ok then None else Some (with_seq l index))"

text \<open>The index is \<open>int(id) - 1\<close>: it is negative for the sequence number 0.\<close>

definition getWithSeqID :: "SeqID \<Rightarrow> snapMsgList \<Rightarrow> (state_error, snapMsgWithSeq option) outcome" where
  "getWithSeqID s l =
     (let index = int (unat s) - 1; listLen = length (ml_msg l) in
      if listLen = 0 \<or> index \<ge> int listLen then Ok None
      else if index < 0 then Panic ''index out of range''
      else Ok (Some \<lparr>Seq = s, sm_ptr = ml_msg l ! nat index\<rparr>))"

definition existsWithSeqID :: "SeqID \<Rightarrow> snapMsgList \<Rightarrow> bool" where
  "existsWithSeqID s l \<longleftrightarrow> int (unat s) - 1 < int (length (ml_msg l))"

definition resolveSeq :: "SeqNum \<Rightarrow> snapMsgList \<Rightarrow> (state_error, SeqID) outcome" where
  "resolveSeq number l =
     (if number = SeqNumValueAsterisk then Ok (of_nat (list_len l)) else Ok (ucast number))"

definition resolveUID :: "SeqNum \<Rightarrow> snapMsgList \<Rightarrow> (state_error, UID) outcome" where
  "resolveUID number l =
     (if list_len l = 0 then Err ErrNoSuchMessage
      else if number = SeqNumValueAsterisk
      then bind_outcome (list_last l) (\<lambda>m. Ok (uid_at l (sm_ptr m)))
      else Ok (ucast number))"

text \<open>
  One range, with the numbers resolved by \<open>res\<close>: the bodies of the loops of \<open>resolveSeqInterval\<close>
  and \<open>resolveUIDInterval\<close> are the same but for the resolver.
\<close>

definition resolve_range ::
    "(SeqNum \<Rightarrow> (state_error, uint32) outcome) \<Rightarrow> SeqRange \<Rightarrow> (state_error, Interval) outcome" where
  "resolve_range res r =
     (if Begin r = End r then
        bind_outcome (res (Begin r)) (\<lambda>n. Ok \<lparr>iv_begin = n, iv_end = n\<rparr>)
      else
        (let r' = (if Begin r = SeqNumValueAsterisk then \<lparr>Begin = End r, End = Begin r\<rparr> else r) in
         bind_outcome (res (Begin r')) (\<lambda>b.
           bind_outcome (res (End r')) (\<lambda>e.
             if b > e then
               if End r' \<noteq> SeqNumValueAsterisk then Ok \<lparr>iv_begin = e, iv_end = b\<rparr>
               else Ok \<lparr>iv_begin = b, iv_end = b\<rparr>
             else Ok \<lparr>iv_begin = b, iv_end = e\<rparr>))))"

text \<open>A loop over a slice that appends what its body gives, and stops at the first error.\<close>

fun for_append :: "('a \<Rightarrow> ('e, 'b list) outcome) \<Rightarrow> 'a list \<Rightarrow> 'b list \<Rightarrow> ('e, 'b list) outcome" where
  "for_append f [] acc = Ok acc"
| "for_append f (x # xs) acc = bind_outcome (f x) (\<lambda>ys. for_append f xs (acc @ ys))"

definition resolveSeqInterval :: "SeqRange list \<Rightarrow> snapMsgList \<Rightarrow> (state_error, Interval list) outcome" where
  "resolveSeqInterval seqSet l =
     for_append (\<lambda>r. bind_outcome (resolve_range (\<lambda>n. resolveSeq n l) r) (\<lambda>i. Ok [i])) seqSet []"

definition resolveUIDInterval :: "SeqRange list \<Rightarrow> snapMsgList \<Rightarrow> (state_error, Interval list) outcome" where
  "resolveUIDInterval seqSet l =
     for_append (\<lambda>r. bind_outcome (resolve_range (\<lambda>n. resolveUID n l) r) (\<lambda>i. Ok [i])) seqSet []"

definition getMessagesInSeqRange ::
    "SeqRange list \<Rightarrow> snapMsgList \<Rightarrow> (state_error, snapMsgWithSeq list) outcome" where
  "getMessagesInSeqRange seqSet l =
     bind_outcome (resolveSeqInterval seqSet l) (\<lambda>intervals.
       for_append (\<lambda>iv.
         if iv_begin iv = iv_end iv then
           bind_outcome (getWithSeqID (iv_begin iv) l) (\<lambda>m.
             case m of None \<Rightarrow> Err ErrNoSuchMessage | Some s \<Rightarrow> Ok [s])
         else if \<not> existsWithSeqID (iv_begin iv) l \<or> \<not> existsWithSeqID (iv_end iv) l
         then Err ErrNoSuchMessage
         else seqRange (iv_begin iv) (iv_end iv) l) intervals [])"

definition getMessagesInUIDRange ::
    "SeqRange list \<Rightarrow> snapMsgList \<Rightarrow> (state_error, snapMsgWithSeq list) outcome" where
  "getMessagesInUIDRange seqSet l =
     (if list_len l = 0 then Ok []
      else bind_outcome (resolveUIDInterval seqSet l) (\<lambda>intervals.
        for_append (\<lambda>iv.
          if iv_begin iv = iv_end iv then
            (case getWithUID (iv_begin iv) l of None \<Rightarrow> Ok [] | Some s \<Rightarrow> Ok [s])
          else uidRange (iv_begin iv) (iv_end iv) l) intervals []))"

end
