(* ===== verification/State_SnapMsg_Props.thy ===== *)
theory State_SnapMsg_Props
  imports State_SnapMsgList
begin

text \<open>
  Correctness of the snapshot's message list: the invariant that ties the slice, the map and the heap
  together, the abstraction to a plain list of messages that every operation refines, and what the
  lookups by sequence number and by UID return.
\<close>

section \<open>Search in a sorted list of UIDs\<close>

lemma sorted_below:
  fixes xs :: "'a :: linorder list"
  assumes "sorted_wrt (<) xs" and "i < length xs"
  shows "xs ! i < u \<longleftrightarrow> i < length (filter (\<lambda>v. v < u) xs)"
  using assms
proof (induction xs arbitrary: i)
  case Nil
  then show ?case by simp
next
  case (Cons x xs)
  show ?case
  proof (cases "x < u")
    case True
    with Cons show ?thesis by (cases i) auto
  next
    case False
    with Cons.prems have "\<forall>y \<in> set xs. \<not> y < u" by auto
    then have "filter (\<lambda>v. v < u) xs = []" by (simp add: filter_empty_conv)
    moreover have "\<not> (x # xs) ! i < u"
      using False \<open>\<forall>y \<in> set xs. \<not> y < u\<close> Cons.prems(2) by (cases i) auto
    ultimately show ?thesis using False by simp
  qed
qed

text \<open>
  What the list relies on: the index a search returns is the number of smaller UIDs, and the flag
  says whether the UID is there.
\<close>

locale uid_search =
  fixes valid :: "'l \<Rightarrow> bool" and uids :: "'l \<Rightarrow> UID list" and search :: "'l \<Rightarrow> UID \<Rightarrow> nat \<times> bool"
  assumes uids_sorted: "valid l \<Longrightarrow> sorted_wrt (<) (uids l)"
    and search_index: "valid l \<Longrightarrow> fst (search l u) = length (filter (\<lambda>v. v < u) (uids l))"
    and search_found: "valid l \<Longrightarrow> snd (search l u) \<longleftrightarrow> u \<in> set (uids l)"
begin

lemma index_le: "valid l \<Longrightarrow> fst (search l u) \<le> length (uids l)"
  by (simp add: search_index)

lemma below_iff:
  "valid l \<Longrightarrow> i < length (uids l) \<Longrightarrow> uids l ! i < u \<longleftrightarrow> i < fst (search l u)"
  by (simp add: search_index sorted_below uids_sorted)

lemma found_at:
  assumes "valid l" and "search l u = (k, True)"
  shows "k < length (uids l) \<and> uids l ! k = u"
proof -
  from assms obtain j where j: "j < length (uids l)" "uids l ! j = u"
    using search_found [of l u] by (auto simp: in_set_conv_nth)
  then have "k \<le> j" using below_iff [OF assms(1) j(1), of u] assms(2) by auto
  moreover have "\<not> k < j"
  proof
    assume "k < j"
    then have "uids l ! k < u"
      using sorted_wrt_nth_less [OF uids_sorted [OF assms(1)] _ j(1)] j(2) by auto
    with below_iff [OF assms(1), of k u] j(1) \<open>k < j\<close> assms(2) show False by simp
  qed
  ultimately show ?thesis using j by simp
qed

lemma nth_unique: "valid l \<Longrightarrow> i < length (uids l) \<Longrightarrow> j < length (uids l) \<Longrightarrow> uids l ! i = uids l ! j \<Longrightarrow> i = j"
  using sorted_wrt_nth_less [OF uids_sorted] by (metis less_irrefl linorder_neqE_nat)

lemma search_nth:
  assumes "valid l" and "i < length (uids l)"
  shows "search l (uids l ! i) = (i, True)"
proof -
  have "snd (search l (uids l ! i))" using search_found [OF assms(1)] assms(2) by simp
  then obtain k where k: "search l (uids l ! i) = (k, True)" by (metis prod.collapse)
  with found_at [OF assms(1) this] nth_unique [OF assms(1)] assms(2) show ?thesis by metis
qed

text \<open>The positions of the UIDs between \<open>lo\<close> and \<open>hi\<close> are consecutive.\<close>

definition upper :: "'l \<Rightarrow> UID \<Rightarrow> nat" where
  "upper l u = (let (k, ok) = search l u in if ok then k + 1 else k)"

lemma upper_iff:
  assumes "valid l" and "i < length (uids l)"
  shows "uids l ! i \<le> u \<longleftrightarrow> i < upper l u"
proof (cases "u \<in> set (uids l)")
  case True
  then obtain k where k: "search l u = (k, True)" using search_found [OF assms(1)] by (metis prod.collapse)
  note f = found_at [OF assms(1) k]
  have "uids l ! i = u \<longleftrightarrow> i = k" using f nth_unique [OF assms] by metis
  then show ?thesis using below_iff [OF assms, of u] k by (auto simp: upper_def le_less)
next
  case False
  then have "\<not> snd (search l u)" and "uids l ! i \<noteq> u" using search_found [OF assms(1)] assms(2) by auto
  then show ?thesis using below_iff [OF assms, of u] by (auto simp: upper_def le_less split: prod.splits)
qed

lemma upper_le: "valid l \<Longrightarrow> upper l u \<le> length (uids l)"
  using index_le [of l u] found_at [of l u] by (auto simp: upper_def Suc_le_eq split: prod.splits)

lemma lower_le_upper:
  assumes "valid l" and "lo \<le> hi" and "fst (search l lo) < length (uids l)"
  shows "fst (search l lo) \<le> upper l hi"
proof (rule ccontr)
  assume "\<not> ?thesis"
  then have less: "upper l hi < fst (search l lo)" by simp
  with assms(3) have "upper l hi < length (uids l)" by simp
  with upper_iff [OF assms(1) this, of hi] below_iff [OF assms(1) this, of lo] less assms(2)
  show False by simp
qed

lemma between_positions:
  assumes "valid l" and "lo \<le> hi"
  shows "filter (\<lambda>i. lo \<le> uids l ! i \<and> uids l ! i \<le> hi) [0..<length (uids l)] =
    [fst (search l lo)..<upper l hi]"
proof -
  have "lo \<le> uids l ! i \<and> uids l ! i \<le> hi \<longleftrightarrow> fst (search l lo) \<le> i \<and> i < upper l hi"
    if "i < length (uids l)" for i
    using upper_iff [OF assms(1) that] below_iff [OF assms(1) that] by (auto simp: not_less [symmetric])
  then have "filter (\<lambda>i. lo \<le> uids l ! i \<and> uids l ! i \<le> hi) [0..<length (uids l)] =
      filter (\<lambda>i. fst (search l lo) \<le> i \<and> i < upper l hi) [0..<length (uids l)]"
    by (intro filter_cong) auto
  also have "\<dots> = [fst (search l lo)..<upper l hi]"
    using upper_le [OF assms(1), of hi]
    by (intro sorted_distinct_set_unique) (auto simp: sorted_wrt_filter)
  finally show ?thesis .
qed

end

section \<open>The invariant and the abstraction\<close>

definition list_uids :: "snapMsgList \<Rightarrow> UID list" where
  "list_uids l = map (uid_at l) (ml_msg l)"

text \<open>
  UIDs are strictly ascending; the map holds exactly the messages of the slice, under their internal
  IDs; addresses are allocated; and a message is marked for expunging exactly when it has the flag
  Deleted.
\<close>

definition msg_ok :: "snapMsg \<Rightarrow> bool" where
  "msg_ok m \<longleftrightarrow> flagset_ok (sm_flags m) \<and> toExpunge m = ContainsUnchecked (sm_flags m) FlagDeletedLowerCase"

definition snap_ok :: "snapMsgList \<Rightarrow> bool" where
  "snap_ok l \<longleftrightarrow> sorted_wrt (<) (list_uids l)
     \<and> (\<forall>a \<in> set (ml_msg l). a < ml_next l \<and> msg_ok (msg_at l a))
     \<and> (\<forall>i a. ml_idx l i = Some a \<longleftrightarrow> a \<in> set (ml_msg l) \<and> InternalID (sm_ID (msg_at l a)) = i)"

text \<open>What the list stands for: the messages in order.\<close>

definition view :: "snapMsgList \<Rightarrow> snapMsg list" where
  "view l = map (msg_at l) (ml_msg l)"

abbreviation int_id :: "snapMsg \<Rightarrow> InternalMessageID" where
  "int_id m \<equiv> InternalID (sm_ID m)"

lemma list_uids_view: "list_uids l = map sm_UID (view l)"
  by (simp add: list_uids_def view_def)

lemma length_view [simp]: "length (view l) = length (ml_msg l)" "length (list_uids l) = length (ml_msg l)"
  by (simp_all add: view_def list_uids_def)

lemma snap_ok_sorted: "snap_ok l \<Longrightarrow> sorted_wrt (<) (list_uids l)"
  by (simp add: snap_ok_def)

lemma snap_ok_idx: "snap_ok l \<Longrightarrow> ml_idx l i = Some a \<longleftrightarrow> a \<in> set (ml_msg l) \<and> int_id (msg_at l a) = i"
  by (simp add: snap_ok_def)

lemma snap_ok_fresh: "snap_ok l \<Longrightarrow> ml_next l \<notin> set (ml_msg l)"
  by (auto simp: snap_ok_def)

lemma snap_ok_distinct: "snap_ok l \<Longrightarrow> distinct (list_uids l)"
  using strict_sorted_imp_sorted strict_sorted_iff snap_ok_sorted by blast

lemma binarySearchByUID_spec:
  assumes "sorted_wrt (<) (list_uids l)"
  shows "binarySearchByUID l u = (length (filter (\<lambda>v. v < u) (list_uids l)), u \<in> set (list_uids l))"
proof -
  let ?xs = "ml_msg l" and ?n = "length (ml_msg l)"
  let ?below = "\<lambda>h. int (unat (uid_at l (?xs ! h))) - int (unat u) < 0"
  have below: "?below h \<longleftrightarrow> list_uids l ! h < u" if "h < ?n" for h
    using that by (simp add: list_uids_def word_less_def)
  have less: "list_uids l ! a < list_uids l ! b" if "a < b" "b < ?n" for a b
    using sorted_wrt_nth_less [OF assms that(1)] that(2) by simp
  define k where "k = bsearch_loop ?below 0 ?n"
  have mono: "?below a" if "a < b" "b < ?n" "?below b" for a b
    using less [OF that(1,2)] below [of a] below [OF that(2)] that by (meson order.strict_trans)
  have "k \<le> ?n \<and> (\<forall>a < ?n. ?below a \<longleftrightarrow> a < k)"
    unfolding k_def by (rule bsearch_loop_correct) (simp, simp, erule (2) mono, simp_all)
  then have k: "k \<le> ?n" "\<forall>a < ?n. ?below a \<longleftrightarrow> a < k" by blast+
  have iff: "list_uids l ! a < u \<longleftrightarrow> a < length (filter (\<lambda>v. v < u) (list_uids l))" if "a < ?n" for a
    using sorted_below [OF assms] that by simp
  have len: "k = length (filter (\<lambda>v. v < u) (list_uids l))"
  proof (rule ccontr)
    let ?m = "length (filter (\<lambda>v. v < u) (list_uids l))"
    assume "k \<noteq> ?m"
    then have "min k ?m < ?n" using k(1) length_filter_le [of "\<lambda>v. v < u" "list_uids l"] by auto
    with k(2) iff [OF this] below [OF this] \<open>k \<noteq> ?m\<close> show False by auto
  qed
  have found: "k < ?n \<and> uid_at l (?xs ! k) = u \<longleftrightarrow> u \<in> set (list_uids l)"
  proof
    assume "u \<in> set (list_uids l)"
    then obtain j where j: "j < ?n" "list_uids l ! j = u" by (auto simp: in_set_conv_nth)
    then have "k \<le> j" using k(2) below [OF j(1)] by auto
    moreover have "\<not> k < j" using less [of k j] j k(2) below [of k] by auto
    ultimately show "k < ?n \<and> uid_at l (?xs ! k) = u" using j by (simp add: list_uids_def)
  qed (auto simp: list_uids_def)
  have "binarySearchByUID l u = (k, k < ?n \<and> int (unat (uid_at l (?xs ! k))) - int (unat u) = 0)"
    by (simp add: binarySearchByUID_def BinarySearchFunc_def k_def Let_def)
  with found len show ?thesis by (simp add: word_uint_eq_iff)
qed

interpretation snap: uid_search snap_ok list_uids binarySearchByUID
  by unfold_locales (simp_all add: snap_ok_sorted binarySearchByUID_spec)

lemma snap_search_eq: "snap_ok l \<Longrightarrow> binarySearchByUID l u =
    (length (filter (\<lambda>v. v < u) (list_uids l)), u \<in> set (list_uids l))"
  by (rule binarySearchByUID_spec) (rule snap_ok_sorted)

section \<open>Updates refine operations on lists\<close>

text \<open>The message list kept in the order of UIDs, with a message added.\<close>

definition spec_add :: "snapMsg \<Rightarrow> snapMsg list \<Rightarrow> snapMsg list" where
  "spec_add m ms = filter (\<lambda>x. sm_UID x < sm_UID m) ms @ [m] @ filter (\<lambda>x. \<not> sm_UID x < sm_UID m) ms"

definition spec_remove :: "InternalMessageID \<Rightarrow> snapMsg list \<Rightarrow> snapMsg list" where
  "spec_remove i ms = filter (\<lambda>m. int_id m \<noteq> i) ms"

definition spec_update :: "InternalMessageID \<Rightarrow> (snapMsg \<Rightarrow> snapMsg) \<Rightarrow> snapMsg list \<Rightarrow> snapMsg list" where
  "spec_update i f ms = map (\<lambda>m. if int_id m = i then f m else m) ms"

definition spec_has :: "InternalMessageID \<Rightarrow> snapMsg list \<Rightarrow> bool" where
  "spec_has i ms \<longleftrightarrow> (\<exists>m \<in> set ms. int_id m = i)"

lemma list_has_view: "snap_ok l \<Longrightarrow> list_has i l \<longleftrightarrow> spec_has i (view l)"
  by (auto simp: list_has_def spec_has_def view_def snap_ok_idx)

lemma view_place:
  assumes "snap_ok l"
  shows "view (place k i uid fl l) = take k (view l) @ [newSnapMsg i uid fl] @ drop k (view l)"
proof -
  have "\<forall>a \<in> set (take k (ml_msg l)). a \<noteq> ml_next l" "\<forall>a \<in> set (drop k (ml_msg l)). a \<noteq> ml_next l"
    using snap_ok_fresh [OF assms] by (auto dest: in_set_takeD in_set_dropD)
  then show ?thesis by (auto simp: view_def place_def take_map drop_map)
qed

lemma set_take_drop: "set (take k xs) \<union> set (drop k xs) = set xs"
  using append_take_drop_id [of k xs] by (metis set_append)

lemma snap_ok_place:
  assumes "snap_ok l" and "\<not> list_has (InternalID i) l" and "flagset_ok fl"
    and "\<forall>j < length (ml_msg l). if j < k then list_uids l ! j < uid else uid < list_uids l ! j"
  shows "snap_ok (place k i uid fl l)"
proof -
  let ?l = "place k i uid fl l" and ?n = "ml_next l"
  have fresh: "?n \<notin> set (ml_msg l)" using assms(1) by (rule snap_ok_fresh)
  have set: "set (ml_msg ?l) = insert ?n (set (ml_msg l))"
    by (simp add: place_def set_take_drop)
  have at: "msg_at ?l a = (if a = ?n then newSnapMsg i uid fl else msg_at l a)" for a
    by (simp add: place_def)
  have "list_uids ?l = take k (list_uids l) @ [uid] @ drop k (list_uids l)"
    unfolding list_uids_view view_place [OF assms(1)] by (simp add: take_map drop_map newSnapMsg_def)
  moreover have "sorted_wrt (<) (take k (list_uids l) @ [uid] @ drop k (list_uids l))"
  proof -
    have "sorted_wrt (<) (take k (list_uids l) @ drop k (list_uids l))"
      using snap_ok_sorted [OF assms(1)] by simp
    moreover have "\<forall>x \<in> set (take k (list_uids l)). x < uid"
      using assms(4) by (auto simp: in_set_conv_nth split: if_splits)
    moreover have "uid < list_uids l ! (k + j)" if "j < length (ml_msg l) - k" for j
      using assms(4) [rule_format, of "k + j"] that by simp
    then have "\<forall>x \<in> set (drop k (list_uids l)). uid < x" by (auto simp: in_set_conv_nth)
    ultimately show ?thesis by (auto simp: sorted_wrt_append intro: order.strict_trans [of _ uid])
  qed
  moreover have "\<forall>a \<in> set (ml_msg ?l). a < ml_next ?l \<and> msg_ok (msg_at ?l a)"
    using assms(1,3) unfolding set at
    by (auto simp: snap_ok_def msg_ok_def newSnapMsg_def place_def less_Suc_eq)
  moreover have "ml_idx ?l j = Some a \<longleftrightarrow> a \<in> set (ml_msg ?l) \<and> int_id (msg_at ?l a) = j" for j a
  proof (cases "a = ?n")
    case True
    then show ?thesis using snap_ok_idx [OF assms(1), of j a] fresh
      unfolding set at by (simp add: place_def newSnapMsg_def)
  next
    case False
    have "a \<in> set (ml_msg l) \<Longrightarrow> int_id (msg_at l a) \<noteq> InternalID i"
      using snap_ok_idx [OF assms(1), of "InternalID i" a] assms(2) by (auto simp: list_has_def)
    with False show ?thesis using snap_ok_idx [OF assms(1), of j a]
      unfolding set at by (auto simp: place_def)
  qed
  ultimately show ?thesis by (simp add: snap_ok_def)
qed

lemma spec_add_take:
  assumes "sorted_wrt (<) (map sm_UID ms)"
  shows "spec_add m ms = take (length (filter (\<lambda>v. v < sm_UID m) (map sm_UID ms))) ms @ [m]
    @ drop (length (filter (\<lambda>v. v < sm_UID m) (map sm_UID ms))) ms"
  using assms
proof (induction ms)
  case (Cons x ms)
  show ?case
  proof (cases "sm_UID x < sm_UID m")
    case False
    with Cons.prems have above: "\<forall>y \<in> set ms. \<not> sm_UID y < sm_UID m" by auto
    then have "filter (\<lambda>y. sm_UID y < sm_UID m) ms = []" "filter (\<lambda>y. \<not> sm_UID y < sm_UID m) ms = ms"
      by (simp_all add: filter_empty_conv)
    with False above show ?thesis by (simp add: spec_add_def filter_map o_def)
  qed (use Cons in \<open>simp add: spec_add_def\<close>)
qed (simp add: spec_add_def)

lemma insertOutOfOrder_view:
  assumes "snap_ok l"
  shows "insertOutOfOrder i uid fl l = (if uid \<in> set (list_uids l) then Panic ''Duplicate UID added''
      else Ok (place (length (filter (\<lambda>v. v < uid) (list_uids l))) i uid fl l))"
    and "view (place (length (filter (\<lambda>v. v < uid) (list_uids l))) i uid fl l)
      = spec_add (newSnapMsg i uid fl) (view l)"
  using spec_add_take [of "view l" "newSnapMsg i uid fl"] snap_ok_sorted [OF assms]
  by (simp_all add: insertOutOfOrder_def snap_search_eq [OF assms] view_place [OF assms]
      list_uids_view newSnapMsg_def)

lemma insertOutOfOrder_snap_ok:
  assumes "snap_ok l" and "\<not> list_has (InternalID i) l" and "flagset_ok fl" and "uid \<notin> set (list_uids l)"
  shows "snap_ok (place (length (filter (\<lambda>v. v < uid) (list_uids l))) i uid fl l)"
proof (rule snap_ok_place [OF assms(1-3)], intro allI impI)
  fix j assume j: "j < length (ml_msg l)"
  then have "list_uids l ! j \<noteq> uid" using assms(4) by (metis length_view(2) nth_mem)
  then show "if j < length (filter (\<lambda>v. v < uid) (list_uids l)) then list_uids l ! j < uid
      else uid < list_uids l ! j"
    using sorted_below [OF snap_ok_sorted [OF assms(1)], of j uid] j by auto
qed

lemma above_all:
  assumes "snap_ok l" and "ml_msg l \<noteq> []" and "uid_at l (last (ml_msg l)) < uid"
  shows "\<forall>x \<in> set (list_uids l). x < uid"
proof -
  obtain ys a where "ml_msg l = ys @ [a]" using assms(2) by (cases "ml_msg l" rule: rev_cases) auto
  then show ?thesis using snap_ok_sorted [OF assms(1)] assms(3)
    by (auto simp: list_uids_def sorted_wrt_append intro: order.strict_trans [of _ "uid_at l a"])
qed

lemma list_insert_eq:
  "list_insert i uid fl l = (if ml_msg l \<noteq> [] \<and> uid \<le> uid_at l (last (ml_msg l))
     then Err (ErrOutOfOrderUIDInsertion (uid_at l (last (ml_msg l))) uid)
     else Ok (place (length (ml_msg l)) i uid fl l))"
  by (simp add: list_insert_def)

lemma list_insert_snap_ok:
  assumes "snap_ok l" and "\<not> list_has (InternalID i) l" and "flagset_ok fl"
    and "list_insert i uid fl l = Ok l'"
  shows "snap_ok l' \<and> view l' = view l @ [newSnapMsg i uid fl]"
proof -
  have below: "ml_msg l = [] \<or> uid_at l (last (ml_msg l)) < uid"
    and l': "l' = place (length (ml_msg l)) i uid fl l"
    using assms(4) unfolding list_insert_eq by (auto split: if_splits)
  have "\<forall>x \<in> set (list_uids l). x < uid"
  proof (cases "ml_msg l = []")
    case False
    with above_all [OF assms(1) False] below show ?thesis by simp
  qed (simp add: list_uids_def)
  then have "\<forall>j < length (ml_msg l). list_uids l ! j < uid" by simp
  then have "snap_ok l'" unfolding l' by (intro snap_ok_place [OF assms(1-3)]) simp
  moreover have "view l' = view l @ [newSnapMsg i uid fl]"
    unfolding l' view_place [OF assms(1)] by simp
  ultimately show ?thesis by blast
qed

lemma int_id_inj:
  assumes "snap_ok l" and "a \<in> set (ml_msg l)" and "b \<in> set (ml_msg l)"
    and "int_id (msg_at l a) = int_id (msg_at l b)"
  shows "a = b"
  using assms snap_ok_idx [OF assms(1), of "int_id (msg_at l a)" a]
    snap_ok_idx [OF assms(1), of "int_id (msg_at l a)" b] by simp

lemma idx_search:
  assumes "snap_ok l" and "ml_idx l i = Some a"
  obtains k where "k < length (ml_msg l)" "ml_msg l ! k = a" "binarySearchByUID l (uid_at l a) = (k, True)"
proof -
  from assms have "a \<in> set (ml_msg l)" by (simp add: snap_ok_idx)
  then obtain k where k: "k < length (ml_msg l)" "ml_msg l ! k = a" by (auto simp: in_set_conv_nth)
  with snap.search_nth [OF assms(1), of k] that [of k] show ?thesis by (simp add: list_uids_def)
qed

lemma msgs_distinct: "snap_ok l \<Longrightarrow> distinct (ml_msg l)"
  using snap_ok_distinct by (auto simp: list_uids_def distinct_map)

lemma filter_remove_nth:
  "distinct xs \<Longrightarrow> k < length xs \<Longrightarrow> take k xs @ drop (Suc k) xs = filter (\<lambda>x. x \<noteq> xs ! k) xs"
proof (induction xs arbitrary: k)
  case (Cons x xs)
  then have "filter (\<lambda>y. y \<noteq> x) xs = xs" by (auto simp: filter_id_conv)
  with Cons show ?case by (cases k) auto
qed simp

lemma list_remove_eq:
  assumes "snap_ok l"
  shows "list_remove i l = (case ml_idx l i of None \<Rightarrow> (False, l)
    | Some a \<Rightarrow> (True, l\<lparr>ml_idx := (ml_idx l)(i := None), ml_msg := filter (\<lambda>x. x \<noteq> a) (ml_msg l)\<rparr>))"
proof (cases "ml_idx l i")
  case (Some a)
  then obtain k where k: "k < length (ml_msg l)" "ml_msg l ! k = a"
      "binarySearchByUID l (uid_at l a) = (k, True)" using idx_search [OF assms] by blast
  then show ?thesis using Some filter_remove_nth [OF msgs_distinct [OF assms] k(1)]
    by (simp add: list_remove_def)
qed (simp add: list_remove_def)

lemma list_remove_refines:
  assumes "snap_ok l"
  shows "snap_ok (snd (list_remove i l)) \<and> fst (list_remove i l) = spec_has i (view l)
    \<and> view (snd (list_remove i l)) = spec_remove i (view l)"
proof (cases "ml_idx l i")
  case None
  then have "\<forall>a \<in> set (ml_msg l). int_id (msg_at l a) \<noteq> i"
    using snap_ok_idx [OF assms, of i] by force
  then show ?thesis using assms None
    by (auto simp: list_remove_eq spec_has_def spec_remove_def view_def filter_id_conv)
next
  case (Some a)
  then have a: "a \<in> set (ml_msg l)" "int_id (msg_at l a) = i" using snap_ok_idx [OF assms] by auto
  have iff: "int_id (msg_at l b) = i \<longleftrightarrow> b = a" if "b \<in> set (ml_msg l)" for b
    using int_id_inj [OF assms that a(1)] a(2) by auto
  let ?l = "l\<lparr>ml_idx := (ml_idx l)(i := None), ml_msg := filter (\<lambda>x. x \<noteq> a) (ml_msg l)\<rparr>"
  have "list_uids ?l = map (uid_at l) (filter (\<lambda>x. x \<noteq> a) (ml_msg l))" by (simp add: list_uids_def)
  then have "sorted_wrt (<) (list_uids ?l)"
    using snap_ok_sorted [OF assms] by (simp add: list_uids_def sorted_wrt_map sorted_wrt_filter)
  moreover have "(\<forall>j b. ml_idx ?l j = Some b \<longleftrightarrow> b \<in> set (ml_msg ?l) \<and> int_id (msg_at ?l b) = j)"
    using iff snap_ok_idx [OF assms] by auto
  ultimately have "snap_ok ?l" using assms by (auto simp: snap_ok_def)
  moreover have "filter (\<lambda>x. int_id (msg_at l x) \<noteq> i) (ml_msg l) = filter (\<lambda>x. x \<noteq> a) (ml_msg l)"
    using iff by (intro filter_cong) auto
  then have "view ?l = spec_remove i (view l)" by (simp add: view_def spec_remove_def filter_map o_def)
  ultimately show ?thesis using Some a by (auto simp: list_remove_eq [OF assms] spec_has_def view_def)
qed

lemma spec_update_id: "(\<And>m. m \<in> set ms \<Longrightarrow> int_id m \<noteq> i) \<Longrightarrow> spec_update i f ms = ms"
  by (simp add: spec_update_def map_idI)

text \<open>Writing through a message pointer that the map holds.\<close>

definition write_msg :: "(snapMsg \<Rightarrow> snapMsg) \<Rightarrow> addr \<Rightarrow> snapMsgList \<Rightarrow> snapMsgList" where
  "write_msg f a l = l\<lparr>ml_heap := (ml_heap l)(a := f (msg_at l a))\<rparr>"

lemma write_msg_refines:
  assumes "snap_ok l" and "ml_idx l i = Some a"
    and "\<And>m. sm_UID (f m) = sm_UID m" and "\<And>m. int_id (f m) = int_id m" and "\<And>m. msg_ok m \<Longrightarrow> msg_ok (f m)"
  shows "snap_ok (write_msg f a l) \<and> view (write_msg f a l) = spec_update i f (view l)"
proof -
  have a: "a \<in> set (ml_msg l)" "int_id (msg_at l a) = i" using assms(1,2) snap_ok_idx by auto
  have iff: "int_id (msg_at l b) = i \<longleftrightarrow> b = a" if "b \<in> set (ml_msg l)" for b
    using int_id_inj [OF assms(1) that a(1)] a(2) by auto
  have at: "msg_at (write_msg f a l) b = (if b = a then f (msg_at l a) else msg_at l b)" for b
    by (simp add: write_msg_def)
  have fields: "ml_msg (write_msg f a l) = ml_msg l" "ml_idx (write_msg f a l) = ml_idx l"
    "ml_next (write_msg f a l) = ml_next l" by (simp_all add: write_msg_def)
  have "list_uids (write_msg f a l) = list_uids l"
    unfolding list_uids_def fields at by (simp add: assms(3))
  then have "snap_ok (write_msg f a l)"
    using assms(1) a assms(4,5) unfolding snap_ok_def fields at by auto
  moreover have "view (write_msg f a l) = spec_update i f (view l)"
    unfolding view_def spec_update_def fields at using iff a by auto
  ultimately show ?thesis by blast
qed

lemma no_idx_spec_has: "snap_ok l \<Longrightarrow> ml_idx l i = None \<Longrightarrow> \<not> spec_has i (view l)"
  using list_has_view [of l i] by (simp add: list_has_def)

abbreviation set_remote :: "MessageID \<Rightarrow> snapMsg \<Rightarrow> snapMsg" where
  "set_remote r m \<equiv> m\<lparr>sm_ID := (sm_ID m)\<lparr>RemoteID := r\<rparr>\<rparr>"

lemma list_update_remote_refines:
  assumes "snap_ok l"
  shows "snap_ok (snd (list_update_remote i r l)) \<and> fst (list_update_remote i r l) = spec_has i (view l)
    \<and> view (snd (list_update_remote i r l)) = spec_update i (set_remote r) (view l)"
proof (cases "ml_idx l i")
  case None
  then show ?thesis using assms no_idx_spec_has [OF assms None]
    by (simp add: list_update_remote_def spec_has_def spec_update_id)
next
  case (Some a)
  have "snap_ok (write_msg (set_remote r) a l) \<and>
      view (write_msg (set_remote r) a l) = spec_update i (set_remote r) (view l)"
    by (rule write_msg_refines [OF assms Some]) (simp_all add: msg_ok_def)
  then show ?thesis using Some list_has_view [OF assms, of i]
    by (simp add: list_update_remote_def write_msg_def list_has_def)
qed

lemma newMsgList_ok: "snap_ok newMsgList" "view newMsgList = []"
  by (simp_all add: newMsgList_def snap_ok_def view_def list_uids_def)

section \<open>Lookups\<close>

lemma list_get_spec:
  assumes "snap_ok l" and "k < length (ml_msg l)"
  shows "list_get (int_id (view l ! k)) l = Some (with_seq l k)"
proof -
  have "ml_idx l (int_id (view l ! k)) = Some (ml_msg l ! k)"
    using assms by (simp add: snap_ok_idx view_def)
  moreover have "binarySearchByUID l (uid_at l (ml_msg l ! k)) = (k, True)"
    using snap.search_nth [OF assms(1), of k] assms(2) by (simp add: list_uids_def)
  ultimately show ?thesis by (simp add: list_get_def)
qed

lemma list_get_None: "snap_ok l \<Longrightarrow> list_get i l = None \<longleftrightarrow> \<not> spec_has i (view l)"
  using list_has_view [of l i]
  by (auto simp: list_get_def list_has_def split: option.splits elim: idx_search)

lemma where_seq_spec:
  "where_seq l fn = map (with_seq l) (filter (\<lambda>i. fn (with_seq l i)) [0..<length (ml_msg l)])"
  by (simp add: where_seq_def filter_map o_def)

lemma whereCount_spec: "whereCount l fn = length (where_seq l fn)"
proof -
  have "foldl (\<lambda>r s. if fn s then r + 1 else r) k xs = k + length (filter fn xs)" for k :: nat and xs
    by (induction xs arbitrary: k) auto
  then show ?thesis by (simp add: whereCount_def where_seq_def)
qed

lemma for_append_guard:
  assumes "\<And>x. x \<in> set xs \<Longrightarrow> f x = (if P x then Ok (g x) else Err e)"
  shows "for_append f xs acc = (if \<forall>x \<in> set xs. P x then Ok (acc @ concat (map g xs)) else Err e)"
  using assms by (induction xs arbitrary: acc) auto

lemma for_append_Ok:
  assumes "\<And>x. x \<in> set xs \<Longrightarrow> f x = Ok (g x)"
  shows "for_append f xs acc = Ok (acc @ concat (map g xs))"
  using for_append_guard [of xs f "\<lambda>_. True" g undefined acc] assms by simp

text \<open>
  The numbers a range stands for, when the asterisk stands for \<open>star\<close>: from the smaller bound to the
  larger, but for a range with one asterisk and the other bound above \<open>star\<close>, which is that bound alone.
\<close>

definition resolved :: "uint32 \<Rightarrow> SeqNum \<Rightarrow> uint32" where
  "resolved star n = (if n = SeqNumValueAsterisk then star else ucast n)"

definition spec_interval :: "uint32 \<Rightarrow> SeqRange \<Rightarrow> uint32 \<times> uint32" where
  "spec_interval star r =
     (let lo = min (resolved star (Begin r)) (resolved star (End r));
          hi = max (resolved star (Begin r)) (resolved star (End r)) in
      if (Begin r = SeqNumValueAsterisk) \<noteq> (End r = SeqNumValueAsterisk) \<and> star < hi then (hi, hi) else (lo, hi))"

lemma spec_interval_le: "fst (spec_interval star r) \<le> snd (spec_interval star r)"
  by (auto simp: spec_interval_def Let_def min_def max_def)

lemma resolve_range_spec:
  assumes "\<And>n. res n = Ok (resolved star n)"
  shows "resolve_range res r = Ok \<lparr>iv_begin = fst (spec_interval star r), iv_end = snd (spec_interval star r)\<rparr>"
  by (cases r) (auto simp: resolve_range_def assms spec_interval_def resolved_def Let_def min_def max_def)

definition interval_of :: "uint32 \<Rightarrow> SeqRange \<Rightarrow> Interval" where
  "interval_of star r = \<lparr>iv_begin = fst (spec_interval star r), iv_end = snd (spec_interval star r)\<rparr>"

lemma resolve_loop_spec:
  assumes "\<And>n. res n = Ok (resolved star n)"
  shows "for_append (\<lambda>r. bind_outcome (resolve_range res r) (\<lambda>i. Ok [i])) rs [] =
    (Ok (map (interval_of star) rs) :: (state_error, Interval list) outcome)"
proof -
  have "concat (map (\<lambda>r. [interval_of star r]) rs) = map (interval_of star) rs" by (induction rs) auto
  then show ?thesis
    by (subst for_append_Ok [where g = "\<lambda>r. [interval_of star r]"])
      (simp_all add: resolve_range_spec [OF assms] interval_of_def)
qed

abbreviation star_uid :: "snapMsgList \<Rightarrow> UID" where
  "star_uid l \<equiv> last (list_uids l)"

lemma resolveUID_spec: "ml_msg l \<noteq> [] \<Longrightarrow> resolveUID n l = Ok (resolved (star_uid l) n)"
  by (simp add: resolveUID_def resolved_def list_len_def list_last_def list_uids_def last_map)

lemma resolveSeq_spec: "resolveSeq n l = Ok (resolved (of_nat (length (ml_msg l))) n)"
  by (simp add: resolveSeq_def resolved_def list_len_def)

text \<open>The positions of the messages a UID range selects.\<close>

definition uid_positions :: "snapMsgList \<Rightarrow> SeqRange \<Rightarrow> nat list" where
  "uid_positions l r =
     filter (\<lambda>i. fst (spec_interval (star_uid l) r) \<le> list_uids l ! i
                \<and> list_uids l ! i \<le> snd (spec_interval (star_uid l) r)) [0..<length (ml_msg l)]"

lemma slice_with_seq:
  assumes "lo \<le> hi" and "hi \<le> length (ml_msg l)" and "\<And>i. sq i = of_nat (lo + i + 1)"
  shows "bind_outcome (slice_expr (ml_msg l) lo hi) (\<lambda>interval.
      Ok (map (\<lambda>i. \<lparr>Seq = sq i, sm_ptr = interval ! i\<rparr>) [0..<length interval])) =
    Ok (map (with_seq l) [lo..<hi])"
proof -
  have "map (\<lambda>i. \<lparr>Seq = sq i, sm_ptr = take (hi - lo) (drop lo (ml_msg l)) ! i\<rparr>) [0..<hi - lo]
      = map (with_seq l) [lo..<hi]"
    using assms by (intro nth_equalityI) (simp_all add: with_seq_def)
  then show ?thesis using assms(1,2) by (simp add: slice_expr_def)
qed

lemma uidRange_spec:
  assumes "snap_ok l" and "lo \<le> hi"
  shows "uidRange lo hi l = Ok (map (with_seq l)
    (filter (\<lambda>i. lo \<le> list_uids l ! i \<and> list_uids l ! i \<le> hi) [0..<length (ml_msg l)]))"
proof -
  note pos = snap.between_positions [OF assms, unfolded length_view]
  obtain a x where a: "binarySearchByUID l lo = (a, x)" by fastforce
  obtain b ok where b: "binarySearchByUID l hi = (b, ok)" by fastforce
  let ?u = "if ok then b + 1 else b"
  have u: "snap.upper l hi = ?u" by (simp add: snap.upper_def b)
  have ule: "?u \<le> length (ml_msg l)" using snap.upper_le [OF assms(1), of hi] unfolding u by simp
  show ?thesis
  proof (cases "a < length (ml_msg l)")
    case True
    then have le: "a \<le> ?u" using snap.lower_le_upper [OF assms] unfolding u by (simp add: a)
    have "\<not> length (ml_msg l) \<le> a" using True by simp
    moreover have "(if length (ml_msg l) \<le> ?u then length (ml_msg l) else ?u) = ?u"
      using ule by (cases ok) auto
    ultimately have "uidRange lo hi l = Ok (map (with_seq l) [a..<?u])"
      unfolding uidRange_def Let_def a b prod.case
      by (simp only: if_False slice_with_seq [OF le ule refl])
    then show ?thesis unfolding pos u a by simp
  next
    case False
    then show ?thesis unfolding pos u a using ule by (simp add: uidRange_def a)
  qed
qed

lemma getWithUID_spec:
  assumes "snap_ok l"
  shows "(case getWithUID u l of None \<Rightarrow> Ok [] | Some s \<Rightarrow> Ok [s]) =
    (Ok (map (with_seq l) (filter (\<lambda>i. u \<le> list_uids l ! i \<and> list_uids l ! i \<le> u) [0..<length (ml_msg l)]))
      :: (state_error, snapMsgWithSeq list) outcome)"
proof -
  note pos = snap.between_positions [OF assms order_refl, unfolded length_view]
  obtain b ok where b: "binarySearchByUID l u = (b, ok)" by fastforce
  then show ?thesis unfolding pos by (simp add: getWithUID_def snap.upper_def)
qed

lemma getMessagesInUIDRange_eq:
  assumes "snap_ok l"
  shows "getMessagesInUIDRange rs l = Ok (concat (map (\<lambda>r. map (with_seq l) (uid_positions l r)) rs))"
proof (cases "ml_msg l = []")
  case True
  then show ?thesis by (simp add: getMessagesInUIDRange_def list_len_def uid_positions_def)
next
  case False
  let ?f = "\<lambda>iv. if iv_begin iv = iv_end iv
    then case getWithUID (iv_begin iv) l of None \<Rightarrow> Ok [] | Some s \<Rightarrow> Ok [s]
    else uidRange (iv_begin iv) (iv_end iv) l"
  let ?g = "\<lambda>iv. map (with_seq l)
    (filter (\<lambda>i. iv_begin iv \<le> list_uids l ! i \<and> list_uids l ! i \<le> iv_end iv) [0..<length (ml_msg l)])"
  have step: "?f iv = Ok (?g iv)" if "iv \<in> set (map (interval_of (star_uid l)) rs)" for iv
  proof -
    have "iv_begin iv \<le> iv_end iv" using that by (auto simp: interval_of_def spec_interval_le)
    then show ?thesis
      using getWithUID_spec [OF assms, of "iv_end iv"] uidRange_spec [OF assms] by simp
  qed
  have "for_append ?f (map (interval_of (star_uid l)) rs) [] =
      Ok ([] @ concat (map ?g (map (interval_of (star_uid l)) rs)))"
    by (rule for_append_Ok) (rule step)
  then show ?thesis using False
    unfolding getMessagesInUIDRange_def resolveUIDInterval_def resolve_loop_spec [OF resolveUID_spec [OF False]]
    by (simp add: list_len_def uid_positions_def interval_of_def o_def)
qed

text \<open>The positions of the messages a range of sequence numbers selects.\<close>

abbreviation star_seq :: "snapMsgList \<Rightarrow> SeqID" where
  "star_seq l \<equiv> of_nat (length (ml_msg l))"

definition seq_positions :: "snapMsgList \<Rightarrow> SeqRange \<Rightarrow> nat list" where
  "seq_positions l r = [unat (fst (spec_interval (star_seq l) r)) - 1 ..< unat (snd (spec_interval (star_seq l) r))]"

definition seq_in_mailbox :: "snapMsgList \<Rightarrow> SeqRange \<Rightarrow> bool" where
  "seq_in_mailbox l r \<longleftrightarrow> ml_msg l \<noteq> [] \<and> unat (snd (spec_interval (star_seq l) r)) \<le> length (ml_msg l)"

lemma unat_minus_1: "(n :: uint32) \<noteq> 0 \<Longrightarrow> unat (n - 1) = unat n - 1"
  by (simp add: unat_minus_one)

lemma seqRange_spec:
  assumes "lo \<le> hi" and "lo \<noteq> 0" and "unat hi \<le> length (ml_msg l)"
  shows "seqRange lo hi l = Ok (map (with_seq l) [unat lo - 1..<unat hi])"
proof -
  have lo: "0 < unat lo" "unat lo \<le> unat hi"
    using assms by (simp_all add: unat_gt_0 word_le_nat_alt)
  have "lo + of_nat i = of_nat (unat lo - 1 + i + 1)" for i
  proof -
    have "unat lo - 1 + i + 1 = unat lo + i" using lo by simp
    then show ?thesis by (simp only:) simp
  qed
  then show ?thesis unfolding seqRange_def unat_minus_1 [OF assms(2)]
    using lo assms(3) by (intro slice_with_seq) auto
qed

definition seq_step :: "snapMsgList \<Rightarrow> Interval \<Rightarrow> (state_error, snapMsgWithSeq list) outcome" where
  "seq_step l iv =
     (if iv_begin iv = iv_end iv then
        bind_outcome (getWithSeqID (iv_begin iv) l) (\<lambda>m.
          case m of None \<Rightarrow> Err ErrNoSuchMessage | Some s \<Rightarrow> Ok [s])
      else if \<not> existsWithSeqID (iv_begin iv) l \<or> \<not> existsWithSeqID (iv_end iv) l
      then Err ErrNoSuchMessage
      else seqRange (iv_begin iv) (iv_end iv) l)"

lemma with_seq_of: "n \<noteq> 0 \<Longrightarrow> with_seq l (unat n - 1) = \<lparr>Seq = n, sm_ptr = ml_msg l ! (unat n - 1)\<rparr>"
  by (simp add: with_seq_def unat_gt_0 Suc_diff_1)

lemma getWithSeqID_pos:
  assumes "n \<noteq> 0"
  shows "getWithSeqID n l = Ok (if unat n \<le> length (ml_msg l) then Some (with_seq l (unat n - 1)) else None)"
proof -
  have "0 < unat n" using assms by (simp add: unat_gt_0)
  then obtain k where k: "unat n = Suc k" using gr0_conv_Suc by blast
  show ?thesis using with_seq_of [OF assms, of l] unfolding getWithSeqID_def k Let_def by auto
qed

lemma seq_step_spec:
  assumes "iv_begin iv \<le> iv_end iv" and "ml_msg l = [] \<or> iv_begin iv \<noteq> 0"
  shows "seq_step l iv = (if ml_msg l \<noteq> [] \<and> unat (iv_end iv) \<le> length (ml_msg l)
    then Ok (map (with_seq l) [unat (iv_begin iv) - 1..<unat (iv_end iv)]) else Err ErrNoSuchMessage)"
proof -
  let ?lo = "unat (iv_begin iv)" and ?hi = "unat (iv_end iv)"
  have le: "?lo \<le> ?hi" using assms(1) by (simp add: word_le_nat_alt)
  consider (same) "iv_begin iv = iv_end iv" | (less) "?lo < ?hi" "iv_begin iv \<noteq> iv_end iv"
    using le by (metis le_neq_implies_less word_unat_eq_iff)
  then show ?thesis
  proof cases
    case same
    show ?thesis
    proof (cases "ml_msg l = []")
      case False
      with assms(2) have nz: "iv_end iv \<noteq> 0" "0 < ?hi" using same by (simp_all add: unat_gt_0)
      then have "[?hi - 1..<?hi] = [?hi - 1]" by (simp add: upt_rec)
      then show ?thesis using False by (simp add: seq_step_def same getWithSeqID_pos [OF nz(1)])
    qed (simp add: seq_step_def same getWithSeqID_def)
  next
    case less
    have ex: "existsWithSeqID n l \<longleftrightarrow> unat n \<le> length (ml_msg l)" for n
      unfolding existsWithSeqID_def by (rule iffI) linarith+
    show ?thesis
      using less assms seqRange_spec [of "iv_begin iv" "iv_end iv" l]
      by (auto simp: seq_step_def ex)
  qed
qed

definition nonzero_range :: "SeqRange \<Rightarrow> bool" where
  "nonzero_range r \<longleftrightarrow> (Begin r = SeqNumValueAsterisk \<or> (ucast (Begin r) :: uint32) \<noteq> 0)
     \<and> (End r = SeqNumValueAsterisk \<or> (ucast (End r) :: uint32) \<noteq> 0)"

lemma interval_nonzero: "nonzero_range r \<Longrightarrow> star \<noteq> 0 \<Longrightarrow> fst (spec_interval star r) \<noteq> 0"
  by (auto simp: nonzero_range_def spec_interval_def resolved_def Let_def min_def max_def)

lemma getMessagesInSeqRange_eq:
  assumes "length (ml_msg l) < 2 ^ 32" and "\<forall>r \<in> set rs. nonzero_range r"
  shows "getMessagesInSeqRange rs l = (if \<forall>r \<in> set rs. seq_in_mailbox l r
    then Ok (concat (map (\<lambda>r. map (with_seq l) (seq_positions l r)) rs)) else Err ErrNoSuchMessage)"
proof -
  let ?ivs = "map (interval_of (star_seq l)) rs"
  have "getMessagesInSeqRange rs l = for_append (seq_step l) ?ivs []"
    unfolding getMessagesInSeqRange_def resolveSeqInterval_def resolve_loop_spec [OF resolveSeq_spec]
    by (simp add: seq_step_def [abs_def])
  also have "\<dots> = (if \<forall>iv \<in> set ?ivs. ml_msg l \<noteq> [] \<and> unat (iv_end iv) \<le> length (ml_msg l)
      then Ok ([] @ concat (map (\<lambda>iv. map (with_seq l) [unat (iv_begin iv) - 1..<unat (iv_end iv)]) ?ivs))
      else Err ErrNoSuchMessage)"
  proof (rule for_append_guard, rule seq_step_spec)
    fix iv assume iv: "iv \<in> set ?ivs"
    then show "iv_begin iv \<le> iv_end iv" by (auto simp: interval_of_def spec_interval_le)
    show "ml_msg l = [] \<or> iv_begin iv \<noteq> 0"
    proof (cases "ml_msg l = []")
      case False
      have "star_seq l \<noteq> 0"
      proof
        assume "star_seq l = 0"
        then have "unat (star_seq l) = 0" by simp
        then show False using False assms(1) by (simp add: unsigned_of_nat take_bit_nat_eq_self)
      qed
      then show ?thesis using iv assms(2) interval_nonzero by (auto simp: interval_of_def)
    qed simp
  qed
  finally show ?thesis by (simp add: seq_in_mailbox_def seq_positions_def interval_of_def o_def)
qed

section \<open>Properties of the message list\<close>

text \<open>Two messages, with the UIDs 3 and 7.\<close>

definition sample_pair :: "nat \<Rightarrow> MessageIDPair" where
  "sample_pair n = \<lparr>InternalID = of_nat n, RemoteID = ''r''\<rparr>"

definition sample_list :: snapMsgList where
  "sample_list = place 1 (sample_pair 2) 7 [] (place 0 (sample_pair 1) 3 [] newMsgList)"

lemma sample_insert:
  "list_insert (sample_pair 1) 3 [] newMsgList = Ok (place 0 (sample_pair 1) 3 [] newMsgList)"
  "list_insert (sample_pair 2) 7 [] (place 0 (sample_pair 1) 3 [] newMsgList) = Ok sample_list"
  by (simp_all add: list_insert_def sample_list_def newMsgList_def place_def newSnapMsg_def)

lemma sample_list_ok: "snap_ok sample_list"
proof -
  have "snap_ok (place 0 (sample_pair 1) 3 [] newMsgList)"
    using list_insert_snap_ok [OF newMsgList_ok(1) _ _ sample_insert(1)]
    by (simp add: newMsgList_def list_has_def flagset_ok_def)
  from list_insert_snap_ok [OF this _ _ sample_insert(2)] show ?thesis
    by (simp add: newMsgList_def list_has_def flagset_ok_def place_def sample_pair_def)
qed

text \<open>
  C5: The message list of a snapshot refines a plain list of messages in the order of their UIDs. On a
  list that satisfies the invariant, inserting a new message at the end gives the list with it
  appended, or the error when its UID is not above the last; inserting out of order gives the sorted
  insertion, or panics exactly for a UID that is already there; removing by ID drops the message and
  says whether it was there; changing the remote ID changes it in that message alone. The invariant
  holds of every result.
\<close>

theorem snapMsgList_refines:
  assumes "snap_ok l" and "flagset_ok fl"
  shows "(\<not> list_has (InternalID i) l \<longrightarrow> (case list_insert i uid fl l of
            Ok l' \<Rightarrow> snap_ok l' \<and> view l' = view l @ [newSnapMsg i uid fl]
          | Err e \<Rightarrow> view l \<noteq> [] \<and> uid \<le> sm_UID (last (view l))
          | Panic p \<Rightarrow> False))
    \<and> (\<not> list_has (InternalID i) l \<longrightarrow> (case insertOutOfOrder i uid fl l of
            Ok l' \<Rightarrow> snap_ok l' \<and> view l' = spec_add (newSnapMsg i uid fl) (view l)
          | Err e \<Rightarrow> False
          | Panic p \<Rightarrow> uid \<in> sm_UID ` set (view l)))
    \<and> (case list_remove k l of (ok, l') \<Rightarrow>
          snap_ok l' \<and> ok = spec_has k (view l) \<and> view l' = spec_remove k (view l))
    \<and> (case list_update_remote k r l of (ok, l') \<Rightarrow>
          snap_ok l' \<and> ok = spec_has k (view l) \<and> view l' = spec_update k (set_remote r) (view l))"
proof (intro conjI impI)
  assume new: "\<not> list_has (InternalID i) l"
  show "case list_insert i uid fl l of
            Ok l' \<Rightarrow> snap_ok l' \<and> view l' = view l @ [newSnapMsg i uid fl]
          | Err e \<Rightarrow> view l \<noteq> [] \<and> uid \<le> sm_UID (last (view l))
          | Panic p \<Rightarrow> False"
    using list_insert_snap_ok [OF assms(1) new assms(2), of uid]
    by (cases "list_insert i uid fl l")
      (auto simp: list_insert_eq view_def last_map split: if_splits)
  show "case insertOutOfOrder i uid fl l of
            Ok l' \<Rightarrow> snap_ok l' \<and> view l' = spec_add (newSnapMsg i uid fl) (view l)
          | Err e \<Rightarrow> False
          | Panic p \<Rightarrow> uid \<in> sm_UID ` set (view l)"
    using insertOutOfOrder_view [OF assms(1)] insertOutOfOrder_snap_ok [OF assms(1) new assms(2)]
    by (simp add: list_uids_view)
qed (use list_remove_refines [OF assms(1)] list_update_remote_refines [OF assms(1)] in
    \<open>simp_all add: case_prod_beta\<close>)

theorem snapMsgList_refines_witness:
  "snap_ok (snd (list_remove 1 sample_list)) \<and> map sm_UID (view (snd (list_remove 1 sample_list))) = [7]"
  using snapMsgList_refines [OF sample_list_ok, of "[]" "sample_pair 3" 9 1 "''x''"]
  by (simp add: flagset_ok_def case_prod_beta spec_remove_def view_def sample_list_def place_def
      newMsgList_def newSnapMsg_def sample_pair_def)





text \<open>
  C38: Sequence numbers are cut to 32 bits, so that a number that is 0 modulo 2^32 and is not 0 itself
  becomes the sequence number 0; the index \<open>int(id) - 1\<close> is then negative and a lookup in a mailbox
  that is not empty panics.
\<close>

theorem getMessagesInSeqRange_truncated_panics:
  assumes "ml_msg l \<noteq> []" and "n \<noteq> SeqNumValueAsterisk" and "(ucast n :: uint32) = 0"
  shows "panics (getMessagesInSeqRange [\<lparr>Begin = n, End = n\<rparr>] l)"
  using assms
  by (simp add: getMessagesInSeqRange_def resolveSeqInterval_def resolve_range_def resolveSeq_def getWithSeqID_def)

theorem getMessagesInSeqRange_truncated_panics_witness:
  "panics (getMessagesInSeqRange [\<lparr>Begin = 4294967296, End = 4294967296\<rparr>] sample_list)"
  by (rule getMessagesInSeqRange_truncated_panics)
    (simp_all add: sample_list_def place_def SeqNumValueAsterisk_def)

text \<open>
  C33: Sequence numbers are positions. The message that \<open>get\<close> finds by its internal ID carries the
  sequence number at which \<open>getWithSeqID\<close>, \<open>seq\<close> and \<open>getWithUID\<close> with its UID find the same message,
  and an internal ID that no message has is not found.
\<close>

theorem list_get_roundtrip:
  assumes "snap_ok l" and "length (ml_msg l) < 2 ^ 32"
  shows "(\<forall>k < length (view l). \<exists>s. list_get (int_id (view l ! k)) l = Some s
      \<and> unat (Seq s) = k + 1 \<and> msg_at l (sm_ptr s) = view l ! k
      \<and> getWithSeqID (Seq s) l = Ok (Some s) \<and> list_seq (Seq s) l = Ok (Some s)
      \<and> getWithUID (sm_UID (view l ! k)) l = Some s)
    \<and> (list_get i l = None \<longleftrightarrow> (\<forall>m \<in> set (view l). int_id m \<noteq> i))"
proof (intro conjI allI impI)
  fix k assume "k < length (view l)"
  then have k: "k < length (ml_msg l)" by simp
  let ?s = "with_seq l k"
  have sk: "unat (Seq ?s) = k + 1"
  proof -
    have "Suc k < 2 ^ 32" using k assms(2) by linarith
    then show ?thesis unfolding with_seq_def by (simp add: unsigned_of_nat take_bit_nat_eq_self del: of_nat_Suc)
  qed
  then have nz: "Seq ?s \<noteq> 0" by (metis add_is_0 one_neq_zero unat_0)
  have "getWithUID (sm_UID (view l ! k)) l = Some ?s"
    using snap.search_nth [OF assms(1), of k] k by (simp add: getWithUID_def view_def list_uids_def)
  moreover have "getWithSeqID (Seq ?s) l = Ok (Some ?s)"
    using getWithSeqID_pos [OF nz, of l] k unfolding sk by simp
  moreover have "list_seq (Seq ?s) l = Ok (Some ?s)"
  proof -
    have "\<not> star_seq l < Seq ?s"
      using k assms(2) by (simp add: word_less_nat_alt sk unsigned_of_nat take_bit_nat_eq_self)
    moreover have "?s = \<lparr>Seq = Seq ?s, sm_ptr = ml_msg l ! k\<rparr>" by (simp add: with_seq_def)
    ultimately show ?thesis using k by (simp add: list_seq_def unat_minus_1 [OF nz] sk)
  qed
  moreover have "msg_at l (sm_ptr ?s) = view l ! k" using k by (simp add: with_seq_def view_def)
  ultimately show "\<exists>s. list_get (int_id (view l ! k)) l = Some s
      \<and> unat (Seq s) = k + 1 \<and> msg_at l (sm_ptr s) = view l ! k
      \<and> getWithSeqID (Seq s) l = Ok (Some s) \<and> list_seq (Seq s) l = Ok (Some s)
      \<and> getWithUID (sm_UID (view l ! k)) l = Some s"
    using list_get_spec [OF assms(1) k] sk by blast
qed (simp add: list_get_None [OF assms(1)] spec_has_def)

theorem list_get_roundtrip_witness: "list_get 5 sample_list = None"
  using list_get_roundtrip [OF sample_list_ok, of 5]
  by (simp add: view_def sample_list_def place_def newMsgList_def newSnapMsg_def sample_pair_def)

end
