(* ===== verification/State_Snapshot.thy ===== *)
theory State_Snapshot
  imports State_SnapMsg_Props
begin

text \<open>
  The snapshot of a selected mailbox (\<open>internal/state/snapshot.go\<close>): the identity of the mailbox and
  its message list. The pointer back to the state, which no method uses, is left out. A snapshot is
  built from the rows the database returns (\<open>db/ops_mailbox.go\<close>).
\<close>

section \<open>Data\<close>

record snapshot =
  mboxID :: MailboxIDPair
  messages :: snapMsgList

text \<open>A row of the query for a new snapshot; \<open>UIDWithFlags\<close> has the same fields and the same method.\<close>

record SnapshotMessageResult =
  sr_InternalID :: InternalMessageID
  sr_RemoteID :: MessageID
  sr_UID :: UID
  sr_Recent :: bool
  sr_Deleted :: bool
  sr_Flags :: string

definition GetFlagSet :: "SnapshotMessageResult \<Rightarrow> FlagSet" where
  "GetFlagSet msg =
     (let fs = (if sr_Flags msg \<noteq> [] then NewFlagSet (split_byte (sr_Flags msg) (CHR '','')) else NewFlagSet []);
          fs = (if sr_Deleted msg then AddToSelf fs [FlagDeleted] else fs)
      in if sr_Recent msg then AddToSelf fs [FlagRecent] else fs)"

section \<open>Operations\<close>

text \<open>The loop of \<open>newSnapshot\<close> over the rows.\<close>

fun insert_rows :: "SnapshotMessageResult list \<Rightarrow> snapMsgList \<Rightarrow> (state_error, snapMsgList) outcome" where
  "insert_rows [] l = Ok l"
| "insert_rows (m # ms) l =
     bind_outcome
       (list_insert \<lparr>InternalID = sr_InternalID m, RemoteID = sr_RemoteID m\<rparr> (sr_UID m) (GetFlagSet m) l)
       (insert_rows ms)"

text \<open>The answer of the database is an argument.\<close>

definition newSnapshot ::
    "(state_error, SnapshotMessageResult list) outcome \<Rightarrow> MailboxIDPair \<Rightarrow> (state_error, snapshot) outcome" where
  "newSnapshot rows mbox =
     bind_outcome rows (\<lambda>snapshotMessages.
       bind_outcome (insert_rows snapshotMessages newMsgList) (\<lambda>l.
         Ok \<lparr>mboxID = mbox, messages = l\<rparr>))"

definition newEmptySnapshot :: "MailboxIDPair \<Rightarrow> snapshot" where
  "newEmptySnapshot mbox = \<lparr>mboxID = mbox, messages = newMsgList\<rparr>"

definition snap_len :: "snapshot \<Rightarrow> nat" where
  "snap_len snap = list_len (messages snap)"

definition hasMessage :: "InternalMessageID \<Rightarrow> snapshot \<Rightarrow> bool" where
  "hasMessage i snap = list_has i (messages snap)"

text \<open>The message behind the pointer in a result of \<open>get\<close>.\<close>

definition deref :: "snapshot \<Rightarrow> snapMsgWithSeq \<Rightarrow> snapMsg" where
  "deref snap s = msg_at (messages snap) (sm_ptr s)"

definition getMessageSeq :: "InternalMessageID \<Rightarrow> snapshot \<Rightarrow> (state_error, SeqID) outcome" where
  "getMessageSeq i snap =
     (case list_get i (messages snap) of None \<Rightarrow> Err ErrNoSuchMessage | Some msg \<Rightarrow> Ok (Seq msg))"

definition getMessageUID :: "InternalMessageID \<Rightarrow> snapshot \<Rightarrow> (state_error, UID) outcome" where
  "getMessageUID i snap =
     (case list_get i (messages snap) of None \<Rightarrow> Err ErrNoSuchMessage | Some msg \<Rightarrow> Ok (sm_UID (deref snap msg)))"

definition getMessageFlags :: "InternalMessageID \<Rightarrow> snapshot \<Rightarrow> (state_error, FlagSet) outcome" where
  "getMessageFlags i snap =
     (case list_get i (messages snap) of None \<Rightarrow> Err ErrNoSuchMessage | Some msg \<Rightarrow> Ok (sm_flags (deref snap msg)))"

text \<open>The flags a message gets: Recent is kept, and the mark for expunging follows Deleted.\<close>

definition set_flags :: "FlagSet \<Rightarrow> snapMsg \<Rightarrow> snapMsg" where
  "set_flags fl msg =
     (let flags = (if ContainsUnchecked (sm_flags msg) FlagRecentLowerCase then Add fl [FlagRecent] else fl)
      in msg\<lparr>toExpunge := ContainsUnchecked flags FlagDeletedLowerCase, sm_flags := flags\<rparr>)"

definition setMessageFlags ::
    "InternalMessageID \<Rightarrow> FlagSet \<Rightarrow> snapshot \<Rightarrow> (state_error, snapshot) outcome" where
  "setMessageFlags i fl snap =
     (case list_get i (messages snap) of
        None \<Rightarrow> Err ErrNoSuchMessage
      | Some msg \<Rightarrow> Ok (snap\<lparr>messages := (messages snap)\<lparr>ml_heap :=
          (ml_heap (messages snap))(sm_ptr msg := set_flags fl (deref snap msg))\<rparr>\<rparr>))"

definition getAllMessages :: "snapshot \<Rightarrow> snapMsgWithSeq list" where
  "getAllMessages snap = map (with_seq (messages snap)) [0..<length (ml_msg (messages snap))]"

definition getAllMessageIDs :: "snapshot \<Rightarrow> MessageIDPair list" where
  "getAllMessageIDs snap = map (\<lambda>a. sm_ID (msg_at (messages snap) a)) (ml_msg (messages snap))"

definition getAllMessagesIDsMarkedDelete :: "snapshot \<Rightarrow> MessageIDPair list" where
  "getAllMessagesIDsMarkedDelete snap =
     map (\<lambda>a. sm_ID (msg_at (messages snap) a))
       (filter (\<lambda>a. toExpunge (msg_at (messages snap) a)) (ml_msg (messages snap)))"

text \<open>The context of a UID command is the flag \<open>isUID\<close>.\<close>

definition getMessagesInRange ::
    "bool \<Rightarrow> SeqRange list \<Rightarrow> snapshot \<Rightarrow> (state_error, snapMsgWithSeq list) outcome" where
  "getMessagesInRange isUID seq snap =
     (if isUID then getMessagesInUIDRange seq (messages snap) else getMessagesInSeqRange seq (messages snap))"

definition interval_contains :: "Interval \<Rightarrow> uint32 \<Rightarrow> bool" where
  "interval_contains s n \<longleftrightarrow> iv_begin s \<le> n \<and> n \<le> iv_end s"

definition has_flag :: "snapshot \<Rightarrow> string \<Rightarrow> snapMsgWithSeq \<Rightarrow> bool" where
  "has_flag snap flagLower s = ContainsUnchecked (sm_flags (deref snap s)) flagLower"

definition firstMessageWithFlag :: "string \<Rightarrow> snapshot \<Rightarrow> snapMsgWithSeq option" where
  "firstMessageWithFlag flag snap = find (has_flag snap (ToLower flag)) (getAllMessages snap)"

definition firstMessageWithoutFlag :: "string \<Rightarrow> snapshot \<Rightarrow> snapMsgWithSeq option" where
  "firstMessageWithoutFlag flag snap = find (\<lambda>s. \<not> has_flag snap (ToLower flag) s) (getAllMessages snap)"

definition getMessagesWithFlag :: "string \<Rightarrow> snapshot \<Rightarrow> snapMsgWithSeq list" where
  "getMessagesWithFlag flag snap = where_seq (messages snap) (has_flag snap (ToLower flag))"

definition getMessagesWithFlagCount :: "string \<Rightarrow> snapshot \<Rightarrow> nat" where
  "getMessagesWithFlagCount flag snap = whereCount (messages snap) (has_flag snap (ToLower flag))"

definition getMessagesWithoutFlag :: "string \<Rightarrow> snapshot \<Rightarrow> snapMsgWithSeq list" where
  "getMessagesWithoutFlag flag snap = where_seq (messages snap) (\<lambda>s. \<not> has_flag snap (ToLower flag) s)"

definition getMessagesWithoutFlagCount :: "string \<Rightarrow> snapshot \<Rightarrow> nat" where
  "getMessagesWithoutFlagCount flag snap = whereCount (messages snap) (\<lambda>s. \<not> has_flag snap (ToLower flag) s)"

definition appendMessage ::
    "MessageIDPair \<Rightarrow> UID \<Rightarrow> FlagSet \<Rightarrow> snapshot \<Rightarrow> (state_error, snapshot) outcome" where
  "appendMessage i uid fl snap =
     bind_outcome (list_insert i uid fl (messages snap)) (\<lambda>l. Ok (snap\<lparr>messages := l\<rparr>))"

definition appendMessageFromOtherState ::
    "MessageIDPair \<Rightarrow> UID \<Rightarrow> FlagSet \<Rightarrow> snapshot \<Rightarrow> (state_error, snapshot) outcome" where
  "appendMessageFromOtherState i uid fl snap =
     bind_outcome (insertOutOfOrder i uid fl (messages snap)) (\<lambda>l. Ok (snap\<lparr>messages := l\<rparr>))"

definition expungeMessage :: "InternalMessageID \<Rightarrow> snapshot \<Rightarrow> (state_error, snapshot) outcome" where
  "expungeMessage i snap =
     (let (ok, l) = list_remove i (messages snap) in
      if \<not> ok then Err ErrNoSuchMessage else Ok (snap\<lparr>messages := l\<rparr>))"

definition updateMailboxRemoteID ::
    "InternalMailboxID \<Rightarrow> MailboxID \<Rightarrow> snapshot \<Rightarrow> (state_error, snapshot) outcome" where
  "updateMailboxRemoteID internalID remoteID snap =
     (if mp_InternalID (mboxID snap) \<noteq> internalID then Err ErrNoSuchMailbox
      else Ok (snap\<lparr>mboxID := (mboxID snap)\<lparr>mp_RemoteID := remoteID\<rparr>\<rparr>))"

definition updateMessageRemoteID ::
    "InternalMessageID \<Rightarrow> MessageID \<Rightarrow> snapshot \<Rightarrow> (state_error, snapshot) outcome" where
  "updateMessageRemoteID internalID remoteID snap =
     (let (ok, l) = list_update_remote internalID remoteID (messages snap) in
      if \<not> ok then Err ErrNoSuchMessage else Ok (snap\<lparr>messages := l\<rparr>))"

section \<open>The invariant and the abstraction lift to snapshots\<close>

abbreviation snapshot_ok :: "snapshot \<Rightarrow> bool" where
  "snapshot_ok snap \<equiv> snap_ok (messages snap)"

abbreviation snap_view :: "snapshot \<Rightarrow> snapMsg list" where
  "snap_view snap \<equiv> view (messages snap)"

lemma hasMessage_view: "snapshot_ok snap \<Longrightarrow> hasMessage i snap \<longleftrightarrow> spec_has i (snap_view snap)"
  by (simp add: hasMessage_def list_has_view)

text \<open>The message with a given ID in a list of messages, and its position.\<close>

definition spec_find :: "InternalMessageID \<Rightarrow> snapMsg list \<Rightarrow> snapMsg option" where
  "spec_find i ms = find (\<lambda>m. int_id m = i) ms"

fun spec_pos :: "InternalMessageID \<Rightarrow> snapMsg list \<Rightarrow> nat" where
  "spec_pos i [] = 0"
| "spec_pos i (m # ms) = (if int_id m = i then 0 else Suc (spec_pos i ms))"

lemma spec_pos_less: "spec_has i ms \<Longrightarrow> spec_pos i ms < length ms \<and> int_id (ms ! spec_pos i ms) = i"
  by (induction ms) (auto simp: spec_has_def)

lemma spec_find_pos: "spec_find i ms = (if spec_has i ms then Some (ms ! spec_pos i ms) else None)"
  by (induction ms) (auto simp: spec_find_def spec_has_def)

lemma list_get_pos:
  assumes "snap_ok l"
  shows "list_get i l = (if spec_has i (view l) then Some (with_seq l (spec_pos i (view l))) else None)"
proof (cases "spec_has i (view l)")
  case True
  then show ?thesis
    using list_get_spec [OF assms, of "spec_pos i (view l)"] spec_pos_less [OF True] by simp
next
  case False
  then show ?thesis using list_get_None [OF assms, of i] by simp
qed

lemma deref_with_seq:
  "k < length (snap_view snap) \<Longrightarrow> deref snap (with_seq (messages snap) k) = snap_view snap ! k"
  by (simp add: deref_def with_seq_def view_def)

lemma Seq_with_seq [simp]: "Seq (with_seq l k) = of_nat (k + 1)"
  by (simp add: with_seq_def)

lemma getMessage_view:
  assumes "snapshot_ok snap"
  shows "getMessageSeq i snap = (if spec_has i (snap_view snap)
      then Ok (of_nat (spec_pos i (snap_view snap) + 1)) else Err ErrNoSuchMessage)"
    and "getMessageUID i snap = (case spec_find i (snap_view snap) of
      None \<Rightarrow> Err ErrNoSuchMessage | Some m \<Rightarrow> Ok (sm_UID m))"
    and "getMessageFlags i snap = (case spec_find i (snap_view snap) of
      None \<Rightarrow> Err ErrNoSuchMessage | Some m \<Rightarrow> Ok (sm_flags m))"
  using spec_pos_less [of i "snap_view snap"]
  by (auto simp: getMessageSeq_def getMessageUID_def getMessageFlags_def list_get_pos [OF assms] spec_find_pos
      deref_with_seq simp del: length_view(1))

lemma flagset_ok_Add: "flagset_ok (Add fl flags)"
  unfolding Add_def by (rule flagset_ok_add [OF flagset_ok_Clone])

lemma msg_ok_set_flags: "flagset_ok fl \<Longrightarrow> msg_ok (set_flags fl m)"
  by (simp add: msg_ok_def set_flags_def Let_def flagset_ok_Add)

lemma set_flags_fields [simp]: "sm_UID (set_flags fl m) = sm_UID m" "sm_ID (set_flags fl m) = sm_ID m"
  by (simp_all add: set_flags_def Let_def)

lemma setMessageFlags_refines:
  assumes "snapshot_ok snap" and "flagset_ok fl"
  shows "case setMessageFlags i fl snap of
      Ok snap' \<Rightarrow> spec_has i (snap_view snap) \<and> snapshot_ok snap' \<and> mboxID snap' = mboxID snap
        \<and> snap_view snap' = spec_update i (set_flags fl) (snap_view snap)
    | Err e \<Rightarrow> e = ErrNoSuchMessage \<and> \<not> spec_has i (snap_view snap)
    | Panic p \<Rightarrow> False"
proof (cases "spec_has i (snap_view snap)")
  case True
  let ?k = "spec_pos i (snap_view snap)" and ?l = "messages snap"
  have k: "?k < length (ml_msg ?l)" "int_id (snap_view snap ! ?k) = i" using spec_pos_less [OF True] by simp_all
  then have idx: "ml_idx ?l i = Some (ml_msg ?l ! ?k)"
    using assms(1) by (simp add: snap_ok_idx view_def)
  have "snap_ok (write_msg (set_flags fl) (ml_msg ?l ! ?k) ?l) \<and>
      view (write_msg (set_flags fl) (ml_msg ?l ! ?k) ?l) = spec_update i (set_flags fl) (view ?l)"
    by (rule write_msg_refines [OF assms(1) idx]) (simp_all add: msg_ok_set_flags assms(2))
  moreover have "setMessageFlags i fl snap =
      Ok (snap\<lparr>messages := write_msg (set_flags fl) (ml_msg ?l ! ?k) ?l\<rparr>)"
    using True by (simp add: setMessageFlags_def list_get_pos [OF assms(1)] write_msg_def with_seq_def deref_def)
  ultimately show ?thesis using True by simp
qed (simp add: setMessageFlags_def list_get_pos [OF assms(1)])

lemma expungeMessage_refines:
  assumes "snapshot_ok snap"
  shows "case expungeMessage i snap of
      Ok snap' \<Rightarrow> spec_has i (snap_view snap) \<and> snapshot_ok snap' \<and> mboxID snap' = mboxID snap
        \<and> snap_view snap' = spec_remove i (snap_view snap)
    | Err e \<Rightarrow> e = ErrNoSuchMessage \<and> \<not> spec_has i (snap_view snap)
    | Panic p \<Rightarrow> False"
  using list_remove_refines [OF assms, of i]
  by (auto simp: expungeMessage_def split: prod.splits)

lemma updateMessageRemoteID_refines:
  assumes "snapshot_ok snap"
  shows "case updateMessageRemoteID i r snap of
      Ok snap' \<Rightarrow> spec_has i (snap_view snap) \<and> snapshot_ok snap' \<and> mboxID snap' = mboxID snap
        \<and> snap_view snap' = spec_update i (set_remote r) (snap_view snap)
    | Err e \<Rightarrow> e = ErrNoSuchMessage \<and> \<not> spec_has i (snap_view snap)
    | Panic p \<Rightarrow> False"
  using list_update_remote_refines [OF assms, of i r]
  by (auto simp: updateMessageRemoteID_def split: prod.splits)

lemma appendMessage_refines:
  assumes "snapshot_ok snap" and "\<not> hasMessage (InternalID i) snap" and "flagset_ok fl"
  shows "case appendMessage i uid fl snap of
      Ok snap' \<Rightarrow> snapshot_ok snap' \<and> mboxID snap' = mboxID snap
        \<and> snap_view snap' = snap_view snap @ [newSnapMsg i uid fl]
    | Err e \<Rightarrow> snap_view snap \<noteq> [] \<and> uid \<le> sm_UID (last (snap_view snap))
    | Panic p \<Rightarrow> False"
  using list_insert_snap_ok [OF assms(1) _ assms(3), of i uid] assms(2)
  by (auto simp: appendMessage_def list_insert_eq hasMessage_def view_def last_map)

lemma appendMessageFromOtherState_refines:
  assumes "snapshot_ok snap" and "\<not> hasMessage (InternalID i) snap" and "flagset_ok fl"
  shows "case appendMessageFromOtherState i uid fl snap of
      Ok snap' \<Rightarrow> snapshot_ok snap' \<and> mboxID snap' = mboxID snap
        \<and> snap_view snap' = spec_add (newSnapMsg i uid fl) (snap_view snap)
    | Err e \<Rightarrow> False
    | Panic p \<Rightarrow> uid \<in> sm_UID ` set (snap_view snap)"
  using insertOutOfOrder_view [OF assms(1)] insertOutOfOrder_snap_ok [OF assms(1) _ assms(3)] assms(2)
  by (simp add: appendMessageFromOtherState_def hasMessage_def list_uids_view)

lemma getAllMessages_view: "map (deref snap) (getAllMessages snap) = snap_view snap"
  by (intro nth_equalityI) (simp_all add: getAllMessages_def deref_def with_seq_def view_def)

lemma where_view: "map (deref snap) (where_seq (messages snap) (\<lambda>s. P (deref snap s))) = filter P (snap_view snap)"
  by (simp add: where_seq_def getAllMessages_def [symmetric] getAllMessages_view [symmetric] filter_map o_def)

lemma with_flag_view:
  "map (deref snap) (getMessagesWithFlag flag snap) =
     filter (\<lambda>m. ContainsUnchecked (sm_flags m) (ToLower flag)) (snap_view snap)"
  "map (deref snap) (getMessagesWithoutFlag flag snap) =
     filter (\<lambda>m. \<not> ContainsUnchecked (sm_flags m) (ToLower flag)) (snap_view snap)"
  using where_view [of snap "\<lambda>m. ContainsUnchecked (sm_flags m) (ToLower flag)"]
    where_view [of snap "\<lambda>m. \<not> ContainsUnchecked (sm_flags m) (ToLower flag)"]
  by (simp_all add: getMessagesWithFlag_def getMessagesWithoutFlag_def has_flag_def [abs_def])

lemma flag_count_view:
  "getMessagesWithFlagCount flag snap = length (getMessagesWithFlag flag snap)"
  "getMessagesWithoutFlagCount flag snap = length (getMessagesWithoutFlag flag snap)"
  by (simp_all add: getMessagesWithFlagCount_def getMessagesWithoutFlagCount_def whereCount_spec
      getMessagesWithFlag_def getMessagesWithoutFlag_def)

lemma find_hd_filter: "find P xs = (case filter P xs of [] \<Rightarrow> None | x # _ \<Rightarrow> Some x)"
  by (induction xs) auto

lemma first_with_flag:
  "firstMessageWithFlag flag snap = (case getMessagesWithFlag flag snap of [] \<Rightarrow> None | s # _ \<Rightarrow> Some s)"
  "firstMessageWithoutFlag flag snap = (case getMessagesWithoutFlag flag snap of [] \<Rightarrow> None | s # _ \<Rightarrow> Some s)"
  by (simp_all add: firstMessageWithFlag_def firstMessageWithoutFlag_def getMessagesWithFlag_def
      getMessagesWithoutFlag_def where_seq_def getAllMessages_def find_hd_filter)

lemma marked_delete_view:
  assumes "snapshot_ok snap"
  shows "getAllMessagesIDsMarkedDelete snap =
    map sm_ID (filter (\<lambda>m. Contains (sm_flags m) FlagDeleted) (snap_view snap))"
proof -
  have "filter (\<lambda>a. toExpunge (msg_at (messages snap) a)) (ml_msg (messages snap)) =
      filter (\<lambda>a. Contains (sm_flags (msg_at (messages snap) a)) FlagDeleted) (ml_msg (messages snap))"
    using assms by (intro filter_cong)
      (auto simp: snap_ok_def msg_ok_def Contains_keys ContainsUnchecked_keys)
  then show ?thesis by (simp add: getAllMessagesIDsMarkedDelete_def view_def filter_map o_def)
qed

section \<open>Building a snapshot\<close>

definition row_msg :: "SnapshotMessageResult \<Rightarrow> snapMsg" where
  "row_msg m = newSnapMsg \<lparr>InternalID = sr_InternalID m, RemoteID = sr_RemoteID m\<rparr> (sr_UID m) (GetFlagSet m)"

lemma flagset_ok_GetFlagSet: "flagset_ok (GetFlagSet m)"
  by (simp add: GetFlagSet_def Let_def AddToSelf_def flagset_ok_add flagset_ok_NewFlagSet del: flags_add.simps)

lemma insert_rows_spec:
  assumes "snap_ok l" and "distinct (map int_id (view l) @ map sr_InternalID rows)"
  shows "case insert_rows rows l of
      Ok l' \<Rightarrow> sorted_wrt (<) (list_uids l @ map sr_UID rows) \<and> snap_ok l' \<and> view l' = view l @ map row_msg rows
    | Err e \<Rightarrow> \<not> sorted_wrt (<) (list_uids l @ map sr_UID rows)
    | Panic p \<Rightarrow> False"
  using assms
proof (induction rows arbitrary: l)
  case Nil
  then show ?case by (simp add: snap_ok_sorted)
next
  case (Cons m rows)
  let ?i = "\<lparr>InternalID = sr_InternalID m, RemoteID = sr_RemoteID m\<rparr>"
  have new: "\<not> list_has (InternalID ?i) l"
    using Cons.prems(2) by (auto simp: list_has_view [OF Cons.prems(1)] spec_has_def image_iff)
  show ?case
  proof (cases "list_insert ?i (sr_UID m) (GetFlagSet m) l")
    case (Ok l')
    note l' = list_insert_snap_ok [OF Cons.prems(1) new flagset_ok_GetFlagSet Ok]
    have "list_uids l' = list_uids l @ [sr_UID m]" using l' by (simp add: list_uids_view newSnapMsg_def)
    moreover have "distinct (map int_id (view l') @ map sr_InternalID rows)"
      using Cons.prems(2) l' by (auto simp: newSnapMsg_def)
    ultimately show ?thesis using Cons.IH [of l'] l' Ok
      by (auto simp: row_msg_def split: outcome.splits)
  next
    case (Err e)
    then have "ml_msg l \<noteq> []" "sr_UID m \<le> uid_at l (last (ml_msg l))"
      by (auto simp: list_insert_eq split: if_splits)
    then have "last (ml_msg l) \<in> set (ml_msg l)" "\<not> uid_at l (last (ml_msg l)) < sr_UID m" by auto
    then have "\<not> sorted_wrt (<) (list_uids l @ map sr_UID (m # rows))"
      by (auto simp: list_uids_def sorted_wrt_append)
    with Err show ?thesis by simp
  next
    case (Panic p)
    then show ?thesis by (simp add: list_insert_eq split: if_splits)
  qed
qed

section \<open>Properties of snapshots\<close>

definition sample_row :: "nat \<Rightarrow> UID \<Rightarrow> string \<Rightarrow> SnapshotMessageResult" where
  "sample_row n uid fl =
     \<lparr>sr_InternalID = of_nat n, sr_RemoteID = ''r'', sr_UID = uid, sr_Recent = True, sr_Deleted = False, sr_Flags = fl\<rparr>"

text \<open>
  C19: A snapshot is built exactly from rows whose UIDs are strictly ascending: for rows with distinct
  internal IDs, \<open>newSnapshot\<close> returns the snapshot that lists the messages of the rows in order, with
  their flags, and satisfies the invariant, when the UIDs ascend, and an error otherwise.
\<close>

theorem newSnapshot_spec:
  assumes "distinct (map sr_InternalID rows)"
  shows "case newSnapshot (Ok rows) mbox of
      Ok snap \<Rightarrow> sorted_wrt (<) (map sr_UID rows) \<and> mboxID snap = mbox \<and> snapshot_ok snap
        \<and> snap_view snap = map row_msg rows
    | Err e \<Rightarrow> \<not> sorted_wrt (<) (map sr_UID rows)
    | Panic p \<Rightarrow> False"
  using insert_rows_spec [OF newMsgList_ok(1), of rows] assms newMsgList_ok(2)
  by (cases "insert_rows rows newMsgList") (auto simp: newSnapshot_def list_uids_view)

theorem newSnapshot_spec_witness:
  "\<nexists>snap. newSnapshot (Ok [sample_row 1 5 '''', sample_row 2 4 '''']) \<lparr>mp_InternalID = 1, mp_RemoteID = ''m''\<rparr> = Ok snap"
  using newSnapshot_spec [of "[sample_row 1 5 '''', sample_row 2 4 '''']" "\<lparr>mp_InternalID = 1, mp_RemoteID = ''m''\<rparr>"]
  by (auto simp: sample_row_def split: outcome.splits)


text \<open>A snapshot of the two sample messages.\<close>

definition sample_snapshot :: snapshot where
  "sample_snapshot = \<lparr>mboxID = \<lparr>mp_InternalID = 1, mp_RemoteID = ''m''\<rparr>, messages = sample_list\<rparr>"


end
