(* ===== verification/Go_Strconv.thy ===== *)
theory Go_Strconv
  imports Rfc_Roundtrip
begin

text \<open>
  \<open>strconv.Quote\<close> as the response printers use it: UTF-8 decoding of a Go string and the escapes of
  a double-quoted Go literal. The table behind \<open>strconv.IsPrint\<close> for runes beyond ASCII is an
  argument.
\<close>

section \<open>Decoding runes\<close>

definition cont_byte :: "nat \<Rightarrow> bool" where
  "cont_byte b \<longleftrightarrow> 0x80 \<le> b \<and> b \<le> 0xBF"

text \<open>The range of the second byte of an encoding of two, three or four bytes.\<close>

definition second_ok :: "nat \<Rightarrow> nat \<Rightarrow> bool" where
  "second_ok b0 b1 \<longleftrightarrow>
     (if b0 = 0xE0 then 0xA0 \<le> b1 \<and> b1 \<le> 0xBF
      else if b0 = 0xED then 0x80 \<le> b1 \<and> b1 \<le> 0x9F
      else if b0 = 0xF0 then 0x90 \<le> b1 \<and> b1 \<le> 0xBF
      else if b0 = 0xF4 then 0x80 \<le> b1 \<and> b1 \<le> 0x8F
      else cont_byte b1)"

text \<open>The first rune of a string and the number of bytes it takes; None for a bad encoding.\<close>

fun decode_rune :: "bytes \<Rightarrow> (nat \<times> nat) option" where
  "decode_rune [] = None"
| "decode_rune (c0 # cs) =
     (let b0 = bval c0; bs = map bval cs in
      if b0 < 0x80 then Some (b0, 1)
      else if 0xC2 \<le> b0 \<and> b0 \<le> 0xDF then
        (case bs of b1 # _ \<Rightarrow> if second_ok b0 b1 then Some ((b0 mod 32) * 64 + b1 mod 64, 2) else None | _ \<Rightarrow> None)
      else if 0xE0 \<le> b0 \<and> b0 \<le> 0xEF then
        (case bs of b1 # b2 # _ \<Rightarrow>
           if second_ok b0 b1 \<and> cont_byte b2
           then Some ((b0 mod 16) * 4096 + (b1 mod 64) * 64 + b2 mod 64, 3) else None
         | _ \<Rightarrow> None)
      else if 0xF0 \<le> b0 \<and> b0 \<le> 0xF4 then
        (case bs of b1 # b2 # b3 # _ \<Rightarrow>
           if second_ok b0 b1 \<and> cont_byte b2 \<and> cont_byte b3
           then Some ((b0 mod 8) * 262144 + (b1 mod 64) * 4096 + (b2 mod 64) * 64 + b3 mod 64, 4) else None
         | _ \<Rightarrow> None)
      else None)"

lemma decode_rune_width: "decode_rune s = Some (r, w) \<Longrightarrow> 0 < w \<and> w \<le> length s"
  by (cases s) (auto simp: Let_def split: if_splits list.splits)

section \<open>Quoting\<close>

definition hex_digits :: "nat \<Rightarrow> nat \<Rightarrow> string" where
  "hex_digits k n = map (\<lambda>i. hex_digit (n div 16 ^ (k - 1 - i) mod 16)) [0..<k]"

definition ascii_print :: "nat \<Rightarrow> bool" where
  "ascii_print r \<longleftrightarrow> 0x20 \<le> r \<and> r < 0x7F"

text \<open>\<open>appendEscapedRune\<close> with the bytes \<open>enc\<close> of the rune.\<close>

definition escape_rune :: "(nat \<Rightarrow> bool) \<Rightarrow> nat \<Rightarrow> bytes \<Rightarrow> bytes" where
  "escape_rune isPrint r enc =
     (if r = 0x22 \<or> r = 0x5C then CHR 0x5C # enc
      else if (if r < 0x80 then ascii_print r else isPrint r) then enc
      else if r = 7 then [CHR 0x5C, CHR ''a'']
      else if r = 8 then [CHR 0x5C, CHR ''b'']
      else if r = 12 then [CHR 0x5C, CHR ''f'']
      else if r = 10 then [CHR 0x5C, CHR ''n'']
      else if r = 13 then [CHR 0x5C, CHR ''r'']
      else if r = 9 then [CHR 0x5C, CHR ''t'']
      else if r = 11 then [CHR 0x5C, CHR ''v'']
      else if r < 0x20 \<or> r = 0x7F then [CHR 0x5C, CHR ''x''] @ hex_digits 2 r
      else if r < 0x10000 then [CHR 0x5C, CHR ''u''] @ hex_digits 4 r
      else [CHR 0x5C, CHR ''U''] @ hex_digits 8 r)"

function quote_body :: "(nat \<Rightarrow> bool) \<Rightarrow> bytes \<Rightarrow> bytes" where
  "quote_body isPrint [] = []"
| "quote_body isPrint (c # s) =
     (case decode_rune (c # s) of
        None \<Rightarrow> [CHR 0x5C, CHR ''x''] @ hex_digits 2 (bval c) @ quote_body isPrint s
      | Some (r, w) \<Rightarrow> escape_rune isPrint r (take w (c # s)) @ quote_body isPrint (drop w (c # s)))"
  by pat_completeness auto
termination
proof (relation "measure (length \<circ> snd)")
  fix isPrint :: "nat \<Rightarrow> bool" and c :: char and s :: bytes and x r w
  assume "decode_rune (c # s) = Some x" "(r, w) = x"
  then show "((isPrint, drop w (c # s)), isPrint, c # s) \<in> measure (length \<circ> snd)"
    using decode_rune_width [of "c # s" r w] by simp
qed auto

definition Quote :: "(nat \<Rightarrow> bool) \<Rightarrow> bytes \<Rightarrow> bytes" where
  "Quote isPrint s = CHR 0x22 # quote_body isPrint s @ [CHR 0x22]"

section \<open>Go quoting and IMAP quoting\<close>

lemma decode_ascii: "bval c < 0x80 \<Longrightarrow> decode_rune (c # s) = Some (bval c, 1)"
  by simp

lemma char_eq_bval: "c = d \<longleftrightarrow> bval c = bval d"
  by simp

lemma escape_rune_ascii: "ascii_print (bval c) \<Longrightarrow> escape_rune isPrint (bval c) [c] = escape_byte c"
  by (auto simp: escape_rune_def escape_byte_def ascii_print_def char_eq_bval)

lemma quote_body_ascii:
  "\<forall>c \<in> set s. ascii_print (bval c) \<Longrightarrow> quote_body isPrint s = concat (map escape_byte s)"
  by (induction s) (simp_all add: decode_ascii escape_rune_ascii ascii_print_def del: decode_rune.simps)

text \<open>On strings of printable ASCII characters the two agree.\<close>

lemma Quote_ascii: "\<forall>c \<in> set s. ascii_print (bval c) \<Longrightarrow> Quote isPrint s = quote s"
  by (simp add: Quote_def quote_def quote_body_ascii)

end
