(* ===== verification/Go_Time.thy ===== *)
theory Go_Time
  imports Command_Syntax
begin

text \<open>
  Calendar dates as the server prints them: an instant is its number of seconds since 1970-01-01 UTC,
  and \<open>UTC().Format("02-Jan-2006 15:04:05 -0700")\<close> prints it. \<open>time.Date\<close>, which the command parser
  applies to the fields of a date, is the way back.
\<close>

section \<open>The Gregorian calendar\<close>

definition is_leap :: "int \<Rightarrow> bool" where
  "is_leap y \<longleftrightarrow> y mod 4 = 0 \<and> (y mod 100 \<noteq> 0 \<or> y mod 400 = 0)"

text \<open>The days before January 1 of a year, counted from January 1 of the year 1.\<close>

definition days_before_year :: "int \<Rightarrow> int" where
  "days_before_year y = 365 * (y - 1) + (y - 1) div 4 - (y - 1) div 100 + (y - 1) div 400"

definition days_before_month :: "int list" where
  "days_before_month = [0, 31, 59, 90, 120, 151, 181, 212, 243, 273, 304, 334]"

text \<open>The year and the day in it, by cycles of 400, 100, 4 and 1 years.\<close>

definition year_day :: "int \<Rightarrow> int \<times> int" where
  "year_day d =
     (let d1 = d mod 146097; n100 = min 3 (d1 div 36524);
          d2 = d1 - 36524 * n100; n4 = d2 div 1461; d3 = d2 mod 1461; n1 = min 3 (d3 div 365)
      in (400 * (d div 146097) + 100 * n100 + 4 * n4 + n1 + 1, d3 - 365 * n1))"

text \<open>The month and the day of the month, first of a year that is not a leap year.\<close>

definition month_of :: "int \<Rightarrow> int" where
  "month_of yd =
     (if yd < 31 then 1 else if yd < 59 then 2 else if yd < 90 then 3 else if yd < 120 then 4
      else if yd < 151 then 5 else if yd < 181 then 6 else if yd < 212 then 7 else if yd < 243 then 8
      else if yd < 273 then 9 else if yd < 304 then 10 else if yd < 334 then 11 else 12)"

definition month_day :: "bool \<Rightarrow> int \<Rightarrow> int \<times> int" where
  "month_day leap yday =
     (if leap \<and> yday = 59 then (2, 29)
      else let yd = (if leap \<and> yday > 59 then yday - 1 else yday); m = month_of yd
           in (m, yd - days_before_month ! nat (m - 1) + 1))"

definition days_of_date :: "int \<Rightarrow> int \<Rightarrow> int \<Rightarrow> int" where
  "days_of_date y m d =
     days_before_year y + days_before_month ! nat (m - 1) + (if is_leap y \<and> m > 2 then 1 else 0) + (d - 1)"

text \<open>The day 1970-01-01, counted from the year 1.\<close>

definition unix_epoch :: int where
  "unix_epoch = 719162"

text \<open>\<open>time.Date\<close> with a month between 1 and 12.\<close>

definition time_Unix :: "Time \<Rightarrow> int" where
  "time_Unix t =
     (days_of_date (tyear t) (tmonth t) (tday t) - unix_epoch) * 86400
       + thour t * 3600 + tmin t * 60 + tsec t - tzone t"

definition time_UTC :: "int \<Rightarrow> Time" where
  "time_UTC s =
     (let (y, yday) = year_day (s div 86400 + unix_epoch); (m, d) = month_day (is_leap y) yday; r = s mod 86400
      in \<lparr>tyear = y, tmonth = m, tday = d, thour = r div 3600, tmin = r mod 3600 div 60, tsec = r mod 60, tzone = 0\<rparr>)"

section \<open>Formatting\<close>

definition pad2 :: "int \<Rightarrow> string" where
  "pad2 n = (if n < 10 then ''0'' @ show_int n else show_int n)"

definition pad4 :: "int \<Rightarrow> string" where
  "pad4 n =
     (let s = show_nat (nat \<bar>n\<bar>); z = replicate (4 - length s) (CHR ''0'') @ s
      in if n < 0 then ''-'' @ z else z)"

definition month_names :: "string list" where
  "month_names = [''Jan'', ''Feb'', ''Mar'', ''Apr'', ''May'', ''Jun'', ''Jul'', ''Aug'', ''Sep'', ''Oct'', ''Nov'', ''Dec'']"

definition format_internal_date :: "int \<Rightarrow> string" where
  "format_internal_date s =
     (let t = time_UTC s in
      pad2 (tday t) @ ''-'' @ month_names ! nat (tmonth t - 1) @ ''-'' @ pad4 (tyear t) @ '' ''
        @ pad2 (thour t) @ '':'' @ pad2 (tmin t) @ '':'' @ pad2 (tsec t) @ '' +0000'')"

section \<open>Conversions are inverse\<close>

text \<open>Division into at most \<open>k + 1\<close> parts of which the last may be one longer.\<close>

lemma div_at_most:
  fixes d n k :: int
  assumes "0 \<le> d" and "d \<le> n * (k + 1)" and "0 < n" and "0 \<le> k"
  shows "0 \<le> min k (d div n) \<and> 0 \<le> d - n * min k (d div n)
    \<and> (d - n * min k (d div n) < n \<or> min k (d div n) = k \<and> d - n * min k (d div n) = n)"
proof (cases "d div n \<le> k")
  case True
  then have "min k (d div n) = d div n" by simp
  moreover have "d - n * (d div n) = d mod n" by (simp add: minus_mult_div_eq_mod)
  ultimately show ?thesis using assms(1,3) by (simp add: pos_imp_zdiv_nonneg_iff)
next
  case False
  then have "n * (k + 1) \<le> n * (d div n)" using assms(3) by simp
  moreover have "n * (d div n) \<le> d"
    using mult_div_mod_eq [of n d] pos_mod_sign [OF assms(3), of d] by linarith
  ultimately have "d = n * (k + 1)" using assms(2) by linarith
  then show ?thesis using False assms(3,4) by (simp add: distrib_left)
qed

text \<open>A year by its place in the cycles of 400, 100, 4 and 1 years.\<close>

lemma cycle_year:
  fixes e a b c :: int
  assumes "y = 400 * e + 100 * a + 4 * b + c + 1" and "0 \<le> a" "a \<le> 3" "0 \<le> b" "b \<le> 24" "0 \<le> c" "c \<le> 3"
  shows "days_before_year y = 146097 * e + 36524 * a + 1461 * b + 365 * c"
    and "c = 3 \<Longrightarrow> b \<noteq> 24 \<or> a = 3 \<Longrightarrow> is_leap y"
proof -
  have "(y - 1) div 4 = 100 * e + 25 * a + b"
    using assms by (intro int_div_pos_eq [where r = c]) (simp_all add: algebra_simps)
  moreover have "(y - 1) div 100 = 4 * e + a"
    using assms by (intro int_div_pos_eq [where r = "4 * b + c"]) (simp_all add: algebra_simps)
  moreover have "(y - 1) div 400 = e"
    using assms by (intro int_div_pos_eq [where r = "100 * a + 4 * b + c"]) (simp_all add: algebra_simps)
  ultimately show "days_before_year y = 146097 * e + 36524 * a + 1461 * b + 365 * c"
    unfolding days_before_year_def using assms(1) by simp
next
  assume c: "c = 3" and ab: "b \<noteq> 24 \<or> a = 3"
  have "y mod 4 = 0" using assms c by (intro int_mod_pos_eq [where q = "100 * e + 25 * a + b + 1"]) (simp_all add: algebra_simps)
  moreover have "y mod 100 \<noteq> 0 \<or> y mod 400 = 0"
  proof (cases "b = 24")
    case True
    then have "y mod 400 = 0" using assms c ab by (intro int_mod_pos_eq [where q = "e + 1"]) (simp_all add: algebra_simps)
    then show ?thesis by simp
  next
    case False
    then have "y mod 100 = 4 * b + 4" using assms c by (intro int_mod_pos_eq [where q = "4 * e + a"]) (simp_all add: algebra_simps)
    then show ?thesis using assms(4) by simp
  qed
  ultimately show "is_leap y" by (simp add: is_leap_def)
qed

lemma year_day_spec:
  assumes "year_day d = (y, yd)"
  shows "days_before_year y + yd = d \<and> 0 \<le> yd \<and> yd < (if is_leap y then 366 else 365)"
proof -
  define e d1 where "e = d div 146097" and "d1 = d mod 146097"
  define a d2 where "a = min 3 (d1 div 36524)" and "d2 = d1 - 36524 * a"
  define b d3 where "b = d2 div 1461" and "d3 = d2 mod 1461"
  define c where "c = min 3 (d3 div 365)"
  have "(400 * e + 100 * a + 4 * b + c + 1, d3 - 365 * c) = (y, yd)"
    using assms unfolding year_day_def Let_def e_def d1_def a_def d2_def b_def d3_def c_def .
  then have y: "y = 400 * e + 100 * a + 4 * b + c + 1" and yd: "yd = d3 - 365 * c" by simp_all
  have d: "d = 146097 * e + d1" "0 \<le> d1" "d1 \<le> 146096"
    using mult_div_mod_eq [of 146097 d, folded e_def d1_def] pos_mod_sign [of 146097 d, folded d1_def]
      pos_mod_bound [of 146097 d, folded d1_def] by linarith+
  have a: "0 \<le> a" "a \<le> 3" "0 \<le> d2" "d2 < 36524 \<or> a = 3 \<and> d2 = 36524"
    using div_at_most [of d1 36524 3, folded a_def, folded d2_def] d(2,3)
      min.cobounded1 [of 3 "d1 div 36524", folded a_def] by simp_all
  have b: "d2 = 1461 * b + d3" "0 \<le> d3" "d3 \<le> 1460"
    using mult_div_mod_eq [of 1461 d2, folded b_def d3_def] pos_mod_sign [of 1461 d2, folded d3_def]
      pos_mod_bound [of 1461 d2, folded d3_def] by linarith+
  have b': "0 \<le> b" "b \<le> 24" using a(3,4) b by linarith+
  have c: "0 \<le> c" "c \<le> 3" "0 \<le> yd" "yd < 365 \<or> c = 3 \<and> yd = 365"
    using div_at_most [of d3 365 3, folded c_def, folded yd] b(2,3)
      min.cobounded1 [of 3 "d3 div 365", folded c_def] by simp_all
  have "days_before_year y + yd = d"
    using cycle_year(1) [OF y a(1,2) b' c(1,2)] d(1) b(1) yd unfolding d2_def by linarith
  moreover have "is_leap y" if "yd = 365"
  proof (rule cycle_year(2) [OF y a(1,2) b' c(1,2)])
    show "c = 3" using c(4) that by linarith
    then show "b \<noteq> 24 \<or> a = 3" using that yd b(1) a(4) by linarith
  qed
  ultimately show ?thesis using c(3,4) by auto
qed

lemma month_of_spec:
  assumes "0 \<le> yd" and "yd < 365"
  shows "1 \<le> month_of yd \<and> month_of yd \<le> 12 \<and> (2 < month_of yd \<longleftrightarrow> 59 \<le> yd)
    \<and> days_before_month ! nat (month_of yd - 1) \<le> yd \<and> yd < days_before_month ! nat (month_of yd - 1) + 31"
proof -
  consider "yd < 31" | "31 \<le> yd" "yd < 59" | "59 \<le> yd" "yd < 90" | "90 \<le> yd" "yd < 120"
    | "120 \<le> yd" "yd < 151" | "151 \<le> yd" "yd < 181" | "181 \<le> yd" "yd < 212" | "212 \<le> yd" "yd < 243"
    | "243 \<le> yd" "yd < 273" | "273 \<le> yd" "yd < 304" | "304 \<le> yd" "yd < 334" | "334 \<le> yd"
    using not_less by blast
  then show ?thesis using assms by cases (simp_all add: month_of_def days_before_month_def)
qed

lemma month_day_spec:
  assumes "month_day leap yd = (m, d)" and "0 \<le> yd" and "yd < (if leap then 366 else 365)"
  shows "1 \<le> m \<and> m \<le> 12 \<and> 1 \<le> d \<and> d \<le> 31
    \<and> days_before_month ! nat (m - 1) + (if leap \<and> m > 2 then 1 else 0) + (d - 1) = yd"
proof (cases "leap \<and> yd = 59")
  case True
  with assms(1) have "m = 2" "d = 29" by (auto simp: month_day_def)
  with True show ?thesis by (simp add: days_before_month_def)
next
  case False
  let ?y = "if leap \<and> yd > 59 then yd - 1 else yd"
  have md: "m = month_of ?y" "d = ?y - days_before_month ! nat (m - 1) + 1"
    using False assms(1) by (auto simp: month_day_def Let_def)
  have "0 \<le> ?y" "?y < 365" using assms(2,3) False by (auto split: if_splits)
  from month_of_spec [OF this] show ?thesis unfolding md(2) using False
    by (auto simp: md(1) split: if_splits)
qed

text \<open>The date and time that are printed denote the instant.\<close>

lemma clock_parts: "r div 3600 * 3600 + r mod 3600 div 60 * 60 + r mod 60 = r" for r :: int
proof -
  have "r mod 3600 mod 60 = r mod 60" by (rule mod_mod_cancel) simp
  then show ?thesis using div_mult_mod_eq [of r 3600] div_mult_mod_eq [of "r mod 3600" 60] by linarith
qed

lemma time_Unix_UTC: "time_Unix (time_UTC s) = s"
proof -
  obtain y yd where y: "year_day (s div 86400 + unix_epoch) = (y, yd)" by fastforce
  obtain m d where m: "month_day (is_leap y) yd = (m, d)" by fastforce
  have days: "days_of_date y m d = s div 86400 + unix_epoch"
    using year_day_spec [OF y] month_day_spec [OF m] unfolding days_of_date_def by linarith
  have "time_Unix (time_UTC s) = (days_of_date y m d - unix_epoch) * 86400
      + (s mod 86400 div 3600 * 3600 + s mod 86400 mod 3600 div 60 * 60 + s mod 86400 mod 60)"
    unfolding time_Unix_def time_UTC_def y m Let_def prod.case by (simp only: Time.simps)
  then show ?thesis unfolding days clock_parts by (simp only: add_diff_cancel div_mult_mod_eq)
qed

end
