(* ===== verification/Response_Types.thy ===== *)
theory Response_Types
  imports Go_Strconv Go_Time Imap_Flags Imap_SeqSet
begin

text \<open>
  The responses the server sends and the items inside them (\<open>internal/response\<close>), and how they are
  printed. A builder \<open>X().WithY(..)\<close> is the constructor with its fields; the error of a NO or a BAD
  is its message, if there is one. The table of printable runes behind \<open>strconv.Quote\<close> is the
  argument \<open>isPrint\<close> of the printers that quote names.
\<close>

section \<open>Items\<close>

record itemBodyLiteral =
  bl_section :: string
  bl_literal :: bytes
  bl_partial :: goint

datatype Item =
    itemFlags FlagSet
  | itemUID UID
  | itemUIDNext UID
  | itemUIDValidity UID
  | itemUnseen uint32
  | itemRecent goint
  | itemMessages goint
  | itemPermanentFlags FlagSet
  | itemReadOnly
  | itemReadWrite
  | itemTryCreate
  | itemExpungeIssued
  | itemBadCharset
  | itemCapability "string list"
  | itemAppendUID UID UID
  | itemCopyUID UID "SeqVal list" "SeqVal list"
  | itemRFC822Size goint
  | itemRFC822Header bytes
  | itemRFC822Literal bytes
  | itemRFC822Text bytes
  | itemBody string
  | itemBodyStructure string
  | itemEnvelope string
  | itemInternalDate int
  | itemBodyLit itemBodyLiteral

definition join :: "string list \<Rightarrow> string" where
  "join items = Join items '' ''"

definition ItemBodyLiteral :: "string \<Rightarrow> bytes \<Rightarrow> itemBodyLiteral" where
  "ItemBodyLiteral sec lit = \<lparr>bl_section = sec, bl_literal = lit, bl_partial = -1\<rparr>"

text \<open>Slice expressions with signed bounds panic when a bound is negative or out of order.\<close>

definition slice_from :: "bytes \<Rightarrow> goint \<Rightarrow> (unit, bytes) outcome" where
  "slice_from xs b =
     (if 0 \<le> sint b \<and> sint b \<le> int (length xs) then Ok (drop (nat (sint b)) xs)
      else Panic ''slice bounds out of range'')"

definition slice_between :: "bytes \<Rightarrow> goint \<Rightarrow> goint \<Rightarrow> (unit, bytes) outcome" where
  "slice_between xs b e =
     (if 0 \<le> sint b \<and> sint b \<le> sint e \<and> sint e \<le> int (length xs)
      then Ok (take (nat (sint e) - nat (sint b)) (drop (nat (sint b)) xs))
      else Panic ''slice bounds out of range'')"

definition WithPartial :: "goint \<Rightarrow> goint \<Rightarrow> itemBodyLiteral \<Rightarrow> (unit, itemBodyLiteral) outcome" where
  "WithPartial begin count r =
     (let r = r\<lparr>bl_partial := begin\<rparr>; literalLen = int (length (bl_literal r)) in
      if sint begin \<ge> literalLen then Ok (r\<lparr>bl_literal := []\<rparr>)
      else if sint (begin + count) > literalLen then
        bind_outcome (slice_from (bl_literal r) begin) (\<lambda>l. Ok (r\<lparr>bl_literal := l\<rparr>))
      else bind_outcome (slice_between (bl_literal r) begin (begin + count)) (\<lambda>l. Ok (r\<lparr>bl_literal := l\<rparr>)))"

text \<open>A literal: its size in braces, a line break and its bytes.\<close>

definition show_literal :: "bytes \<Rightarrow> bytes" where
  "show_literal l = ''{'' @ show_nat (length l) @ ''}'' @ [CHR 0x0D, CHR 0x0A] @ l"

definition itemFlags_String :: "FlagSet \<Rightarrow> string" where
  "itemFlags_String fs = ''FLAGS ('' @ join (ToSlice fs) @ '')''"

definition itemUID_String :: "UID \<Rightarrow> string" where
  "itemUID_String u = ''UID '' @ show_nat (unat u)"

definition itemUIDNext_String :: "UID \<Rightarrow> string" where
  "itemUIDNext_String u = ''UIDNEXT '' @ show_nat (unat u)"

definition itemUIDValidity_String :: "UID \<Rightarrow> string" where
  "itemUIDValidity_String u = ''UIDVALIDITY '' @ show_nat (unat u)"

definition itemUnseen_String :: "uint32 \<Rightarrow> string" where
  "itemUnseen_String n = ''UNSEEN '' @ show_nat (unat n)"

definition itemRecent_String :: "goint \<Rightarrow> string" where
  "itemRecent_String n = ''RECENT '' @ show_int (sint n)"

definition itemMessages_String :: "goint \<Rightarrow> string" where
  "itemMessages_String n = ''MESSAGES '' @ show_int (sint n)"

definition itemPermanentFlags_String :: "FlagSet \<Rightarrow> string" where
  "itemPermanentFlags_String fs = ''PERMANENTFLAGS ('' @ join (ToSlice fs) @ '')''"

definition itemCapability_String :: "string list \<Rightarrow> string" where
  "itemCapability_String caps = ''CAPABILITY '' @ join (sort caps)"

definition itemAppendUID_String :: "UID \<Rightarrow> UID \<Rightarrow> string" where
  "itemAppendUID_String v u = ''APPENDUID '' @ show_nat (unat v) @ '' '' @ show_nat (unat u)"

definition itemCopyUID_String :: "UID \<Rightarrow> SeqVal list \<Rightarrow> SeqVal list \<Rightarrow> string" where
  "itemCopyUID_String v src dst =
     ''COPYUID '' @ show_nat (unat v) @ '' '' @ SeqSet_String src @ '' '' @ SeqSet_String dst"

definition itemRFC822Size_String :: "goint \<Rightarrow> string" where
  "itemRFC822Size_String n = ''RFC822.SIZE '' @ show_int (sint n)"

definition itemRFC822Header_String :: "bytes \<Rightarrow> string" where
  "itemRFC822Header_String h = ''RFC822.HEADER '' @ show_literal h"

definition itemRFC822Literal_String :: "bytes \<Rightarrow> string" where
  "itemRFC822Literal_String l = ''RFC822 '' @ show_literal l"

definition itemRFC822Text_String :: "bytes \<Rightarrow> string" where
  "itemRFC822Text_String t = ''RFC822.TEXT '' @ show_literal t"

definition itemBody_String :: "string \<Rightarrow> string" where
  "itemBody_String s = ''BODY '' @ s"

definition itemBodyStructure_String :: "string \<Rightarrow> string" where
  "itemBodyStructure_String s = ''BODYSTRUCTURE '' @ s"

definition itemEnvelope_String :: "string \<Rightarrow> string" where
  "itemEnvelope_String s = ''ENVELOPE '' @ s"

definition itemInternalDate_String :: "int \<Rightarrow> string" where
  "itemInternalDate_String d = ''INTERNALDATE '' @ [CHR 0x22] @ format_internal_date d @ [CHR 0x22]"

definition itemBodyLiteral_String :: "itemBodyLiteral \<Rightarrow> string" where
  "itemBodyLiteral_String r =
     ''BODY['' @ bl_section r @ '']''
       @ (if sint (bl_partial r) \<ge> 0 then ''<'' @ show_int (sint (bl_partial r)) @ ''>'' else '''')
       @ '' '' @ show_literal (bl_literal r)"

fun Item_String :: "Item \<Rightarrow> string" where
  "Item_String (itemFlags fs) = itemFlags_String fs"
| "Item_String (itemUID u) = itemUID_String u"
| "Item_String (itemUIDNext u) = itemUIDNext_String u"
| "Item_String (itemUIDValidity u) = itemUIDValidity_String u"
| "Item_String (itemUnseen n) = itemUnseen_String n"
| "Item_String (itemRecent n) = itemRecent_String n"
| "Item_String (itemMessages n) = itemMessages_String n"
| "Item_String (itemPermanentFlags fs) = itemPermanentFlags_String fs"
| "Item_String itemReadOnly = ''READ-ONLY''"
| "Item_String itemReadWrite = ''READ-WRITE''"
| "Item_String itemTryCreate = ''TRYCREATE''"
| "Item_String itemExpungeIssued = ''EXPUNGEISSUED''"
| "Item_String itemBadCharset = ''BADCHARSET''"
| "Item_String (itemCapability cs) = itemCapability_String cs"
| "Item_String (itemAppendUID v u) = itemAppendUID_String v u"
| "Item_String (itemCopyUID v s d) = itemCopyUID_String v s d"
| "Item_String (itemRFC822Size n) = itemRFC822Size_String n"
| "Item_String (itemRFC822Header h) = itemRFC822Header_String h"
| "Item_String (itemRFC822Literal l) = itemRFC822Literal_String l"
| "Item_String (itemRFC822Text t) = itemRFC822Text_String t"
| "Item_String (itemBody s) = itemBody_String s"
| "Item_String (itemBodyStructure s) = itemBodyStructure_String s"
| "Item_String (itemEnvelope s) = itemEnvelope_String s"
| "Item_String (itemInternalDate d) = itemInternalDate_String d"
| "Item_String (itemBodyLit r) = itemBodyLiteral_String r"

section \<open>Responses\<close>

text \<open>\<open>imap.IMAPID\<close>; the map of other fields is an association list.\<close>

record IMAPID =
  id_Name :: string
  id_Version :: string
  id_OS :: string
  id_OSVersion :: string
  id_Vendor :: string
  id_SupportURL :: string
  id_Address :: string
  id_Date :: string
  id_Command :: string
  id_Arguments :: string
  id_Environment :: string
  id_Other :: "(string \<times> string) list"

datatype Response =
    resp_exists SeqID
  | resp_recent uint32
  | resp_expunge SeqID
  | resp_fetch SeqID "Item list"
  | resp_flags FlagSet
  | resp_search "uint32 list"
  | resp_list string string FlagSet
  | resp_lsub string string FlagSet
  | resp_status string "Item list"
  | resp_ok string string "Item list"
  | resp_no string "string option" "Item list"
  | resp_bad string "string option"
  | resp_bye string
  | resp_capability "string list"
  | resp_id IMAPID

definition NewIMAPID :: IMAPID where
  "NewIMAPID = \<lparr>id_Name = ''Unknown'', id_Version = ''Unknown'', id_OS = ''Unknown'',
     id_OSVersion = ''Unknown'', id_Vendor = ''Unknown'', id_SupportURL = '''', id_Address = '''',
     id_Date = '''', id_Command = '''', id_Arguments = '''', id_Environment = '''', id_Other = []\<rparr>"

definition writeIfNotEmpty :: "string \<times> string \<Rightarrow> string list" where
  "writeIfNotEmpty kv =
     (case kv of (key, value) \<Rightarrow>
        if value \<noteq> [] then [[CHR 0x22] @ key @ [CHR 0x22, CHR 0x20, CHR 0x22] @ value @ [CHR 0x22]] else [])"

definition IMAPID_fields :: "IMAPID \<Rightarrow> (string \<times> string) list" where
  "IMAPID_fields i =
     [(''name'', id_Name i), (''version'', id_Version i), (''os'', id_OS i), (''os-version'', id_OSVersion i),
      (''vendor'', id_Vendor i), (''support-url'', id_SupportURL i), (''address'', id_Address i),
      (''date'', id_Date i), (''command'', id_Command i), (''arguments'', id_Arguments i),
      (''environment'', id_Environment i)] @ id_Other i"

definition IMAPID_String :: "IMAPID \<Rightarrow> string" where
  "IMAPID_String i = ''('' @ Join (concat (map writeIfNotEmpty (IMAPID_fields i))) '' '' @ '')''"

text \<open>The map of field pointers has no entry for \<open>os-version\<close>.\<close>

definition set_id_field :: "IMAPID \<Rightarrow> string \<times> string \<Rightarrow> IMAPID" where
  "set_id_field i kv =
     (case kv of (k, v) \<Rightarrow>
        if k = ''name'' then i\<lparr>id_Name := v\<rparr>
        else if k = ''version'' then i\<lparr>id_Version := v\<rparr>
        else if k = ''os'' then i\<lparr>id_OS := v\<rparr>
        else if k = ''vendor'' then i\<lparr>id_Vendor := v\<rparr>
        else if k = ''support-url'' then i\<lparr>id_SupportURL := v\<rparr>
        else if k = ''address'' then i\<lparr>id_Address := v\<rparr>
        else if k = ''date'' then i\<lparr>id_Date := v\<rparr>
        else if k = ''command'' then i\<lparr>id_Command := v\<rparr>
        else if k = ''arguments'' then i\<lparr>id_Arguments := v\<rparr>
        else if k = ''environment'' then i\<lparr>id_Environment := v\<rparr>
        else i\<lparr>id_Other := AList.update k v (id_Other i)\<rparr>)"

definition NewIMAPIDFromKeyMap :: "(string \<times> string) list \<Rightarrow> IMAPID" where
  "NewIMAPIDFromKeyMap m = foldl set_id_field NewIMAPID m"

definition Search :: "uint32 list \<Rightarrow> Response" where
  "Search seqs = resp_search (sort seqs)"

definition exists_String :: "SeqID \<Rightarrow> string" where
  "exists_String n = ''* '' @ show_nat (unat n) @ '' EXISTS''"

definition recent_String :: "uint32 \<Rightarrow> string" where
  "recent_String n = ''* '' @ show_nat (unat n) @ '' RECENT''"

definition expunge_String :: "SeqID \<Rightarrow> string" where
  "expunge_String n = ''* '' @ show_nat (unat n) @ '' EXPUNGE''"

definition fetch_String :: "SeqID \<Rightarrow> Item list \<Rightarrow> string" where
  "fetch_String n items = ''* '' @ show_nat (unat n) @ '' FETCH ('' @ join (map Item_String items) @ '')''"

definition flags_String :: "FlagSet \<Rightarrow> string" where
  "flags_String fs = ''* FLAGS ('' @ join (ToSlice fs) @ '')''"

definition search_String :: "uint32 list \<Rightarrow> string" where
  "search_String seqs =
     join ([''*'', ''SEARCH''] @ (if seqs \<noteq> [] then [join (map (\<lambda>s. show_nat (unat s)) seqs)] else []))"

definition delimiter_String :: "(nat \<Rightarrow> bool) \<Rightarrow> string \<Rightarrow> string" where
  "delimiter_String isPrint del = (if del \<noteq> [] then Quote isPrint del else ''NIL'')"

definition list_String :: "(nat \<Rightarrow> bool) \<Rightarrow> string \<Rightarrow> string \<Rightarrow> FlagSet \<Rightarrow> string" where
  "list_String isPrint name del att =
     ''* LIST ('' @ join (ToSlice att) @ '') '' @ delimiter_String isPrint del @ '' '' @ Quote isPrint name"

definition lsub_String :: "(nat \<Rightarrow> bool) \<Rightarrow> string \<Rightarrow> string \<Rightarrow> FlagSet \<Rightarrow> string" where
  "lsub_String isPrint name del att =
     ''* LSUB ('' @ join (ToSlice att) @ '') '' @ delimiter_String isPrint del @ '' '' @ Quote isPrint name"

definition status_String :: "(nat \<Rightarrow> bool) \<Rightarrow> string \<Rightarrow> Item list \<Rightarrow> string" where
  "status_String isPrint name items =
     ''* STATUS '' @ Quote isPrint name @ '' ('' @ join (map Item_String items) @ '')''"

definition code_parts :: "Item list \<Rightarrow> string list" where
  "code_parts items = (if items \<noteq> [] then [''['' @ join (map Item_String items) @ '']''] else [])"

definition ok_String :: "string \<Rightarrow> string \<Rightarrow> Item list \<Rightarrow> string" where
  "ok_String tag msg items = join ([tag, ''OK''] @ code_parts items @ (if msg \<noteq> [] then [msg] else []))"

definition no_String :: "string \<Rightarrow> string option \<Rightarrow> Item list \<Rightarrow> string" where
  "no_String tag err items =
     join ([tag, ''NO''] @ code_parts items @ (case err of None \<Rightarrow> [] | Some e \<Rightarrow> [e]))"

definition bad_String :: "string \<Rightarrow> string option \<Rightarrow> string" where
  "bad_String tag err = join ([tag, ''BAD''] @ (case err of None \<Rightarrow> [] | Some e \<Rightarrow> [e]))"

definition bye_String :: "string \<Rightarrow> string" where
  "bye_String msg = join ([''*'', ''BYE''] @ (if msg \<noteq> [] then [msg] else []))"

definition capability_String :: "string list \<Rightarrow> string" where
  "capability_String caps = ''* CAPABILITY '' @ join (sort caps)"

definition id_String :: "IMAPID \<Rightarrow> string" where
  "id_String i = ''* ID '' @ IMAPID_String i"

definition continuation_String :: "string \<Rightarrow> string" where
  "continuation_String message = (if message = [] then ''+'' else Join [''+'', message] '' '')"

fun Response_String :: "(nat \<Rightarrow> bool) \<Rightarrow> Response \<Rightarrow> string" where
  "Response_String isPrint (resp_exists n) = exists_String n"
| "Response_String isPrint (resp_recent n) = recent_String n"
| "Response_String isPrint (resp_expunge n) = expunge_String n"
| "Response_String isPrint (resp_fetch n items) = fetch_String n items"
| "Response_String isPrint (resp_flags fs) = flags_String fs"
| "Response_String isPrint (resp_search seqs) = search_String seqs"
| "Response_String isPrint (resp_list name del att) = list_String isPrint name del att"
| "Response_String isPrint (resp_lsub name del att) = lsub_String isPrint name del att"
| "Response_String isPrint (resp_status name items) = status_String isPrint name items"
| "Response_String isPrint (resp_ok tag msg items) = ok_String tag msg items"
| "Response_String isPrint (resp_no tag err items) = no_String tag err items"
| "Response_String isPrint (resp_bad tag err) = bad_String tag err"
| "Response_String isPrint (resp_bye msg) = bye_String msg"
| "Response_String isPrint (resp_capability caps) = capability_String caps"
| "Response_String isPrint (resp_id i) = id_String i"

definition IsCapabilityAvailableBeforeAuth :: "string \<Rightarrow> bool" where
  "IsCapabilityAvailableBeforeAuth c \<longleftrightarrow>
     c \<in> {''IMAP4rev1'', ''STARTTLS'', ''IDLE'', ''ID'', ''AUTH=PLAIN''}"

section \<open>Properties of printing\<close>

lemma sint_bounds: "- (2 ^ 63) \<le> sint (a :: goint) \<and> sint (a :: goint) < 2 ^ 63"
  using sint_greater_eq [of a] sint_less [of a] by simp

lemma sint_add_cases:
  fixes a b :: goint
  shows "sint (a + b) = (if sint a + sint b \<ge> 2 ^ 63 then sint a + sint b - 2 ^ 64
    else if sint a + sint b < - (2 ^ 63) then sint a + sint b + 2 ^ 64 else sint a + sint b)"
proof -
  have s: "sint (a + b) = signed_take_bit 63 (sint a + sint b)"
    using signed_take_bit_add [of 63 "sint a" "sint b"] by (simp add: sint_word_ariths)
  have eq: "signed_take_bit 63 k = k'" if "- (2 ^ 63) \<le> k'" "k' < 2 ^ 63" "k mod 2 ^ 64 = k' mod 2 ^ 64" for k k' :: int
    using signed_take_bit_int_eq_self [OF that(1,2)] signed_take_bit_eq_iff_take_bit_eq [of 63 k k'] that(3)
    by (simp add: take_bit_eq_mod)
  show ?thesis
    unfolding s using sint_bounds [of a] sint_bounds [of b]
    by (auto intro!: eq)
qed

text \<open>
  C35: A partial FETCH returns the bytes asked for: \<open>WithPartial begin count\<close> keeps the bytes of the
  literal from \<open>begin\<close>, at most \<open>count\<close> of them, and none when \<open>begin\<close> is beyond the end. It panics
  exactly when \<open>begin\<close> is before the end of the literal and \<open>begin\<close> or \<open>count\<close> is negative or their
  sum overflows.
\<close>

theorem WithPartial_spec:
  "WithPartial b n r =
     (if sint b < int (length (bl_literal r)) \<and> (sint b < 0 \<or> sint n < 0 \<or> sint b + sint n \<ge> 2 ^ 63)
      then Panic ''slice bounds out of range''
      else Ok (r\<lparr>bl_partial := b,
        bl_literal := if sint b \<ge> int (length (bl_literal r)) then []
                      else take (nat (sint n)) (drop (nat (sint b)) (bl_literal r))\<rparr>))"
proof -
  let ?len = "int (length (bl_literal r))"
  consider (beyond) "?len \<le> sint b" | (neg) "sint b < 0" | (inside) "0 \<le> sint b" "sint b < ?len" by linarith
  then show ?thesis
  proof cases
    case beyond
    then show ?thesis by (simp add: WithPartial_def Let_def)
  next
    case neg
    then show ?thesis by (simp add: WithPartial_def Let_def slice_from_def slice_between_def)
  next
    case inside
    show ?thesis
    proof (cases "sint n < 0 \<or> sint b + sint n \<ge> 2 ^ 63")
      case True
      then have "sint (b + n) < sint b" using inside(1) sint_bounds [of n] by (auto simp: sint_add_cases)
      then show ?thesis using True inside
        by (auto simp: WithPartial_def Let_def slice_between_def)
    next
      case False
      then have sum: "sint (b + n) = sint b + sint n" using inside(1) by (auto simp: sint_add_cases)
      show ?thesis
      proof (cases "sint b + sint n > ?len")
        case True
        then have "take (nat (sint n)) (drop (nat (sint b)) (bl_literal r)) = drop (nat (sint b)) (bl_literal r)"
          using inside by simp
        then show ?thesis using True False inside
          by (simp add: WithPartial_def Let_def sum slice_from_def)
      next
        case le: False
        have "nat (sint b + sint n) - nat (sint b) = nat (sint n)" using False inside by simp
        then show ?thesis using le False inside
          by (simp add: WithPartial_def Let_def sum slice_between_def)
      qed
    qed
  qed
qed



text \<open>Other characters are escaped in a way that IMAP does not have.\<close>

lemma Quote_tab: "Quote isPrint [CHR 0x09] = [CHR 0x22, CHR 0x5C, CHR ''t'', CHR 0x22]"
  by (simp add: Quote_def escape_rune_def ascii_print_def)

lemma Quote_tab_refused:
  "fst (ParseQuoted (parser_on cb (Quote isPrint [CHR 0x09] @ rest))) \<noteq> Inr s"
  unfolding Quote_tab parser_on_at ParseQuoted_def
  by (simp add: seq_simps at_simps tok_type_punct quoted_loop_unfold quoted_step_def)

text \<open>The version of the operating system that a client sends is filed under the other fields.\<close>

lemma os_version_ignored: "id_OSVersion (NewIMAPIDFromKeyMap m) = ''Unknown''"
proof -
  have "id_OSVersion (foldl set_id_field i m) = id_OSVersion i" for i
    by (induction m arbitrary: i) (auto simp: set_id_field_def)
  then show ?thesis by (simp add: NewIMAPIDFromKeyMap_def NewIMAPID_def)
qed

end
