(* ===== verification/Response_Merge.thy ===== *)
theory Response_Merge
  imports Response_Types
begin

text \<open>
  Merging of pending responses (\<open>internal/response/merge.go\<close> and the methods \<open>mergeWith\<close> and
  \<open>canSkip\<close> of the responses and items). What merging must keep is what a client learns from the
  responses: a client is a state that every response changes.
\<close>

section \<open>Merging\<close>

fun mergeableItem :: "Item \<Rightarrow> bool" where
  "mergeableItem (itemFlags fs) = True"
| "mergeableItem (itemUID u) = True"
| "mergeableItem i = False"

definition itemFlags_mergeWith :: "FlagSet \<Rightarrow> Item \<Rightarrow> Item option" where
  "itemFlags_mergeWith fs other = (case other of itemFlags _ \<Rightarrow> Some (itemFlags (Clone fs)) | _ \<Rightarrow> None)"

definition itemUID_mergeWith :: "UID \<Rightarrow> Item \<Rightarrow> Item option" where
  "itemUID_mergeWith u other = (case other of itemUID _ \<Rightarrow> Some (itemUID u) | _ \<Rightarrow> None)"

fun item_mergeWith :: "Item \<Rightarrow> Item \<Rightarrow> Item option" where
  "item_mergeWith (itemFlags fs) other = itemFlags_mergeWith fs other"
| "item_mergeWith (itemUID u) other = itemUID_mergeWith u other"
| "item_mergeWith c other = None"

text \<open>The loop of \<open>appendOrMergeItem\<close>: the first item the new one merges with is replaced.\<close>

fun merge_item :: "Item list \<Rightarrow> Item \<Rightarrow> Item list option" where
  "merge_item [] unmerged = None"
| "merge_item (x # xs) unmerged =
     (case item_mergeWith unmerged x of
        Some merged \<Rightarrow> Some (merged # xs)
      | None \<Rightarrow> map_option ((#) x) (merge_item xs unmerged))"

definition appendOrMergeItem :: "Item list \<Rightarrow> Item \<Rightarrow> Item list" where
  "appendOrMergeItem input unmerged =
     (if \<not> mergeableItem unmerged then input @ [unmerged]
      else case merge_item input unmerged of Some input' \<Rightarrow> input' | None \<Rightarrow> input @ [unmerged])"

fun mergeableResponse :: "Response \<Rightarrow> bool" where
  "mergeableResponse (resp_exists n) = True"
| "mergeableResponse (resp_recent n) = True"
| "mergeableResponse (resp_fetch n items) = True"
| "mergeableResponse r = False"

definition exists_mergeWith :: "SeqID \<Rightarrow> Response \<Rightarrow> (unit, Response option) outcome" where
  "exists_mergeWith n other =
     (case other of
        resp_exists k \<Rightarrow> if k > n then Panic ''consecutive exists must be non-decreasing'' else Ok (Some (resp_exists n))
      | _ \<Rightarrow> Ok None)"

definition recent_mergeWith :: "uint32 \<Rightarrow> Response \<Rightarrow> (unit, Response option) outcome" where
  "recent_mergeWith n other =
     (case other of
        resp_recent k \<Rightarrow> if k > n then Panic ''consecutive recents must be non-decreasing'' else Ok (Some (resp_recent n))
      | _ \<Rightarrow> Ok None)"

definition fetch_mergeWith :: "SeqID \<Rightarrow> Item list \<Rightarrow> Response \<Rightarrow> (unit, Response option) outcome" where
  "fetch_mergeWith n items other =
     (case other of
        resp_fetch k others \<Rightarrow>
          if k \<noteq> n then Ok None else Ok (Some (resp_fetch k (foldl appendOrMergeItem others items)))
      | _ \<Rightarrow> Ok None)"

fun mergeWith :: "Response \<Rightarrow> Response \<Rightarrow> (unit, Response option) outcome" where
  "mergeWith (resp_exists n) other = exists_mergeWith n other"
| "mergeWith (resp_recent n) other = recent_mergeWith n other"
| "mergeWith (resp_fetch n items) other = fetch_mergeWith n items other"
| "mergeWith r other = Ok None"

definition exists_canSkip :: "Response \<Rightarrow> bool" where
  "exists_canSkip other = (case other of resp_recent _ \<Rightarrow> True | resp_fetch _ _ \<Rightarrow> True | _ \<Rightarrow> False)"

definition recent_canSkip :: "Response \<Rightarrow> bool" where
  "recent_canSkip other = (case other of resp_exists _ \<Rightarrow> True | resp_fetch _ _ \<Rightarrow> True | _ \<Rightarrow> False)"

definition fetch_canSkip :: "SeqID \<Rightarrow> Response \<Rightarrow> bool" where
  "fetch_canSkip n other =
     (case other of resp_exists k \<Rightarrow> n < k | resp_recent _ \<Rightarrow> True | resp_fetch k _ \<Rightarrow> k \<noteq> n | _ \<Rightarrow> False)"

fun canSkip :: "Response \<Rightarrow> Response \<Rightarrow> bool" where
  "canSkip (resp_exists n) other = exists_canSkip other"
| "canSkip (resp_recent n) other = recent_canSkip other"
| "canSkip (resp_fetch n items) other = fetch_canSkip n other"
| "canSkip r other = False"

text \<open>The loop of \<open>appendOrMergeResponse\<close>, from the newest response to the oldest.\<close>

fun merge_scan :: "Response \<Rightarrow> Response list \<Rightarrow> (unit, Response list option) outcome" where
  "merge_scan r [] = Ok None"
| "merge_scan r (x # xs) =
     bind_outcome (mergeWith r x) (\<lambda>merged.
       case merged of
         Some y \<Rightarrow> Ok (Some (y # xs))
       | None \<Rightarrow>
           if \<not> canSkip r x then Ok None
           else bind_outcome (merge_scan r xs) (\<lambda>o'. Ok (map_option ((#) x) o')))"

definition appendOrMergeResponse :: "Response list \<Rightarrow> Response \<Rightarrow> (unit, Response list) outcome" where
  "appendOrMergeResponse input unmerged =
     (if \<not> mergeableResponse unmerged then Ok (input @ [unmerged])
      else bind_outcome (merge_scan unmerged (rev input)) (\<lambda>o'.
        case o' of Some ys \<Rightarrow> Ok (rev ys) | None \<Rightarrow> Ok (input @ [unmerged])))"

fun merge_loop :: "Response list \<Rightarrow> Response list \<Rightarrow> (unit, Response list) outcome" where
  "merge_loop merged [] = Ok merged"
| "merge_loop merged (r # rs) = bind_outcome (appendOrMergeResponse merged r) (\<lambda>m. merge_loop m rs)"

definition Merge :: "Response list \<Rightarrow> (unit, Response list) outcome" where
  "Merge input = (if length input < 2 then Ok input else merge_loop [] input)"

section \<open>What a client learns\<close>

text \<open>
  What a client knows of one message: its flags, its UID, and the other items in the order they came.
\<close>

record known_msg =
  k_flags :: "(string \<rightharpoonup> string) option"
  k_uid :: "UID option"
  k_items :: "Item list"

record client =
  c_count :: SeqID
  c_recent :: uint32
  c_msgs :: "SeqID \<Rightarrow> known_msg"
  c_log :: "Response list"

fun learn_item :: "known_msg \<Rightarrow> Item \<Rightarrow> known_msg" where
  "learn_item k (itemFlags fs) = k\<lparr>k_flags := Some (map_of fs)\<rparr>"
| "learn_item k (itemUID u) = k\<lparr>k_uid := Some u\<rparr>"
| "learn_item k i = k\<lparr>k_items := k_items k @ [i]\<rparr>"

text \<open>EXPUNGE moves every later message down by one.\<close>

fun learn :: "client \<Rightarrow> Response \<Rightarrow> client" where
  "learn c (resp_exists n) = c\<lparr>c_count := n\<rparr>"
| "learn c (resp_recent n) = c\<lparr>c_recent := n\<rparr>"
| "learn c (resp_fetch n items) = c\<lparr>c_msgs := (c_msgs c)(n := foldl learn_item (c_msgs c n) items)\<rparr>"
| "learn c (resp_expunge n) = c\<lparr>c_count := c_count c - 1,
     c_msgs := (\<lambda>k. if k < n then c_msgs c k else c_msgs c (k + 1))\<rparr>"
| "learn c r = c\<lparr>c_log := c_log c @ [r]\<rparr>"

text \<open>An item list that names each mergeable kind at most once, with proper flag sets.\<close>

fun item_ok :: "Item \<Rightarrow> bool" where
  "item_ok (itemFlags fs) = flagset_ok fs"
| "item_ok i = True"

fun item_kind :: "Item \<Rightarrow> nat" where
  "item_kind (itemFlags fs) = 1"
| "item_kind (itemUID u) = 2"
| "item_kind i = 0"

definition items_ok :: "Item list \<Rightarrow> bool" where
  "items_ok items \<longleftrightarrow> list_all item_ok items \<and> distinct (filter (\<lambda>k. k \<noteq> 0) (map item_kind items))"

fun response_ok :: "Response \<Rightarrow> bool" where
  "response_ok (resp_fetch n items) = items_ok items"
| "response_ok r = True"

section \<open>Merging keeps what a client learns\<close>

lemma mergeableItem_kind: "mergeableItem i \<longleftrightarrow> item_kind i \<noteq> 0"
  by (cases i) auto

lemma item_mergeWith_kind:
  "item_mergeWith i x = (if item_kind i \<noteq> 0 \<and> item_kind i = item_kind x
     then Some (case i of itemFlags fs \<Rightarrow> itemFlags (Clone fs) | _ \<Rightarrow> i) else None)"
proof -
  have "itemFlags_mergeWith fs x = (if item_kind x = 1 then Some (itemFlags (Clone fs)) else None)" for fs
    by (cases x) (simp_all add: itemFlags_mergeWith_def)
  moreover have "itemUID_mergeWith u x = (if item_kind x = 2 then Some (itemUID u) else None)" for u
    by (cases x) (simp_all add: itemUID_mergeWith_def)
  ultimately show ?thesis by (cases i) auto
qed

lemma merge_item_kind:
  "item_kind i \<noteq> 0 \<Longrightarrow> (merge_item xs i = None \<longleftrightarrow> item_kind i \<notin> item_kind ` set xs)"
  by (induction xs) (auto simp: item_mergeWith_kind)

lemma merge_item_kinds: "merge_item xs i = Some ys \<Longrightarrow> map item_kind ys = map item_kind xs"
  by (induction xs arbitrary: ys) (auto simp: item_mergeWith_kind split: if_splits Item.splits)

lemma merge_item_ok: "merge_item xs i = Some ys \<Longrightarrow> list_all item_ok xs \<Longrightarrow> item_ok i \<Longrightarrow> list_all item_ok ys"
  by (induction xs arbitrary: ys)
    (auto simp: item_mergeWith_kind flagset_ok_Clone split: if_splits Item.splits)

lemma items_ok_append: "items_ok input \<Longrightarrow> item_ok i \<Longrightarrow> items_ok (appendOrMergeItem input i)"
  by (auto simp: appendOrMergeItem_def items_ok_def mergeableItem_kind merge_item_kinds merge_item_ok merge_item_kind
      split: option.splits)

text \<open>Items of different kinds may be learned in any order.\<close>

lemma learn_item_commute:
  "item_kind i \<noteq> 0 \<Longrightarrow> item_kind x \<noteq> item_kind i \<Longrightarrow>
     learn_item (learn_item k x) i = learn_item (learn_item k i) x"
proof -
  assume "item_kind i \<noteq> 0" "item_kind x \<noteq> item_kind i"
  then show ?thesis by (cases i) (cases x, auto)+
qed

lemma learn_items_commute:
  "item_kind i \<noteq> 0 \<Longrightarrow> item_kind i \<notin> item_kind ` set xs \<Longrightarrow>
     learn_item (foldl learn_item k xs) i = foldl learn_item (learn_item k i) xs"
proof (induction xs arbitrary: k)
  case (Cons x xs)
  then show ?case using learn_item_commute [of i x] by auto
qed simp

lemma learn_merged_item:
  assumes "item_mergeWith i x = Some y" and "item_ok i"
  shows "learn_item k y = learn_item (learn_item k x) i"
proof -
  have "item_kind x = item_kind i" "item_kind i \<noteq> 0"
    using assms(1) by (auto simp: item_mergeWith_kind split: if_splits)
  then show ?thesis using assms
    by (cases i; cases x) (auto simp: map_of_Clone itemFlags_mergeWith_def itemUID_mergeWith_def)
qed

lemma learn_merge_item:
  assumes "merge_item xs i = Some ys" and "item_ok i" and "distinct (filter (\<lambda>k. k \<noteq> 0) (map item_kind xs))"
  shows "foldl learn_item k ys = learn_item (foldl learn_item k xs) i"
  using assms
proof (induction xs arbitrary: ys k)
  case (Cons x xs)
  show ?case
  proof (cases "item_mergeWith i x")
    case (Some y)
    then have kinds: "item_kind i \<noteq> 0" "item_kind x = item_kind i"
      by (auto simp: item_mergeWith_kind split: if_splits)
    then have "item_kind i \<notin> item_kind ` set xs" using Cons.prems(3) by auto
    from learn_items_commute [OF kinds(1) this, of "learn_item k x"]
    show ?thesis using Some Cons.prems learn_merged_item [OF Some Cons.prems(2), of k] by auto
  next
    case None
    then show ?thesis using Cons.prems Cons.IH [of _ "learn_item k x"] by (auto split: if_splits)
  qed
qed simp

lemma learn_appendOrMergeItem:
  "items_ok input \<Longrightarrow> item_ok i \<Longrightarrow>
     foldl learn_item k (appendOrMergeItem input i) = learn_item (foldl learn_item k input) i"
  using learn_merge_item [of input i _ k]
  by (auto simp: appendOrMergeItem_def items_ok_def split: option.splits)

lemma learn_merge_items:
  "items_ok others \<Longrightarrow> list_all item_ok items \<Longrightarrow>
     items_ok (foldl appendOrMergeItem others items) \<and>
     foldl learn_item k (foldl appendOrMergeItem others items) = foldl learn_item (foldl learn_item k others) items"
proof (induction items arbitrary: others)
  case (Cons i items)
  then show ?case
    using Cons.IH [of "appendOrMergeItem others i"] by (simp add: items_ok_append learn_appendOrMergeItem)
qed simp

lemma items_ok_all: "items_ok items \<Longrightarrow> list_all item_ok items"
  by (simp add: items_ok_def)

lemma learn_mergeWith:
  assumes "mergeWith r x = Ok (Some y)" and "response_ok r" and "response_ok x"
  shows "response_ok y \<and> learn c y = learn (learn c x) r"
  using assms
  by (cases r; cases x)
    (auto simp: exists_mergeWith_def recent_mergeWith_def fetch_mergeWith_def learn_merge_items items_ok_all
       split: if_splits)

lemma learn_canSkip:
  assumes "mergeWith r x = Ok None" and "canSkip r x"
  shows "learn (learn c x) r = learn (learn c r) x"
  using assms
  by (cases r; cases x)
    (auto simp: exists_mergeWith_def recent_mergeWith_def fetch_mergeWith_def exists_canSkip_def recent_canSkip_def
       fetch_canSkip_def fun_upd_twist split: if_splits)

text \<open>Responses are learned from the oldest to the newest; a list from the newest is reversed.\<close>

definition learn_all :: "Response list \<Rightarrow> client \<Rightarrow> client" where
  "learn_all rs c = foldl learn c rs"

lemma learn_all_append [simp]: "learn_all (rs @ rs') c = learn_all rs' (learn_all rs c)"
  by (simp add: learn_all_def)

lemma learn_all_Cons [simp]: "learn_all (r # rs) c = learn_all rs (learn c r)" "learn_all [] c = c"
  by (simp_all add: learn_all_def)

lemma learn_merge_scan:
  assumes "merge_scan r xs = Ok (Some ys)" and "response_ok r" and "list_all response_ok xs"
  shows "list_all response_ok ys \<and> learn_all (rev ys) c = learn (learn_all (rev xs) c) r"
  using assms
proof (induction xs arbitrary: ys)
  case (Cons x xs)
  from Cons.prems(1) obtain m where m: "mergeWith r x = Ok m" by auto
  show ?case
  proof (cases m)
    case (Some y)
    with m Cons.prems learn_mergeWith [of r x y "learn_all (rev xs) c"] show ?thesis by auto
  next
    case None
    with m Cons.prems(1) obtain zs where zs: "merge_scan r xs = Ok (Some zs)" "ys = x # zs" and skip: "canSkip r x"
      by (auto split: if_splits)
    have "learn_all (rev zs) c = learn (learn_all (rev xs) c) r" and "list_all response_ok zs"
      using Cons.IH [OF zs(1)] Cons.prems by auto
    then show ?thesis
      using zs(2) learn_canSkip [of r x "learn_all (rev xs) c"] m None skip Cons.prems(3) by simp
  qed
qed simp

lemma learn_appendOrMergeResponse:
  assumes "appendOrMergeResponse input r = Ok rs" and "response_ok r" and "list_all response_ok input"
  shows "list_all response_ok rs \<and> learn_all rs c = learn (learn_all input c) r"
proof (cases "mergeableResponse r")
  case True
  with assms(1) obtain o' where o': "merge_scan r (rev input) = Ok o'"
    and rs: "rs = (case o' of Some ys \<Rightarrow> rev ys | None \<Rightarrow> input @ [r])"
    by (auto simp: appendOrMergeResponse_def split: option.splits)
  show ?thesis
  proof (cases o')
    case (Some ys)
    then show ?thesis using learn_merge_scan [of r "rev input" ys c] o' rs assms(2,3) by simp
  qed (use rs assms(2,3) in simp)
qed (use assms in \<open>auto simp: appendOrMergeResponse_def\<close>)

lemma learn_merge_loop:
  "merge_loop merged rs = Ok rs' \<Longrightarrow> list_all response_ok merged \<Longrightarrow> list_all response_ok rs \<Longrightarrow>
     learn_all rs' c = learn_all rs (learn_all merged c)"
proof (induction rs arbitrary: merged)
  case (Cons r rs)
  then obtain m where m: "appendOrMergeResponse merged r = Ok m" "merge_loop m rs = Ok rs'" by auto
  from learn_appendOrMergeResponse [OF m(1)] Cons.prems
  have "list_all response_ok m" "learn_all m c = learn (learn_all merged c) r" by auto
  with Cons.IH [OF m(2)] Cons.prems show ?case by simp
qed simp

section \<open>When merging panics\<close>

text \<open>
  The count of the last EXISTS before a position, when only RECENT and FETCH responses come in
  between; the list is from the newest response to the oldest. The same for RECENT.
\<close>

fun last_exists :: "Response list \<Rightarrow> SeqID option" where
  "last_exists (resp_exists k # xs) = Some k"
| "last_exists (resp_recent k # xs) = last_exists xs"
| "last_exists (resp_fetch k items # xs) = last_exists xs"
| "last_exists xs = None"

fun last_recent :: "Response list \<Rightarrow> uint32 option" where
  "last_recent (resp_recent k # xs) = Some k"
| "last_recent (resp_exists k # xs) = last_recent xs"
| "last_recent (resp_fetch k items # xs) = last_recent xs"
| "last_recent xs = None"

text \<open>A response follows others when its count is not below the count it would be merged with.\<close>

fun follows :: "Response list \<Rightarrow> Response \<Rightarrow> bool" where
  "follows xs (resp_exists n) = (case last_exists xs of None \<Rightarrow> True | Some k \<Rightarrow> k \<le> n)"
| "follows xs (resp_recent n) = (case last_recent xs of None \<Rightarrow> True | Some k \<Rightarrow> k \<le> n)"
| "follows xs r = True"

fun monotone_counts :: "Response list \<Rightarrow> Response list \<Rightarrow> bool" where
  "monotone_counts xs [] = True"
| "monotone_counts xs (r # rs) = (follows xs r \<and> monotone_counts (r # xs) rs)"

lemma merge_scan_exists:
  "merge_scan (resp_exists n) xs =
     (case last_exists xs of
        None \<Rightarrow> Ok None
      | Some k \<Rightarrow> if k > n then Panic ''consecutive exists must be non-decreasing''
                 else Ok (Some (takeWhile (\<lambda>x. \<not> (\<exists>k. x = resp_exists k)) xs @ resp_exists n
                        # tl (dropWhile (\<lambda>x. \<not> (\<exists>k. x = resp_exists k)) xs))))"
  by (induction xs rule: last_exists.induct)
    (auto simp: exists_mergeWith_def exists_canSkip_def split: option.splits)

lemma merge_scan_recent:
  "merge_scan (resp_recent n) xs =
     (case last_recent xs of
        None \<Rightarrow> Ok None
      | Some k \<Rightarrow> if k > n then Panic ''consecutive recents must be non-decreasing''
                 else Ok (Some (takeWhile (\<lambda>x. \<not> (\<exists>k. x = resp_recent k)) xs @ resp_recent n
                        # tl (dropWhile (\<lambda>x. \<not> (\<exists>k. x = resp_recent k)) xs))))"
  by (induction xs rule: last_recent.induct)
    (auto simp: recent_mergeWith_def recent_canSkip_def split: option.splits)

lemma merge_scan_fetch: "\<exists>o'. merge_scan (resp_fetch n items) xs = Ok o'"
  by (induction xs) (auto simp: fetch_mergeWith_def split: Response.splits)

text \<open>Merging keeps the counts that later responses are compared with.\<close>

lemma merge_scan_last:
  assumes "merge_scan r xs = Ok (Some ys)"
  shows "last_exists ys = last_exists (r # xs) \<and> last_recent ys = last_recent (r # xs)"
  using assms
proof (induction xs arbitrary: ys)
  case (Cons x xs)
  from Cons.prems obtain m where m: "mergeWith r x = Ok m" by auto
  show ?case
  proof (cases m)
    case (Some y)
    with m Cons.prems show ?thesis
      by (cases r; cases x)
        (auto simp: exists_mergeWith_def recent_mergeWith_def fetch_mergeWith_def split: if_splits)
  next
    case None
    with m Cons.prems obtain zs where zs: "merge_scan r xs = Ok (Some zs)" "ys = x # zs" and skip: "canSkip r x"
      by (auto split: if_splits)
    from Cons.IH [OF zs(1)] zs(2) skip m None show ?thesis
      by (cases r; cases x)
        (auto simp: exists_mergeWith_def recent_mergeWith_def fetch_mergeWith_def exists_canSkip_def
          recent_canSkip_def fetch_canSkip_def split: if_splits)
  qed
qed simp

lemma appendOrMergeResponse_total:
  "panics (appendOrMergeResponse input r) \<longleftrightarrow> \<not> follows (rev input) r"
proof (cases r)
  case (resp_fetch n items)
  obtain o' where "merge_scan r (rev input) = Ok o'" using merge_scan_fetch resp_fetch by blast
  with resp_fetch show ?thesis by (auto simp: appendOrMergeResponse_def split: option.splits)
qed (auto simp: appendOrMergeResponse_def merge_scan_exists merge_scan_recent not_le split: option.splits)

lemma appendOrMergeResponse_not_Err: "appendOrMergeResponse input r \<noteq> Err e"
proof (cases r)
  case (resp_fetch n items)
  obtain o' where "merge_scan r (rev input) = Ok o'" using merge_scan_fetch resp_fetch by blast
  with resp_fetch show ?thesis by (auto simp: appendOrMergeResponse_def split: option.splits)
qed (auto simp: appendOrMergeResponse_def merge_scan_exists merge_scan_recent split: option.splits)

lemma appendOrMergeResponse_last:
  assumes "appendOrMergeResponse input r = Ok rs"
  shows "last_exists (rev rs) = last_exists (r # rev input) \<and> last_recent (rev rs) = last_recent (r # rev input)"
  using assms merge_scan_last [of r "rev input"]
  by (auto simp: appendOrMergeResponse_def split: if_splits option.splits)

lemma follows_cong:
  "last_exists xs = last_exists ys \<Longrightarrow> last_recent xs = last_recent ys \<Longrightarrow> follows xs r = follows ys r"
  by (cases r) auto

lemma last_Cons_cong:
  "last_exists xs = last_exists ys \<Longrightarrow> last_recent xs = last_recent ys \<Longrightarrow>
     last_exists (r # xs) = last_exists (r # ys) \<and> last_recent (r # xs) = last_recent (r # ys)"
  by (cases r) auto

lemma merge_loop_panics:
  "last_exists (rev merged) = last_exists xs \<Longrightarrow> last_recent (rev merged) = last_recent xs \<Longrightarrow>
     panics (merge_loop merged rs) \<longleftrightarrow> \<not> monotone_counts xs rs"
proof (induction rs arbitrary: merged xs)
  case (Cons r rs)
  show ?case
  proof (cases "appendOrMergeResponse merged r")
    case (Ok m)
    then have "follows (rev merged) r" using appendOrMergeResponse_total [of merged r] by simp
    then have f: "follows xs r" using follows_cong [OF Cons.prems] by simp
    have "last_exists (rev m) = last_exists (r # xs)" "last_recent (rev m) = last_recent (r # xs)"
      using appendOrMergeResponse_last [OF Ok] last_Cons_cong [OF Cons.prems, of r] by simp_all
    from Cons.IH [OF this] show ?thesis using Ok f by simp
  next
    case (Panic p)
    then have "\<not> follows (rev merged) r" using appendOrMergeResponse_total [of merged r] by simp
    with Panic show ?thesis using follows_cong [OF Cons.prems] by simp
  qed (simp add: appendOrMergeResponse_not_Err)
qed simp

lemma Merge_panics: "panics (Merge rs) \<longleftrightarrow> \<not> monotone_counts [] rs"
proof (cases "length rs < 2")
  case True
  then obtain r where "rs = [] \<or> rs = [r]" by (cases rs) auto
  then show ?thesis by (cases r) (auto simp: Merge_def)
next
  case False
  then show ?thesis using merge_loop_panics [of "[]" "[]" rs] by (simp add: Merge_def)
qed

section \<open>Properties of merging\<close>

lemma Merge_not_Err: "Merge rs \<noteq> Err e"
proof -
  have "merge_loop merged rs \<noteq> Err e" for merged rs
  proof (induction rs arbitrary: merged)
    case (Cons r rs)
    then show ?case using appendOrMergeResponse_not_Err by (cases "appendOrMergeResponse merged r") auto
  qed simp
  then show ?thesis by (simp add: Merge_def)
qed

lemma Merge_learn:
  assumes "Merge rs = Ok rs'" and "list_all response_ok rs"
  shows "learn_all rs' c = learn_all rs c"
proof (cases "length rs < 2")
  case False
  with assms(1) have "merge_loop [] rs = Ok rs'" by (simp add: Merge_def)
  from learn_merge_loop [OF this _ assms(2), of c] show ?thesis by simp
qed (use assms in \<open>simp add: Merge_def\<close>)

lemma Merge_cases: "(\<exists>rs'. Merge rs = Ok rs') \<or> panics (Merge rs)"
  using Merge_not_Err [of rs "()"] by (cases "Merge rs") auto

text \<open>
  C7: Merging does not change what a client learns. A client that receives the merged responses ends
  in the same state as one that receives all of them: the same counts, the same flags, UID and items
  of every message, after the same renumbering by EXPUNGE responses.
\<close>

theorem Merge_preserves_client:
  assumes "Merge rs = Ok rs'" and "list_all response_ok rs"
  shows "learn_all rs' c = learn_all rs c"
  using assms by (rule Merge_learn)

text \<open>Flags and a count arrive while flags of the same message are pending.\<close>

definition sample_responses :: "Response list" where
  "sample_responses = [resp_fetch 1 [itemFlags (NewFlagSet [FlagSeen])], resp_exists 3, resp_fetch 1 [itemFlags (NewFlagSet []), itemUID 9]]"

theorem Merge_preserves_client_witness:
  "learn_all [resp_fetch 1 [itemFlags [], itemUID 9], resp_exists 3]
     \<lparr>c_count = 2, c_recent = 0, c_msgs = (\<lambda>_. \<lparr>k_flags = None, k_uid = None, k_items = []\<rparr>), c_log = []\<rparr> =
   learn_all sample_responses
     \<lparr>c_count = 2, c_recent = 0, c_msgs = (\<lambda>_. \<lparr>k_flags = None, k_uid = None, k_items = []\<rparr>), c_log = []\<rparr>"
proof (rule Merge_preserves_client)
  show "Merge sample_responses = Ok [resp_fetch 1 [itemFlags [], itemUID 9], resp_exists 3]" by code_simp
  show "list_all response_ok sample_responses" by (simp add: sample_responses_def items_ok_def flagset_ok_NewFlagSet)
qed

text \<open>
  C37: Merging panics exactly when the count of an EXISTS or a RECENT response is below the count of
  the one before it and only EXISTS, RECENT and FETCH responses come in between.
\<close>

theorem Merge_panics_iff: "panics (Merge rs) \<longleftrightarrow> \<not> monotone_counts [] rs"
  by (rule Merge_panics)

end
