(* ===== verification/State_Responders.thy ===== *)
theory State_Responders
  imports State_Snapshot Response_Merge
begin

text \<open>
  Responders: the pending changes to a snapshot, which turn into responses when they are handled
  (\<open>internal/state/responders.go\<close>). Handling a responder returns its result and the snapshot, which
  the source changes in place. The context of a CLOSE command is the flag \<open>isClose\<close>.
\<close>

section \<open>Data\<close>

type_synonym StateID = goint

record exists =
  ex_messageID :: MessageIDPair
  ex_messageUID :: UID
  ex_flags :: FlagSet

record targetedExists =
  te_resp :: exists
  te_targetStateID :: StateID
  te_originStateID :: StateID
  te_originStateSet :: bool

datatype fetchFlagOp = FetchFlagOpAdd | FetchFlagOpRem | FetchFlagOpSet

record fetch =
  fe_messageID :: InternalMessageID
  fe_flags :: FlagSet
  fe_fetchFlagOp :: fetchFlagOp
  fe_asUID :: bool
  fe_asSilent :: bool
  fe_cameFromDifferentMailbox :: bool

datatype Responder =
    Res_targetedExists targetedExists
  | Res_expunge InternalMessageID
  | Res_fetch fetch

text \<open>The update of the database that clears the Recent flag of a message in a mailbox.\<close>

record clearRecentFlagRespUpdate =
  cr_messageID :: InternalMessageID
  cr_mboxID :: InternalMailboxID

type_synonym handled = "(state_error, Response list \<times> clearRecentFlagRespUpdate option) outcome \<times> snapshot"

section \<open>Handling\<close>

fun getMessageID :: "Responder \<Rightarrow> InternalMessageID" where
  "getMessageID (Res_targetedExists u) = InternalID (ex_messageID (te_resp u))"
| "getMessageID (Res_expunge i) = i"
| "getMessageID (Res_fetch u) = fe_messageID u"

text \<open>The flags a message arrives with: only the target state sees Recent.\<close>

definition arriving_flags :: "StateID \<Rightarrow> targetedExists \<Rightarrow> FlagSet" where
  "arriving_flags stateID u =
     (if te_targetStateID u \<noteq> stateID then Remove (ex_flags (te_resp u)) [FlagRecent] else ex_flags (te_resp u))"

definition targetedExists_handle :: "snapshot \<Rightarrow> StateID \<Rightarrow> targetedExists \<Rightarrow> handled" where
  "targetedExists_handle snap stateID u =
     (let ex = te_resp u; i = ex_messageID ex in
      if hasMessage (InternalID i) snap then (Ok ([], None), snap)
      else
        (let flags = arriving_flags stateID u;
             added = (if te_originStateSet u \<and> te_originStateID u = stateID
                      then appendMessage i (ex_messageUID ex) flags snap
                      else appendMessageFromOtherState i (ex_messageUID ex) flags snap)
         in case added of
              Err e \<Rightarrow> (Err e, snap)
            | Panic p \<Rightarrow> (Panic p, snap)
            | Ok snap' \<Rightarrow>
                (let res = [resp_exists (of_nat (snap_len snap'))];
                     recent = getMessagesWithFlagCount FlagRecent snap'
                 in if recent > 0 then
                      (let dbUpdate =
                         (if ContainsUnchecked flags FlagRecentLowerCase
                          then Some \<lparr>cr_messageID = InternalID i, cr_mboxID = mp_InternalID (mboxID snap')\<rparr>
                          else None)
                       in (Ok (res @ [resp_recent (of_nat recent)], dbUpdate), snap'))
                    else (Ok (res, None), snap'))))"

definition expunge_handle :: "bool \<Rightarrow> snapshot \<Rightarrow> InternalMessageID \<Rightarrow> handled" where
  "expunge_handle isClose snap i =
     (if \<not> hasMessage i snap then (Ok ([], None), snap)
      else case getMessageSeq i snap of
        Err e \<Rightarrow> (Err e, snap)
      | Panic p \<Rightarrow> (Panic p, snap)
      | Ok seq \<Rightarrow>
          (case expungeMessage i snap of
             Err e \<Rightarrow> (Err e, snap)
           | Panic p \<Rightarrow> (Panic p, snap)
           | Ok snap' \<Rightarrow> (Ok (if isClose then [] else [resp_expunge seq], None), snap')))"

text \<open>The flags a FETCH responder gives a message that has the flags \<open>curFlags\<close>.\<close>

definition new_flags :: "fetch \<Rightarrow> FlagSet \<Rightarrow> FlagSet" where
  "new_flags u curFlags =
     (let newMessageFlags =
        (case fe_fetchFlagOp u of
           FetchFlagOpAdd \<Rightarrow> AddFlagSet curFlags (fe_flags u)
         | FetchFlagOpRem \<Rightarrow> RemoveFlagSet curFlags (fe_flags u)
         | FetchFlagOpSet \<Rightarrow> Clone (fe_flags u))
      in if fe_cameFromDifferentMailbox u
         then SetOnSelf newMessageFlags FlagDeleted (ContainsUnchecked curFlags FlagDeletedLowerCase)
         else newMessageFlags)"

text \<open>What is sent after the flags have been set.\<close>

definition fetch_responses ::
    "fetch \<Rightarrow> FlagSet \<Rightarrow> FlagSet \<Rightarrow> snapshot \<Rightarrow> (state_error, Response list) outcome" where
  "fetch_responses u curFlags newFlags snap =
     (if FlagSet_Equals curFlags newFlags then Ok []
      else if fe_asSilent u then Ok []
      else
        bind_outcome
          (if fe_asUID u
           then bind_outcome (getMessageUID (fe_messageID u) snap) (\<lambda>uid. Ok [itemFlags newFlags, itemUID uid])
           else Ok [itemFlags newFlags])
          (\<lambda>items. bind_outcome (getMessageSeq (fe_messageID u) snap) (\<lambda>seq. Ok [resp_fetch seq items])))"

definition fetch_handle :: "snapshot \<Rightarrow> fetch \<Rightarrow> handled" where
  "fetch_handle snap u =
     (let i = fe_messageID u in
      if \<not> hasMessage i snap then (Ok ([], None), snap)
      else case getMessageFlags i snap of
        Err e \<Rightarrow> (Err e, snap)
      | Panic p \<Rightarrow> (Panic p, snap)
      | Ok curFlags \<Rightarrow>
          (case setMessageFlags i (new_flags u curFlags) snap of
             Err e \<Rightarrow> (Err e, snap)
           | Panic p \<Rightarrow> (Panic p, snap)
           | Ok snap' \<Rightarrow>
               (case getMessageFlags i snap' of
                  Err e \<Rightarrow> (Err e, snap')
                | Panic p \<Rightarrow> (Panic p, snap')
                | Ok newFlags \<Rightarrow>
                    (bind_outcome (fetch_responses u curFlags newFlags snap') (\<lambda>res. Ok (res, None)), snap'))))"

fun handle :: "bool \<Rightarrow> StateID \<Rightarrow> snapshot \<Rightarrow> Responder \<Rightarrow> handled" where
  "handle isClose stateID snap (Res_targetedExists u) = targetedExists_handle snap stateID u"
| "handle isClose stateID snap (Res_expunge i) = expunge_handle isClose snap i"
| "handle isClose stateID snap (Res_fetch u) = fetch_handle snap u"

text \<open>
  Handling responders one after the other: the responses and the database updates, until the first
  error or panic.
\<close>

fun handle_all ::
    "bool \<Rightarrow> StateID \<Rightarrow> snapshot \<Rightarrow> Responder list \<Rightarrow>
       (state_error, Response list \<times> clearRecentFlagRespUpdate list) outcome \<times> snapshot" where
  "handle_all isClose stateID snap [] = (Ok ([], []), snap)"
| "handle_all isClose stateID snap (r # rs) =
     (case handle isClose stateID snap r of
        (Err e, snap') \<Rightarrow> (Err e, snap')
      | (Panic p, snap') \<Rightarrow> (Panic p, snap')
      | (Ok (res, upd), snap') \<Rightarrow>
          (case handle_all isClose stateID snap' rs of
             (Ok (ress, upds), snap'') \<Rightarrow>
               (Ok (res @ ress, (case upd of None \<Rightarrow> [] | Some u \<Rightarrow> [u]) @ upds), snap'')
           | (Err e, snap'') \<Rightarrow> (Err e, snap'')
           | (Panic p, snap'') \<Rightarrow> (Panic p, snap'')))"

section \<open>What handling does to the messages\<close>

text \<open>A responder whose flag set is proper.\<close>

fun responder_ok :: "Responder \<Rightarrow> bool" where
  "responder_ok (Res_targetedExists u) = flagset_ok (ex_flags (te_resp u))"
| "responder_ok (Res_expunge i) = True"
| "responder_ok (Res_fetch u) = flagset_ok (fe_flags u)"

text \<open>The change of the message list that a responder stands for.\<close>

fun spec_handle :: "StateID \<Rightarrow> Responder \<Rightarrow> snapMsg list \<Rightarrow> snapMsg list" where
  "spec_handle stateID (Res_targetedExists u) ms =
     (let i = ex_messageID (te_resp u) in
      if spec_has (InternalID i) ms then ms
      else spec_add (newSnapMsg i (ex_messageUID (te_resp u)) (arriving_flags stateID u)) ms)"
| "spec_handle stateID (Res_expunge i) ms = spec_remove i ms"
| "spec_handle stateID (Res_fetch u) ms =
     spec_update (fe_messageID u) (\<lambda>m. set_flags (new_flags u (sm_flags m)) m) ms"

lemma flagset_ok_arriving: "flagset_ok (ex_flags (te_resp u)) \<Longrightarrow> flagset_ok (arriving_flags stateID u)"
  unfolding arriving_flags_def Remove_def by (simp add: flagset_ok_remove flagset_ok_Clone del: flags_remove.simps)

lemma flagset_ok_new_flags: "flagset_ok (new_flags u cur)"
  unfolding new_flags_def Let_def AddFlagSet_def RemoveFlagSet_def Add_def Remove_def SetOnSelf_def AddToSelf_def
    RemoveFromSelf_def
  by (simp add: flagset_ok_add flagset_ok_remove flagset_ok_Clone del: flags_add.simps flags_remove.simps
      split: fetchFlagOp.splits)

text \<open>Appending a message with the highest UID is the sorted insertion.\<close>

lemma spec_add_last:
  assumes "sorted_wrt (<) (map sm_UID ms)" and "ms = [] \<or> sm_UID (last ms) < sm_UID m"
  shows "spec_add m ms = ms @ [m]"
proof -
  have "\<forall>x \<in> set ms. sm_UID x < sm_UID m"
  proof (cases ms rule: rev_cases)
    case (snoc ys y)
    then show ?thesis using assms by (auto simp: sorted_wrt_append)
  qed simp
  then have "filter (\<lambda>x. sm_UID x < sm_UID m) ms = ms" "filter (\<lambda>x. \<not> sm_UID x < sm_UID m) ms = []"
    by (simp_all add: filter_id_conv filter_empty_conv)
  then show ?thesis by (simp add: spec_add_def)
qed

abbreviation recent_count :: "snapMsg list \<Rightarrow> nat" where
  "recent_count ms \<equiv> length (filter (\<lambda>m. ContainsUnchecked (sm_flags m) FlagRecentLowerCase) ms)"

lemma recent_count_view: "getMessagesWithFlagCount FlagRecent snap = recent_count (snap_view snap)"
proof -
  have "ToLower FlagRecent = FlagRecentLowerCase" by simp
  then show ?thesis
    using arg_cong [OF with_flag_view(1) [of snap FlagRecent], of length] by (simp only: flag_count_view length_map)
qed

text \<open>The responses to a new message, given the messages after it was added.\<close>

definition arrival_responses :: "snapMsg list \<Rightarrow> Response list" where
  "arrival_responses ms =
     resp_exists (of_nat (length ms)) # (if recent_count ms > 0 then [resp_recent (of_nat (recent_count ms))] else [])"

lemma targetedExists_handle_spec:
  assumes "snapshot_ok snap" and "flagset_ok (ex_flags (te_resp u))"
  defines "i \<equiv> InternalID (ex_messageID (te_resp u))"
  shows "case targetedExists_handle snap stateID u of
      (Ok (res, upd), snap') \<Rightarrow> snapshot_ok snap' \<and> mboxID snap' = mboxID snap
        \<and> snap_view snap' = spec_handle stateID (Res_targetedExists u) (snap_view snap)
        \<and> res = (if spec_has i (snap_view snap) then [] else arrival_responses (snap_view snap'))
    | (_, snap') \<Rightarrow> snap' = snap \<and> \<not> spec_has i (snap_view snap)
        \<and> (\<exists>m \<in> set (snap_view snap). ex_messageUID (te_resp u) \<le> sm_UID m)"
proof (cases "hasMessage i snap")
  case True
  then show ?thesis using assms(1) hasMessage_view [OF assms(1), of i]
    by (simp add: targetedExists_handle_def i_def Let_def)
next
  case False
  let ?uid = "ex_messageUID (te_resp u)" and ?fl = "arriving_flags stateID u" and ?p = "ex_messageID (te_resp u)"
  note new = False [unfolded i_def]
  have fl: "flagset_ok ?fl" using assms(2) by (rule flagset_ok_arriving)
  have no: "\<not> spec_has i (snap_view snap)" using False hasMessage_view [OF assms(1)] by simp
  have app: "spec_add (newSnapMsg ?p ?uid ?fl) (snap_view snap) = snap_view snap @ [newSnapMsg ?p ?uid ?fl]"
    if "appendMessage ?p ?uid ?fl snap = Ok snap'" for snap'
  proof (rule spec_add_last)
    show "sorted_wrt (<) (map sm_UID (snap_view snap))" using snap_ok_sorted [OF assms(1)] by (simp add: list_uids_view)
    show "snap_view snap = [] \<or> sm_UID (last (snap_view snap)) < sm_UID (newSnapMsg ?p ?uid ?fl)"
      using that by (cases "ml_msg (messages snap) = []")
        (auto simp: appendMessage_def list_insert_eq newSnapMsg_def view_def last_map split: if_splits)
  qed
  have last: "snap_view snap \<noteq> [] \<Longrightarrow> last (snap_view snap) \<in> set (snap_view snap)" by simp
  show ?thesis
    using appendMessage_refines [OF assms(1) new fl, of ?uid]
      appendMessageFromOtherState_refines [OF assms(1) new fl, of ?uid] new no app last
    by (auto simp: targetedExists_handle_def Let_def i_def arrival_responses_def recent_count_view snap_len_def list_len_def
        split: outcome.splits)
qed

lemma expunge_handle_spec:
  assumes "snapshot_ok snap"
  shows "\<exists>snap'. expunge_handle isClose snap i =
      (Ok (if spec_has i (snap_view snap) \<and> \<not> isClose
           then [resp_expunge (of_nat (spec_pos i (snap_view snap) + 1))] else [], None), snap')
    \<and> snapshot_ok snap' \<and> mboxID snap' = mboxID snap \<and> snap_view snap' = spec_remove i (snap_view snap)"
proof (cases "spec_has i (snap_view snap)")
  case True
  with expungeMessage_refines [OF assms, of i] obtain snap' where
    "expungeMessage i snap = Ok snap'" "snapshot_ok snap'" "mboxID snap' = mboxID snap"
    "snap_view snap' = spec_remove i (snap_view snap)"
    by (cases "expungeMessage i snap") auto
  then show ?thesis using True by (simp add: expunge_handle_def hasMessage_view [OF assms] getMessage_view [OF assms])
next
  case False
  then have "spec_remove i (snap_view snap) = snap_view snap"
    by (auto simp: spec_remove_def spec_has_def filter_id_conv)
  then show ?thesis using False assms by (simp add: expunge_handle_def hasMessage_view [OF assms])
qed

text \<open>The response to new flags of a message.\<close>

definition flag_responses :: "fetch \<Rightarrow> snapMsg \<Rightarrow> nat \<Rightarrow> Response list" where
  "flag_responses u m k =
     (let fl = sm_flags (set_flags (new_flags u (sm_flags m)) m) in
      if FlagSet_Equals (sm_flags m) fl \<or> fe_asSilent u then []
      else [resp_fetch (of_nat (k + 1)) (itemFlags fl # (if fe_asUID u then [itemUID (sm_UID m)] else []))])"

lemma spec_find_update:
  assumes "spec_find i ms = Some m" and "\<And>m. int_id (f m) = int_id m"
  shows "spec_find i (spec_update i f ms) = Some (f m)"
  using assms(1) by (induction ms) (auto simp: spec_find_def spec_update_def assms(2) split: if_splits)

lemma spec_pos_update: "(\<And>m. int_id (f m) = int_id m) \<Longrightarrow> spec_pos i (spec_update j f ms) = spec_pos i ms"
  by (induction ms) (auto simp: spec_update_def)

lemma spec_has_update: "(\<And>m. int_id (f m) = int_id m) \<Longrightarrow> spec_has i (spec_update j f ms) = spec_has i ms"
  by (auto simp: spec_update_def spec_has_def)

lemma spec_update_cong:
  "(\<And>m. m \<in> set ms \<Longrightarrow> int_id m = i \<Longrightarrow> f m = g m) \<Longrightarrow> spec_update i f ms = spec_update i g ms"
  by (auto simp: spec_update_def)

lemma ids_distinct: "snap_ok l \<Longrightarrow> distinct (map int_id (view l))"
  using msgs_distinct [of l] int_id_inj [of l] by (auto simp: view_def distinct_map o_def inj_on_def)

lemma spec_find_unique:
  "distinct (map int_id ms) \<Longrightarrow> spec_find i ms = Some m \<Longrightarrow> m' \<in> set ms \<Longrightarrow> int_id m' = i \<Longrightarrow> m' = m"
  by (induction ms) (auto simp: spec_find_def image_iff split: if_splits)

lemma fetch_handle_spec:
  assumes "snapshot_ok snap"
  shows "\<exists>snap'. fetch_handle snap u =
      (Ok (case spec_find (fe_messageID u) (snap_view snap) of
             None \<Rightarrow> [] | Some m \<Rightarrow> flag_responses u m (spec_pos (fe_messageID u) (snap_view snap)), None), snap')
    \<and> snapshot_ok snap' \<and> mboxID snap' = mboxID snap
    \<and> snap_view snap' = spec_handle stateID (Res_fetch u) (snap_view snap)"
proof (cases "spec_find (fe_messageID u) (snap_view snap)")
  case None
  then have no: "\<not> spec_has (fe_messageID u) (snap_view snap)" by (auto simp: spec_find_pos split: if_splits)
  then have "spec_handle stateID (Res_fetch u) (snap_view snap) = snap_view snap"
    by (auto simp: spec_has_def intro!: spec_update_id)
  then show ?thesis using None no assms by (simp add: fetch_handle_def Let_def hasMessage_view [OF assms])
next
  case (Some m)
  let ?i = "fe_messageID u" and ?fl = "new_flags u (sm_flags m)"
  have has: "spec_has ?i (snap_view snap)" using Some by (auto simp: spec_find_pos split: if_splits)
  obtain snap' where set: "setMessageFlags ?i ?fl snap = Ok snap'" and ok: "snapshot_ok snap'"
    and mb: "mboxID snap' = mboxID snap" and vw: "snap_view snap' = spec_update ?i (set_flags ?fl) (snap_view snap)"
    using setMessageFlags_refines [OF assms flagset_ok_new_flags, of ?i u "sm_flags m"] has
    by (cases "setMessageFlags ?i ?fl snap") auto
  have find: "spec_find ?i (snap_view snap') = Some (set_flags ?fl m)"
    unfolding vw by (rule spec_find_update [OF Some]) simp
  have pos: "spec_pos ?i (snap_view snap') = spec_pos ?i (snap_view snap)" "spec_has ?i (snap_view snap')"
    unfolding vw using has by (simp_all add: spec_pos_update spec_has_update)
  have res: "fetch_responses u (sm_flags m) (sm_flags (set_flags ?fl m)) snap' =
      Ok (flag_responses u m (spec_pos ?i (snap_view snap)))"
    by (simp add: fetch_responses_def flag_responses_def Let_def getMessage_view [OF ok] find pos)
  have "spec_handle stateID (Res_fetch u) (snap_view snap) = snap_view snap'"
    unfolding vw spec_handle.simps
    using spec_find_unique [OF ids_distinct [OF assms] Some] by (intro spec_update_cong) auto
  moreover have "fetch_handle snap u = (Ok (flag_responses u m (spec_pos ?i (snap_view snap)), None), snap')"
    using has Some find set res
    by (simp add: fetch_handle_def Let_def hasMessage_view [OF assms] getMessage_view [OF assms] getMessage_view [OF ok])
  ultimately show ?thesis using Some ok mb by simp
qed

text \<open>
  Every responder keeps the invariant and changes the messages the way it stands for. Only a new
  message whose UID is not above all others can fail, and then nothing changes.
\<close>

fun in_order :: "Responder \<Rightarrow> snapMsg list \<Rightarrow> bool" where
  "in_order (Res_targetedExists u) ms =
     (spec_has (InternalID (ex_messageID (te_resp u))) ms \<or> (\<forall>m \<in> set ms. sm_UID m < ex_messageUID (te_resp u)))"
| "in_order r ms = True"

text \<open>The responses of a responder, given the messages before and after.\<close>

fun spec_responses :: "bool \<Rightarrow> StateID \<Rightarrow> Responder \<Rightarrow> snapMsg list \<Rightarrow> Response list" where
  "spec_responses isClose stateID (Res_targetedExists u) ms =
     (if spec_has (InternalID (ex_messageID (te_resp u))) ms then []
      else arrival_responses (spec_handle stateID (Res_targetedExists u) ms))"
| "spec_responses isClose stateID (Res_expunge i) ms =
     (if spec_has i ms \<and> \<not> isClose then [resp_expunge (of_nat (spec_pos i ms + 1))] else [])"
| "spec_responses isClose stateID (Res_fetch u) ms =
     (case spec_find (fe_messageID u) ms of
        None \<Rightarrow> [] | Some m \<Rightarrow> flag_responses u m (spec_pos (fe_messageID u) ms))"

lemma handle_refines:
  assumes "snapshot_ok snap" and "responder_ok r"
  shows "case handle isClose stateID snap r of
      (Ok (res, upd), snap') \<Rightarrow> snapshot_ok snap' \<and> mboxID snap' = mboxID snap
        \<and> snap_view snap' = spec_handle stateID r (snap_view snap)
        \<and> res = spec_responses isClose stateID r (snap_view snap)
    | (_, snap') \<Rightarrow> snap' = snap \<and> \<not> in_order r (snap_view snap)"
proof (cases r)
  case (Res_targetedExists u)
  obtain out snap' where h: "targetedExists_handle snap stateID u = (out, snap')" by fastforce
  with targetedExists_handle_spec [OF assms(1), of u stateID] assms(2) Res_targetedExists show ?thesis
    by (cases out) (auto simp: not_less)
next
  case (Res_expunge i)
  then show ?thesis using expunge_handle_spec [OF assms(1), of isClose i] by auto
next
  case (Res_fetch u)
  then show ?thesis using fetch_handle_spec [OF assms(1), of u stateID] by auto
qed

lemma handle_in_order:
  assumes "snapshot_ok snap" and "responder_ok r" and "in_order r (snap_view snap)"
  shows "\<exists>upd snap'. handle isClose stateID snap r = (Ok (spec_responses isClose stateID r (snap_view snap), upd), snap')
    \<and> snapshot_ok snap' \<and> mboxID snap' = mboxID snap \<and> snap_view snap' = spec_handle stateID r (snap_view snap)"
  using handle_refines [OF assms(1,2), where isClose = isClose and stateID = stateID] assms(3)
  by (auto split: prod.splits outcome.splits)

text \<open>A queue of responders that arrive in order, and what handling it does.\<close>

fun all_in_order :: "StateID \<Rightarrow> Responder list \<Rightarrow> snapMsg list \<Rightarrow> bool" where
  "all_in_order stateID [] ms = True"
| "all_in_order stateID (r # rs) ms = (in_order r ms \<and> all_in_order stateID rs (spec_handle stateID r ms))"

fun spec_run :: "bool \<Rightarrow> StateID \<Rightarrow> Responder list \<Rightarrow> snapMsg list \<Rightarrow> Response list \<times> snapMsg list" where
  "spec_run isClose stateID [] ms = ([], ms)"
| "spec_run isClose stateID (r # rs) ms =
     (let (res, ms') = spec_run isClose stateID rs (spec_handle stateID r ms)
      in (spec_responses isClose stateID r ms @ res, ms'))"

lemma handle_all_refines:
  assumes "snapshot_ok snap" and "list_all responder_ok rs" and "all_in_order stateID rs (snap_view snap)"
  shows "\<exists>upds snap'. handle_all isClose stateID snap rs = (Ok (fst (spec_run isClose stateID rs (snap_view snap)), upds), snap')
    \<and> snapshot_ok snap' \<and> mboxID snap' = mboxID snap \<and> snap_view snap' = snd (spec_run isClose stateID rs (snap_view snap))"
  using assms
proof (induction rs arbitrary: snap)
  case (Cons r rs)
  then obtain upd snap1 where h: "handle isClose stateID snap r = (Ok (spec_responses isClose stateID r (snap_view snap), upd), snap1)"
    and 1: "snapshot_ok snap1" "mboxID snap1 = mboxID snap" "snap_view snap1 = spec_handle stateID r (snap_view snap)"
    using handle_in_order [of snap r isClose stateID] by auto
  from Cons.IH [OF 1(1)] Cons.prems 1(3) obtain upds snap2 where
    "handle_all isClose stateID snap1 rs = (Ok (fst (spec_run isClose stateID rs (snap_view snap1)), upds), snap2)"
    "snapshot_ok snap2" "mboxID snap2 = mboxID snap1"
    "snap_view snap2 = snd (spec_run isClose stateID rs (snap_view snap1))" by auto
  then show ?case using h 1 by (simp add: case_prod_beta Let_def)
qed simp

end
