(* ===== verification/State_Client.thy ===== *)
theory State_Client
  imports State_Responders
begin

text \<open>
  What a client knows while responders are handled: the message numbers it uses stay those of the
  snapshot, and the flags and UIDs it has learned stay the current ones.
\<close>

section \<open>A client in step with a mailbox\<close>

text \<open>The message with a sequence number, if there is one.\<close>

definition msg_no :: "snapMsg list \<Rightarrow> SeqID \<Rightarrow> snapMsg option" where
  "msg_no ms n = (if 0 < unat n \<and> unat n \<le> length ms then Some (ms ! (unat n - 1)) else None)"

text \<open>What a client knows of a message is true; it knows nothing of messages that are not there.\<close>

definition agrees :: "known_msg \<Rightarrow> snapMsg option \<Rightarrow> bool" where
  "agrees k mo =
     (case mo of
        None \<Rightarrow> k_flags k = None \<and> k_uid k = None
      | Some m \<Rightarrow> (\<forall>f. k_flags k = Some f \<longrightarrow> dom f = flag_keys (sm_flags m)) \<and> (\<forall>u. k_uid k = Some u \<longrightarrow> u = sm_UID m))"

definition in_sync :: "client \<Rightarrow> snapMsg list \<Rightarrow> bool" where
  "in_sync c ms \<longleftrightarrow> length ms < 2 ^ 32 \<and> c_count c = of_nat (length ms) \<and> (\<forall>n. agrees (c_msgs c n) (msg_no ms n))"

lemma agrees_unknown [simp]: "k_flags k = None \<Longrightarrow> k_uid k = None \<Longrightarrow> agrees k mo"
  by (simp add: agrees_def split: option.splits)

lemma in_sync_msg: "in_sync c ms \<Longrightarrow> agrees (c_msgs c n) (msg_no ms n)"
  by (simp add: in_sync_def)

lemma unat_of_nat32: "n < 2 ^ 32 \<Longrightarrow> unat (of_nat n :: uint32) = n"
  by (simp add: unsigned_of_nat take_bit_nat_eq_self)

text \<open>A new message at the end.\<close>

lemma sync_append:
  assumes "in_sync c ms" and "length ms + 1 < 2 ^ 32"
  shows "in_sync (c\<lparr>c_count := of_nat (length ms + 1), c_recent := r\<rparr>) (ms @ [m])"
proof -
  have "agrees (c_msgs c n) (msg_no (ms @ [m]) n)" for n
  proof (cases "unat n = length ms + 1")
    case True
    then have "msg_no ms n = None" by (simp add: msg_no_def)
    with in_sync_msg [OF assms(1), of n] show ?thesis by (simp add: agrees_def [of _ None])
  next
    case False
    then have "msg_no (ms @ [m]) n = msg_no ms n" by (auto simp: msg_no_def nth_append)
    with in_sync_msg [OF assms(1), of n] show ?thesis by simp
  qed
  then show ?thesis using assms(2) by (simp add: in_sync_def)
qed

text \<open>A message removed.\<close>

lemma msg_no_remove:
  assumes "k < length ms" and "length ms < 2 ^ 32"
  shows "msg_no (take k ms @ drop (Suc k) ms) n = msg_no ms (if n < of_nat (k + 1) then n else n + 1)"
proof -
  have k: "unat (of_nat (k + 1) :: uint32) = k + 1" using assms by (intro unat_of_nat32) simp
  show ?thesis
  proof (cases "n < of_nat (k + 1)")
    case True
    then have "unat n \<le> k" using k by (simp add: word_less_nat_alt del: of_nat_Suc of_nat_add)
    then show ?thesis using True assms(1) by (auto simp: msg_no_def nth_append)
  next
    case False
    then have n: "k + 1 \<le> unat n" using k by (simp add: word_less_nat_alt not_less del: of_nat_Suc of_nat_add)
    show ?thesis
    proof (cases "unat n + 1 < 2 ^ 32")
      case True
      then have "unat (n + 1) = unat n + 1" by (simp add: unat_word_ariths)
      then show ?thesis using False n assms(1) by (auto simp: msg_no_def nth_append min_def)
    next
      case big: False
      have "unat n < 2 ^ 32" using unsigned_less [of n] by simp
      with big have "unat n + 1 = 2 ^ 32" by simp
      then have "(of_nat (unat n + 1) :: uint32) = of_nat (2 ^ 32)" by (simp only:)
      then have "n + 1 = 0" by simp
      then show ?thesis using False n big assms by (simp add: msg_no_def)
    qed
  qed
qed

lemma sync_remove:
  assumes "in_sync c ms" and "k < length ms"
  shows "in_sync (learn c (resp_expunge (of_nat (k + 1)))) (take k ms @ drop (Suc k) ms)"
proof -
  have len: "length ms < 2 ^ 32" and count: "c_count c = of_nat (length ms)" using assms(1) by (simp_all add: in_sync_def)
  have "(of_nat (length ms) :: uint32) - 1 = of_nat (length ms - 1)" using assms(2) by (simp add: of_nat_diff)
  moreover have "length (take k ms @ drop (Suc k) ms) = length ms - 1" using assms(2) by simp
  moreover have "agrees (if n < of_nat (k + 1) then c_msgs c n else c_msgs c (n + 1))
      (msg_no (take k ms @ drop (Suc k) ms) n)" for n
    using in_sync_msg [OF assms(1), of n] in_sync_msg [OF assms(1), of "n + 1"]
    unfolding msg_no_remove [OF assms(2) len] by simp
  ultimately show ?thesis using len count unfolding in_sync_def by (simp del: of_nat_add of_nat_Suc)
qed

text \<open>New flags of a message.\<close>

lemma msg_no_update:
  assumes "k < length ms" and "length ms < 2 ^ 32"
  shows "msg_no (ms[k := m]) n = (if n = of_nat (k + 1) then Some m else msg_no ms n)"
proof -
  have k: "unat (of_nat (k + 1) :: uint32) = k + 1" using assms by (intro unat_of_nat32) simp
  have "n = of_nat (k + 1) \<longleftrightarrow> unat n = k + 1" using k by (metis word_unat_eq_iff)
  then show ?thesis using assms(1) by (auto simp: msg_no_def nth_list_update)
qed

lemma sync_update:
  assumes "in_sync c ms" and "k < length ms" and "sm_UID m = sm_UID (ms ! k)"
    and "agrees (c_msgs c (of_nat (k + 1))) (Some m)"
  shows "in_sync c (ms[k := m])"
  using assms in_sync_msg [OF assms(1)] msg_no_update [OF assms(2), of m]
  by (simp add: in_sync_def del: of_nat_add of_nat_Suc)

lemma agrees_learn_flags:
  assumes "agrees k (Some m)" and "sm_UID m' = sm_UID m"
  shows "agrees (foldl learn_item k (itemFlags (sm_flags m') # (if b then [itemUID (sm_UID m)] else []))) (Some m')"
  using assms by (auto simp: agrees_def dom_map_of_conv_image_fst flag_keys_def)

lemma msg_no_pos: "k < length ms \<Longrightarrow> length ms < 2 ^ 32 \<Longrightarrow> msg_no ms (of_nat (k + 1)) = Some (ms ! k)"
  using unat_of_nat32 [of "k + 1"] by (simp add: msg_no_def del: of_nat_add of_nat_Suc)

lemma sync_fetch:
  assumes "in_sync c ms" and "k < length ms" and "sm_UID m = sm_UID (ms ! k)"
  shows "in_sync (learn c (resp_fetch (of_nat (k + 1)) (itemFlags (sm_flags m) # (if b then [itemUID (sm_UID (ms ! k))] else []))))
    (ms[k := m])"
proof -
  have len: "length ms < 2 ^ 32" using assms(1) by (simp add: in_sync_def)
  let ?s = "of_nat (k + 1) :: SeqID"
  let ?k = "foldl learn_item (c_msgs c ?s) (itemFlags (sm_flags m) # (if b then [itemUID (sm_UID (ms ! k))] else []))"
  have "agrees (c_msgs c ?s) (Some (ms ! k))"
    using in_sync_msg [OF assms(1), of ?s] unfolding msg_no_pos [OF assms(2) len] .
  from agrees_learn_flags [OF this assms(3), of b] have "agrees ?k (Some m)" .
  then show ?thesis
    using assms(1) in_sync_msg [OF assms(1)] len unfolding in_sync_def learn.simps msg_no_update [OF assms(2) len]
    by (cases b) (simp_all del: of_nat_add of_nat_Suc foldl_Cons)
qed

section \<open>Handling responders keeps a client in step\<close>

text \<open>What the invariant says of the list of messages.\<close>

definition msgs_ok :: "snapMsg list \<Rightarrow> bool" where
  "msgs_ok ms \<longleftrightarrow> distinct (map int_id ms) \<and> sorted_wrt (<) (map sm_UID ms) \<and> list_all msg_ok ms"

lemma msgs_ok_view: "snapshot_ok snap \<Longrightarrow> msgs_ok (snap_view snap)"
  using ids_distinct [of "messages snap"] snap_ok_sorted [of "messages snap"]
  by (auto simp: msgs_ok_def list_uids_view list_all_iff view_def snap_ok_def)

lemma spec_remove_pos:
  "distinct (map int_id ms) \<Longrightarrow> spec_has i ms \<Longrightarrow>
     spec_remove i ms = take (spec_pos i ms) ms @ drop (Suc (spec_pos i ms)) ms"
proof (induction ms)
  case (Cons m ms)
  show ?case
  proof (cases "int_id m = i")
    case True
    then have "\<forall>x \<in> set ms. int_id x \<noteq> i" using Cons.prems by (auto simp: image_iff)
    then have "filter (\<lambda>x. int_id x \<noteq> i) ms = ms" by (simp add: filter_id_conv)
    then show ?thesis using True by (simp add: spec_remove_def)
  next
    case False
    then show ?thesis using Cons by (simp add: spec_remove_def spec_has_def)
  qed
qed (simp add: spec_has_def)

lemma spec_update_pos:
  "distinct (map int_id ms) \<Longrightarrow> spec_has i ms \<Longrightarrow>
     spec_update i f ms = ms[spec_pos i ms := f (ms ! spec_pos i ms)]"
proof (induction ms)
  case (Cons m ms)
  show ?case
  proof (cases "int_id m = i")
    case True
    then have "\<forall>x \<in> set ms. int_id x \<noteq> i" using Cons.prems by (auto simp: image_iff)
    then have "spec_update i f ms = ms" by (intro spec_update_id) auto
    then show ?thesis using True by (simp add: spec_update_def)
  next
    case False
    then show ?thesis using Cons by (simp add: spec_update_def spec_has_def)
  qed
qed (simp add: spec_has_def)

text \<open>A STORE with SILENT leaves the client to work out the new flags itself.\<close>

fun loud :: "Responder \<Rightarrow> bool" where
  "loud (Res_fetch u) = (\<not> fe_asSilent u)"
| "loud r = True"

lemma spec_add_above: "\<forall>x \<in> set ms. sm_UID x < sm_UID m \<Longrightarrow> spec_add m ms = ms @ [m]"
  by (simp add: spec_add_def filter_id_conv filter_empty_conv)

lemma sync_handle:
  assumes "msgs_ok ms" and "in_sync c ms" and "in_order r ms" and "loud r" and "length ms + 1 < 2 ^ 32"
  shows "in_sync (learn_all (spec_responses False stateID r ms) c) (spec_handle stateID r ms)"
proof (cases r)
  case (Res_targetedExists u)
  let ?i = "ex_messageID (te_resp u)" and ?m = "newSnapMsg (ex_messageID (te_resp u)) (ex_messageUID (te_resp u)) (arriving_flags stateID u)"
  show ?thesis
  proof (cases "spec_has (InternalID ?i) ms")
    case True
    then show ?thesis using assms(2) Res_targetedExists by (simp add: Let_def)
  next
    case False
    then have add: "spec_add ?m ms = ms @ [?m]"
      using assms(3) by (intro spec_add_above) (simp add: Res_targetedExists newSnapMsg_def)
    show ?thesis
      using False Res_targetedExists sync_append [OF assms(2,5), of "if recent_count (ms @ [?m]) > 0
          then of_nat (recent_count (ms @ [?m])) else c_recent c" ?m]
      by (simp add: Let_def add arrival_responses_def split: if_splits)
  qed
next
  case (Res_expunge i)
  then show ?thesis
  proof (cases "spec_has i ms")
    case True
    then show ?thesis using Res_expunge sync_remove [OF assms(2), of "spec_pos i ms"] spec_pos_less [OF True] assms(1)
      by (simp add: spec_remove_pos msgs_ok_def)
  next
    case False
    then have "spec_remove i ms = ms" by (auto simp: spec_remove_def spec_has_def filter_id_conv)
    then show ?thesis using Res_expunge False assms(2) by simp
  qed
next
  case (Res_fetch u)
  show ?thesis
  proof (cases "spec_has (fe_messageID u) ms")
    case True
    let ?k = "spec_pos (fe_messageID u) ms"
    let ?m = "ms ! ?k"
    let ?m' = "set_flags (new_flags u (sm_flags ?m)) ?m"
    have k: "?k < length ms" using spec_pos_less [OF True] by simp
    have upd: "spec_handle stateID r ms = ms[?k := ?m']"
      using assms(1) True by (simp add: Res_fetch spec_update_pos msgs_ok_def)
    have find: "spec_find (fe_messageID u) ms = Some ?m" using True by (simp add: spec_find_pos)
    have ok: "flagset_ok (sm_flags ?m)" "flagset_ok (sm_flags ?m')"
      using assms(1) k msg_ok_set_flags [OF flagset_ok_new_flags]
      by (auto simp: msgs_ok_def list_all_length msg_ok_def)
    show ?thesis
    proof (cases "FlagSet_Equals (sm_flags ?m) (sm_flags ?m')")
      case True
      then have "flag_keys (sm_flags ?m) = flag_keys (sm_flags ?m')" using FlagSet_Equals_keys [OF ok] by simp
      moreover have "agrees (c_msgs c (of_nat (?k + 1))) (Some ?m)"
        using in_sync_msg [OF assms(2), of "of_nat (?k + 1)"] msg_no_pos [OF k] assms(2) by (simp add: in_sync_def)
      ultimately have "agrees (c_msgs c (of_nat (?k + 1))) (Some ?m')" by (simp add: agrees_def)
      from sync_update [OF assms(2) k _ this] show ?thesis
        using True by (simp add: upd) (simp add: Res_fetch find flag_responses_def Let_def)
    next
      case False
      then show ?thesis using sync_fetch [OF assms(2) k, of ?m' "fe_asUID u"] assms(4)
        by (simp add: upd) (simp add: Res_fetch find flag_responses_def Let_def)
    qed
  next
    case False
    then have "spec_handle stateID r ms = ms" "spec_responses False stateID r ms = []"
      by (auto simp: Res_fetch spec_has_def spec_find_pos intro!: spec_update_id)
    then show ?thesis using assms(2) by simp
  qed
qed

section \<open>The responses can be merged\<close>

lemma spec_responses_ok:
  assumes "list_all msg_ok ms" shows "list_all response_ok (spec_responses isClose stateID r ms)"
proof (cases r)
  case (Res_fetch u)
  have "flagset_ok (sm_flags (set_flags (new_flags u (sm_flags m)) m))" for m
    using msg_ok_set_flags [OF flagset_ok_new_flags] by (simp add: msg_ok_def)
  then show ?thesis
    by (auto simp: Res_fetch flag_responses_def Let_def items_ok_def split: option.splits)
qed (auto simp: arrival_responses_def Let_def)

lemma msgs_ok_handle:
  assumes "msgs_ok ms" and "responder_ok r" and "in_order r ms"
  shows "msgs_ok (spec_handle stateID r ms)"
proof (cases r)
  case (Res_targetedExists u)
  let ?m = "newSnapMsg (ex_messageID (te_resp u)) (ex_messageUID (te_resp u)) (arriving_flags stateID u)"
  show ?thesis
  proof (cases "spec_has (InternalID (ex_messageID (te_resp u))) ms")
    case False
    then have below: "\<forall>x \<in> set ms. sm_UID x < sm_UID ?m" and new: "\<forall>x \<in> set ms. int_id x \<noteq> int_id ?m"
      using assms(3) by (auto simp: Res_targetedExists newSnapMsg_def spec_has_def)
    have "spec_add ?m ms = ms @ [?m]" by (rule spec_add_above [OF below])
    moreover have "msg_ok ?m"
      using assms(2) by (simp add: msg_ok_def newSnapMsg_def flagset_ok_arriving Res_targetedExists)
    ultimately show ?thesis using False assms(1) below new
      by (auto simp: Res_targetedExists Let_def msgs_ok_def sorted_wrt_append)
  qed (use assms in \<open>simp add: Res_targetedExists Let_def\<close>)
next
  case (Res_expunge i)
  then show ?thesis using assms(1)
    by (auto simp: msgs_ok_def spec_remove_def list_all_iff distinct_map_filter sorted_wrt_map sorted_wrt_filter)
next
  case (Res_fetch u)
  let ?f = "\<lambda>m. set_flags (new_flags u (sm_flags m)) m"
  have "map int_id (spec_update i ?f ms) = map int_id ms" "map sm_UID (spec_update i ?f ms) = map sm_UID ms" for i
    by (simp_all add: spec_update_def)
  moreover have "msg_ok (?f m)" for m by (rule msg_ok_set_flags [OF flagset_ok_new_flags])
  then have "list_all msg_ok ms \<Longrightarrow> list_all msg_ok (spec_update i ?f ms)" for i
    by (auto simp: list_all_iff spec_update_def)
  ultimately show ?thesis using assms(1) by (simp add: Res_fetch msgs_ok_def)
qed

text \<open>The counts sent so far do not exceed the counts of the mailbox.\<close>

definition counts_below :: "Response list \<Rightarrow> snapMsg list \<Rightarrow> bool" where
  "counts_below xs ms \<longleftrightarrow> (\<forall>k. last_exists xs = Some k \<longrightarrow> unat k \<le> length ms)
     \<and> (\<forall>k. last_recent xs = Some k \<longrightarrow> unat k \<le> recent_count ms)"

lemma monotone_counts_append:
  "monotone_counts xs (rs @ rs') \<longleftrightarrow> monotone_counts xs rs \<and> monotone_counts (rev rs @ xs) rs'"
  by (induction rs arbitrary: xs) auto

lemma le_of_nat32: "unat k \<le> n \<Longrightarrow> n < 2 ^ 32 \<Longrightarrow> (k :: uint32) \<le> of_nat n"
  by (simp add: word_le_nat_alt unat_of_nat32)

lemma recent_count_update: "recent_count ms \<le> recent_count (spec_update i (\<lambda>m. set_flags (fl m) m) ms)"
proof (induction ms)
  case (Cons m ms)
  have "ContainsUnchecked (sm_flags m) FlagRecentLowerCase \<Longrightarrow>
      ContainsUnchecked (sm_flags (set_flags (fl m) m)) FlagRecentLowerCase"
    by (simp add: set_flags_def Let_def Add_def ContainsUnchecked_keys)
  then show ?case using Cons by (auto simp: spec_update_def)
qed (simp add: spec_update_def)

lemma recent_count_le: "recent_count ms \<le> length ms"
  by (rule length_filter_le)

lemma counts_below_mono:
  "counts_below xs ms \<Longrightarrow> length ms \<le> length ms' \<Longrightarrow> recent_count ms \<le> recent_count ms' \<Longrightarrow> counts_below xs ms'"
  by (force simp: counts_below_def)

lemma arrival_monotone:
  assumes "counts_below xs ms" and "length ms < 2 ^ 32"
  shows "monotone_counts xs (arrival_responses ms) \<and> counts_below (rev (arrival_responses ms) @ xs) ms"
proof -
  have r: "recent_count ms < 2 ^ 32" using recent_count_le [of ms] assms(2) by (rule le_less_trans)
  then show ?thesis using assms
    by (auto simp: arrival_responses_def counts_below_def le_of_nat32 unat_of_nat32 split: option.splits)
qed

lemma handle_monotone:
  fixes stateID :: StateID
  assumes "counts_below xs ms" and "in_order r ms" and "msgs_ok ms" and "length ms + 1 < 2 ^ 32"
  defines "res \<equiv> spec_responses False stateID r ms"
  shows "monotone_counts xs res \<and> counts_below (rev res @ xs) (spec_handle stateID r ms)
    \<and> length (spec_handle stateID r ms) \<le> length ms + 1"
proof (cases r)
  case (Res_targetedExists u)
  let ?m = "newSnapMsg (ex_messageID (te_resp u)) (ex_messageUID (te_resp u)) (arriving_flags stateID u)"
  show ?thesis
  proof (cases "spec_has (InternalID (ex_messageID (te_resp u))) ms")
    case False
    then have "spec_add ?m ms = ms @ [?m]"
      using assms(2) by (intro spec_add_above) (simp add: Res_targetedExists newSnapMsg_def)
    moreover have "counts_below xs (ms @ [?m])" by (rule counts_below_mono [OF assms(1)]) simp_all
    ultimately show ?thesis
      using False arrival_monotone [of xs "ms @ [?m]"] assms(4) by (simp add: res_def Res_targetedExists Let_def)
  qed (use assms(1) in \<open>simp add: res_def Res_targetedExists Let_def\<close>)
next
  case (Res_expunge i)
  show ?thesis
  proof (cases "spec_has i ms")
    case True
    then show ?thesis by (simp add: res_def Res_expunge counts_below_def spec_remove_def le_SucI)
  next
    case False
    then have "spec_remove i ms = ms" by (auto simp: spec_remove_def spec_has_def filter_id_conv)
    then show ?thesis using False assms(1) by (simp add: res_def Res_expunge)
  qed
next
  case (Res_fetch u)
  have len: "length (spec_handle stateID r ms) = length ms" by (simp add: Res_fetch spec_update_def)
  have "counts_below xs (spec_handle stateID r ms)"
    by (rule counts_below_mono [OF assms(1)]) (simp_all add: len, simp add: Res_fetch recent_count_update)
  moreover have "last_exists (rev res @ xs) = last_exists xs" "last_recent (rev res @ xs) = last_recent xs"
    "monotone_counts xs res"
    by (auto simp: res_def Res_fetch flag_responses_def Let_def split: option.splits)
  ultimately show ?thesis using len by (simp add: counts_below_def)
qed

text \<open>All of a queue.\<close>

lemma spec_run_sync:
  assumes "msgs_ok ms" and "in_sync c ms" and "list_all responder_ok rs" and "all_in_order stateID rs ms"
    and "list_all loud rs" and "length ms + length rs < 2 ^ 32" and "counts_below xs ms"
  shows "in_sync (learn_all (fst (spec_run False stateID rs ms)) c) (snd (spec_run False stateID rs ms))
    \<and> list_all response_ok (fst (spec_run False stateID rs ms))
    \<and> monotone_counts xs (fst (spec_run False stateID rs ms))"
  using assms
proof (induction rs arbitrary: ms c xs)
  case (Cons r rs)
  let ?ms = "spec_handle stateID r ms" and ?res = "spec_responses False stateID r ms"
  have ord: "in_order r ms" and len: "length ms + 1 < 2 ^ 32" and loud: "loud r" using Cons.prems by simp_all
  note mono = handle_monotone [OF Cons.prems(7) ord Cons.prems(1) len, of stateID]
  have "msgs_ok ?ms" using Cons.prems msgs_ok_handle [OF Cons.prems(1) _ ord] by simp
  moreover have "in_sync (learn_all ?res c) ?ms" by (rule sync_handle [OF Cons.prems(1,2) ord loud len])
  moreover have "length ?ms + length rs < 2 ^ 32" using mono Cons.prems(6) by simp
  ultimately have "in_sync (learn_all (fst (spec_run False stateID rs ?ms)) (learn_all ?res c)) (snd (spec_run False stateID rs ?ms))
      \<and> list_all response_ok (fst (spec_run False stateID rs ?ms))
      \<and> monotone_counts (rev ?res @ xs) (fst (spec_run False stateID rs ?ms))"
    using Cons.prems mono by (intro Cons.IH) simp_all
  moreover have "list_all response_ok ?res" using Cons.prems(1) by (intro spec_responses_ok) (simp add: msgs_ok_def)
  ultimately show ?case using mono by (simp add: Let_def case_prod_beta monotone_counts_append)
qed simp

section \<open>Properties of responders\<close>

definition unknown_msg :: known_msg where
  "unknown_msg = \<lparr>k_flags = None, k_uid = None, k_items = []\<rparr>"

text \<open>A client that has been told the number of messages only.\<close>

definition new_client :: "nat \<Rightarrow> client" where
  "new_client n = \<lparr>c_count = of_nat n, c_recent = 0, c_msgs = (\<lambda>_. unknown_msg), c_log = []\<rparr>"

lemma in_sync_new_client: "length ms < 2 ^ 32 \<Longrightarrow> in_sync (new_client (length ms)) ms"
  by (simp add: in_sync_def new_client_def unknown_msg_def)

lemma handle_all_in_step:
  assumes "snapshot_ok snap" and "list_all responder_ok rs" and "all_in_order stateID rs (snap_view snap)"
    and "list_all loud rs" and "in_sync c (snap_view snap)" and "snap_len snap + length rs < 2 ^ 32"
  shows "\<exists>res upds snap' merged. handle_all False stateID snap rs = (Ok (res, upds), snap')
    \<and> snapshot_ok snap' \<and> Merge res = Ok merged \<and> in_sync (learn_all merged c) (snap_view snap')"
proof -
  let ?run = "spec_run False stateID rs (snap_view snap)"
  obtain upds snap' where h: "handle_all False stateID snap rs = (Ok (fst ?run, upds), snap')"
    and ok: "snapshot_ok snap'" and vw: "snap_view snap' = snd ?run"
    using handle_all_refines [OF assms(1-3), of False] by blast
  have "counts_below [] (snap_view snap)" by (simp add: counts_below_def)
  with spec_run_sync [OF msgs_ok_view [OF assms(1)] assms(5,2,3,4), of "[]"] assms(6)
  have sync: "in_sync (learn_all (fst ?run) c) (snd ?run)" "list_all response_ok (fst ?run)" "monotone_counts [] (fst ?run)"
    by (simp_all add: snap_len_def list_len_def)
  from sync(3) have "\<not> panics (Merge (fst ?run))" by (simp add: Merge_panics)
  then obtain merged where "Merge (fst ?run) = Ok merged" using Merge_cases by blast
  with h ok vw sync(1) Merge_learn [OF this sync(2), of c] show ?thesis by auto
qed

definition sample_exists :: "nat \<Rightarrow> UID \<Rightarrow> Responder" where
  "sample_exists n uid = Res_targetedExists \<lparr>te_resp =
     \<lparr>ex_messageID = sample_pair n, ex_messageUID = uid, ex_flags = []\<rparr>,
      te_targetStateID = 1, te_originStateID = 0, te_originStateSet = False\<rparr>"

lemma sample_snapshot_ok: "snapshot_ok sample_snapshot"
  by (simp add: sample_snapshot_def sample_list_ok)

lemma sample_view:
  "snap_view sample_snapshot = [newSnapMsg (sample_pair 1) 3 [], newSnapMsg (sample_pair 2) 7 []]"
  by (simp add: sample_snapshot_def sample_list_def view_def place_def newMsgList_def)

lemma in_sync_learn_uid:
  assumes "in_sync c ms" and "msg_no ms n = Some m"
  shows "in_sync (learn c (resp_fetch n [itemUID (sm_UID m)])) ms"
proof -
  have "agrees (learn_item (c_msgs c n) (itemUID (sm_UID m))) (msg_no ms n)"
    using in_sync_msg [OF assms(1), of n] assms(2) by (simp add: agrees_def)
  then show ?thesis using assms(1) by (simp add: in_sync_def)
qed

lemma sample_in_sync: "in_sync (new_client 2) (snap_view sample_snapshot)"
proof -
  have "length (snap_view sample_snapshot) = 2" unfolding sample_view by simp
  then show ?thesis using in_sync_new_client [of "snap_view sample_snapshot"] by (simp del: length_view)
qed



end
