(* ===== verification/State_Queue.thy ===== *)
theory State_Queue
  imports State_Client
begin

text \<open>
  The state of a session and its queue of responders (\<open>internal/state/state.go\<close>), the filters and the
  state updates that other sessions and the connector send it (\<open>filters.go\<close>, \<open>updates.go\<close>,
  \<open>updates_remote.go\<close>, the rest of \<open>responders.go\<close>). Operations return their result and the new
  state. The database transaction that applies updates of the Recent flag is an argument that returns
  its error, if any. Responses that are sent to the channel of an IDLE command are returned in order.
\<close>

section \<open>Data\<close>

record State =
  st_StateID :: StateID
  st_idle :: bool
  st_res :: "Responder list"
  st_snap :: "snapshot option"
  st_ro :: bool
  st_invalid :: bool

text \<open>What the context of a command tells: a UID command, a silent STORE, a CLOSE.\<close>

record cmd_ctx =
  IsUID :: bool
  IsSilent :: bool
  IsClose :: bool

section \<open>The queue\<close>

definition queueResponder :: "Responder list \<Rightarrow> State \<Rightarrow> State" where
  "queueResponder responder st = st\<lparr>st_res := st_res st @ responder\<rparr>"

text \<open>
  One step of the loop of \<open>popResponders\<close> without permission to expunge: what is popped, what
  remains, and the IDs that have a pending expunge.
\<close>

fun pop_step ::
    "Responder \<Rightarrow> Responder list \<times> Responder list \<times> InternalMessageID list \<Rightarrow>
       Responder list \<times> Responder list \<times> InternalMessageID list" where
  "pop_step (Res_expunge i) (pop, rem, skipIDs) = (pop, rem @ [Res_expunge i], List.insert i skipIDs)"
| "pop_step (Res_targetedExists u) (pop, rem, skipIDs) =
     (let i = getMessageID (Res_targetedExists u) in
      if i \<in> set skipIDs then (pop, rem @ [Res_targetedExists u], removeAll i skipIDs)
      else (pop @ [Res_targetedExists u], rem, skipIDs))"
| "pop_step (Res_fetch u) (pop, rem, skipIDs) = (pop @ [Res_fetch u], rem, skipIDs)"

definition popResponders :: "bool \<Rightarrow> State \<Rightarrow> Responder list \<times> State" where
  "popResponders permitExpunge st =
     (if st_res st = [] then ([], st)
      else if permitExpunge then (st_res st, st\<lparr>st_res := []\<rparr>)
      else (let (pop, rem, _) = fold pop_step (st_res st) ([], [], []) in (pop, st\<lparr>st_res := rem\<rparr>)))"

text \<open>Handling responders on a state without a snapshot dereferences a nil pointer.\<close>

definition handle_on ::
    "cmd_ctx \<Rightarrow> State \<Rightarrow> Responder list \<Rightarrow>
       (state_error, Response list \<times> clearRecentFlagRespUpdate list) outcome \<times> State" where
  "handle_on ctx st rs =
     (case st_snap st of
        None \<Rightarrow> (if rs = [] then Ok ([], []) else Panic ''nil pointer dereference'', st)
      | Some snap \<Rightarrow>
          (let (out, snap') = handle_all (IsClose ctx) (st_StateID st) snap rs
           in (out, st\<lparr>st_snap := Some snap'\<rparr>)))"

fun lift_merge :: "(unit, Response list) outcome \<Rightarrow> (state_error, Response list) outcome" where
  "lift_merge (Ok rs) = Ok rs"
| "lift_merge (Err e) = Err (ErrOther [])"
| "lift_merge (Panic p) = Panic p"

definition flushResponses ::
    "state_error option \<Rightarrow> (clearRecentFlagRespUpdate list \<Rightarrow> state_error option) \<Rightarrow>
       cmd_ctx \<Rightarrow> bool \<Rightarrow> State \<Rightarrow> (state_error, Response list) outcome \<times> State" where
  "flushResponses ctxErr dbWrite ctx permitExpunge st =
     (case ctxErr of
        Some e \<Rightarrow> (Err e, st)
      | None \<Rightarrow>
          (let (pop, st1) = popResponders permitExpunge st; (out, st2) = handle_on ctx st1 pop in
           case out of
             Err e \<Rightarrow> (Err e, st2)
           | Panic p \<Rightarrow> (Panic p, st2)
           | Ok (responses, dbUpdates) \<Rightarrow>
               (case dbWrite dbUpdates of
                  Some e \<Rightarrow> (Err e, st2)
                | None \<Rightarrow> (lift_merge (Merge responses), st2))))"

text \<open>
  While the client idles, a responder is handled at once; its database update is applied in the
  transaction of the caller, and its responses go to the channel.
\<close>

fun push_idle ::
    "(clearRecentFlagRespUpdate \<Rightarrow> state_error option) \<Rightarrow> cmd_ctx \<Rightarrow> Responder list \<Rightarrow> State \<Rightarrow>
       (state_error, unit) outcome \<times> Response list \<times> State" where
  "push_idle dbApply ctx [] st = (Ok (), [], st)"
| "push_idle dbApply ctx (r # rs) st =
     (case st_snap st of
        None \<Rightarrow> (Panic ''nil pointer dereference'', [], st)
      | Some snap \<Rightarrow>
          (case handle (IsClose ctx) (st_StateID st) snap r of
             (Err e, snap') \<Rightarrow> (Err e, [], st\<lparr>st_snap := Some snap'\<rparr>)
           | (Panic p, snap') \<Rightarrow> (Panic p, [], st\<lparr>st_snap := Some snap'\<rparr>)
           | (Ok (res, upd), snap') \<Rightarrow>
               (case (case upd of None \<Rightarrow> None | Some u \<Rightarrow> dbApply u) of
                  Some e \<Rightarrow> (Err e, [], st\<lparr>st_snap := Some snap'\<rparr>)
                | None \<Rightarrow>
                    (let (out, sent, st') = push_idle dbApply ctx rs (st\<lparr>st_snap := Some snap'\<rparr>)
                     in (out, res @ sent, st')))))"

definition PushResponder ::
    "(clearRecentFlagRespUpdate \<Rightarrow> state_error option) \<Rightarrow> cmd_ctx \<Rightarrow> Responder list \<Rightarrow> State \<Rightarrow>
       (state_error, unit) outcome \<times> Response list \<times> State" where
  "PushResponder dbApply ctx responder st =
     (if \<not> st_idle st then (Ok (), [], queueResponder responder st) else push_idle dbApply ctx responder st)"

definition beginIdle ::
    "state_error option \<Rightarrow> (clearRecentFlagRespUpdate list \<Rightarrow> state_error option) \<Rightarrow>
       cmd_ctx \<Rightarrow> State \<Rightarrow> (state_error, Response list) outcome \<times> State" where
  "beginIdle ctxErr dbWrite ctx st =
     (let (out, st') = flushResponses ctxErr dbWrite ctx True st in
      case out of Ok res \<Rightarrow> (Ok res, st'\<lparr>st_idle := True\<rparr>) | _ \<Rightarrow> (out, st'))"

definition endIdle :: "State \<Rightarrow> State" where
  "endIdle st = st\<lparr>st_idle := False\<rparr>"

definition state_close :: "State \<Rightarrow> State" where
  "state_close st = st\<lparr>st_snap := None, st_res := []\<rparr>"

definition IsSelected :: "State \<Rightarrow> bool" where
  "IsSelected st \<longleftrightarrow> st_snap st \<noteq> None"

definition HasMessage :: "InternalMessageID \<Rightarrow> State \<Rightarrow> bool" where
  "HasMessage i st = (case st_snap st of None \<Rightarrow> False | Some snap \<Rightarrow> hasMessage i snap)"

definition ExpungeIssued :: "State \<Rightarrow> bool" where
  "ExpungeIssued st = foldl (\<lambda>issued r. case r of Res_expunge _ \<Rightarrow> True | _ \<Rightarrow> issued) False (st_res st)"

definition UpdateMailboxRemoteID ::
    "InternalMailboxID \<Rightarrow> MailboxID \<Rightarrow> State \<Rightarrow> (state_error, State) outcome" where
  "UpdateMailboxRemoteID internalID remoteID st =
     (case st_snap st of
        None \<Rightarrow> Ok st
      | Some snap \<Rightarrow>
          bind_outcome (updateMailboxRemoteID internalID remoteID snap) (\<lambda>snap'. Ok (st\<lparr>st_snap := Some snap'\<rparr>)))"

definition UpdateMessageRemoteID ::
    "InternalMessageID \<Rightarrow> MessageID \<Rightarrow> State \<Rightarrow> (state_error, State) outcome" where
  "UpdateMessageRemoteID internalID remoteID st =
     (case st_snap st of
        None \<Rightarrow> Ok st
      | Some snap \<Rightarrow>
          if hasMessage internalID snap
          then bind_outcome (updateMessageRemoteID internalID remoteID snap) (\<lambda>snap'. Ok (st\<lparr>st_snap := Some snap'\<rparr>))
          else Ok st)"

section \<open>Filters\<close>

datatype SnapFilter =
    AllStateFilter
  | MBoxIDStateFilter InternalMailboxID
  | MessageIDStateFilter InternalMessageID
  | MessageAndMBoxIDStateFilter InternalMessageID InternalMailboxID
  | AnyMessageIDStateFilter "InternalMessageID list"

fun filter_snap :: "SnapFilter \<Rightarrow> snapshot \<Rightarrow> bool" where
  "filter_snap AllStateFilter snap = True"
| "filter_snap (MBoxIDStateFilter b) snap = (mp_InternalID (mboxID snap) = b)"
| "filter_snap (MessageIDStateFilter m) snap = hasMessage m snap"
| "filter_snap (MessageAndMBoxIDStateFilter m b) snap = (mp_InternalID (mboxID snap) = b \<and> hasMessage m snap)"
| "filter_snap (AnyMessageIDStateFilter ms) snap = list_ex (\<lambda>m. hasMessage m snap) ms"

definition Filter :: "SnapFilter \<Rightarrow> State \<Rightarrow> bool" where
  "Filter f s = (case st_snap s of None \<Rightarrow> False | Some snap \<Rightarrow> filter_snap f snap)"

section \<open>State updates\<close>

text \<open>
  An update of new messages is shared by all states it is queued for: the first state that applies it
  becomes the target of the Recent flag, unless the state that caused it already is.
\<close>

record ExistsStateUpdate =
  eu_MboxID :: InternalMailboxID
  eu_responders :: "exists list"
  eu_targetStateID :: StateID
  eu_targetStateSet :: bool
  eu_originStateID :: StateID
  eu_originStateSet :: bool

definition newExistsStateUpdateWithExists ::
    "InternalMailboxID \<Rightarrow> exists list \<Rightarrow> StateID option \<Rightarrow> ExistsStateUpdate" where
  "newExistsStateUpdateWithExists mailboxID responders s =
     (let stateID = (case s of None \<Rightarrow> 0 | Some i \<Rightarrow> i); isset = (s \<noteq> None) in
      \<lparr>eu_MboxID = mailboxID, eu_responders = responders, eu_targetStateID = stateID, eu_targetStateSet = isset,
       eu_originStateID = stateID, eu_originStateSet = isset\<rparr>)"

text \<open>The critical section of \<open>Apply\<close>.\<close>

definition choose_target :: "StateID \<Rightarrow> ExistsStateUpdate \<Rightarrow> ExistsStateUpdate" where
  "choose_target stateID e =
     (if \<not> eu_targetStateSet e then e\<lparr>eu_targetStateID := stateID, eu_targetStateSet := True\<rparr> else e)"

definition exists_responders :: "ExistsStateUpdate \<Rightarrow> Responder list" where
  "exists_responders e =
     map (\<lambda>ex. Res_targetedExists \<lparr>te_resp = ex, te_targetStateID = eu_targetStateID e,
       te_originStateID = eu_originStateID e, te_originStateSet = eu_originStateSet e\<rparr>) (eu_responders e)"

definition ExistsStateUpdate_Apply ::
    "(clearRecentFlagRespUpdate \<Rightarrow> state_error option) \<Rightarrow> cmd_ctx \<Rightarrow> ExistsStateUpdate \<Rightarrow> State \<Rightarrow>
       ((state_error, unit) outcome \<times> Response list \<times> State) \<times> ExistsStateUpdate" where
  "ExistsStateUpdate_Apply dbApply ctx e s =
     (let e' = choose_target (st_StateID s) e in (PushResponder dbApply ctx (exists_responders e') s, e'))"

text \<open>The three updates of flags differ in the operation only.\<close>

record messageFlagsStateUpdate =
  mf_messageIDs :: "InternalMessageID list"
  mf_flags :: FlagSet
  mf_mboxID :: MailboxIDPair
  mf_stateID :: StateID

definition flag_responder :: "cmd_ctx \<Rightarrow> fetchFlagOp \<Rightarrow> messageFlagsStateUpdate \<Rightarrow> State \<Rightarrow> snapshot \<Rightarrow> InternalMessageID \<Rightarrow> Responder" where
  "flag_responder ctx op u s snap i =
     Res_fetch \<lparr>fe_messageID = i, fe_flags = mf_flags u, fe_fetchFlagOp = op, fe_asUID = IsUID ctx,
       fe_asSilent = (st_StateID s = mf_stateID u \<and> IsSilent ctx),
       fe_cameFromDifferentMailbox = (mboxID snap \<noteq> mf_mboxID u)\<rparr>"

fun push_flags ::
    "(clearRecentFlagRespUpdate \<Rightarrow> state_error option) \<Rightarrow> cmd_ctx \<Rightarrow> fetchFlagOp \<Rightarrow> messageFlagsStateUpdate \<Rightarrow>
       InternalMessageID list \<Rightarrow> State \<Rightarrow> (state_error, unit) outcome \<times> Response list \<times> State" where
  "push_flags dbApply ctx op u [] s = (Ok (), [], s)"
| "push_flags dbApply ctx op u (i # is) s =
     (case st_snap s of
        None \<Rightarrow> (Panic ''nil pointer dereference'', [], s)
      | Some snap \<Rightarrow>
          (case PushResponder dbApply ctx [flag_responder ctx op u s snap i] s of
             (Ok _, sent, s') \<Rightarrow>
               (let (out, sent', s'') = push_flags dbApply ctx op u is s' in (out, sent @ sent', s''))
           | (out, sent, s') \<Rightarrow> (out, sent, s')))"

datatype Update =
    responderStateUpdate SnapFilter "Responder list"
  | messageFlagsComboStateUpdate "(fetchFlagOp \<times> messageFlagsStateUpdate) list"
  | messageFlagsAddedStateUpdate messageFlagsStateUpdate
  | messageFlagsRemovedStateUpdate messageFlagsStateUpdate
  | messageFlagsSetStateUpdate messageFlagsStateUpdate
  | mailboxRemoteIDUpdateStateUpdate InternalMailboxID MailboxID
  | mailboxDeletedStateUpdate InternalMailboxID
  | uidValidityBumpedStateUpdate
  | RemoteAddMessageFlagsStateUpdate InternalMessageID string
  | RemoteRemoveMessageFlagsStateUpdate InternalMessageID string

fun update_filter :: "Update \<Rightarrow> SnapFilter" where
  "update_filter (responderStateUpdate f rs) = f"
| "update_filter (mailboxRemoteIDUpdateStateUpdate b r) = MBoxIDStateFilter b"
| "update_filter (mailboxDeletedStateUpdate b) = MBoxIDStateFilter b"
| "update_filter (RemoteAddMessageFlagsStateUpdate m fl) = MessageIDStateFilter m"
| "update_filter (RemoteRemoveMessageFlagsStateUpdate m fl) = MessageIDStateFilter m"
| "update_filter u = AllStateFilter"

text \<open>The updates of a combination are applied one after the other until the first error.\<close>

fun combo_Apply ::
    "(clearRecentFlagRespUpdate \<Rightarrow> state_error option) \<Rightarrow> cmd_ctx \<Rightarrow> (fetchFlagOp \<times> messageFlagsStateUpdate) list \<Rightarrow>
       State \<Rightarrow> (state_error, unit) outcome \<times> Response list \<times> State" where
  "combo_Apply dbApply ctx [] s = (Ok (), [], s)"
| "combo_Apply dbApply ctx ((op, u) # us) s =
     (case push_flags dbApply ctx op u (mf_messageIDs u) s of
        (Ok _, sent, s') \<Rightarrow> (let (out, sent', s'') = combo_Apply dbApply ctx us s' in (out, sent @ sent', s''))
      | (out, sent, s') \<Rightarrow> (out, sent, s'))"

definition remote_flag_responder :: "cmd_ctx \<Rightarrow> fetchFlagOp \<Rightarrow> InternalMessageID \<Rightarrow> string \<Rightarrow> Responder" where
  "remote_flag_responder ctx op m flag =
     Res_fetch \<lparr>fe_messageID = m, fe_flags = NewFlagSet [flag], fe_fetchFlagOp = op, fe_asUID = IsUID ctx,
       fe_asSilent = IsSilent ctx, fe_cameFromDifferentMailbox = False\<rparr>"

definition markInvalid :: "State \<Rightarrow> State" where
  "markInvalid s = s\<lparr>st_invalid := True\<rparr>"

fun Update_Apply ::
    "(clearRecentFlagRespUpdate \<Rightarrow> state_error option) \<Rightarrow> cmd_ctx \<Rightarrow> Update \<Rightarrow> State \<Rightarrow>
       (state_error, unit) outcome \<times> Response list \<times> State" where
  "Update_Apply dbApply ctx (responderStateUpdate f rs) s = PushResponder dbApply ctx rs s"
| "Update_Apply dbApply ctx (messageFlagsComboStateUpdate us) s = combo_Apply dbApply ctx us s"
| "Update_Apply dbApply ctx (messageFlagsAddedStateUpdate u) s = push_flags dbApply ctx FetchFlagOpAdd u (mf_messageIDs u) s"
| "Update_Apply dbApply ctx (messageFlagsRemovedStateUpdate u) s = push_flags dbApply ctx FetchFlagOpRem u (mf_messageIDs u) s"
| "Update_Apply dbApply ctx (messageFlagsSetStateUpdate u) s = push_flags dbApply ctx FetchFlagOpSet u (mf_messageIDs u) s"
| "Update_Apply dbApply ctx (mailboxRemoteIDUpdateStateUpdate b r) s =
     (case st_snap s of
        None \<Rightarrow> (Panic ''nil pointer dereference'', [], s)
      | Some snap \<Rightarrow> (Ok (), [], s\<lparr>st_snap := Some (snap\<lparr>mboxID := (mboxID snap)\<lparr>mp_RemoteID := r\<rparr>\<rparr>)\<rparr>))"
| "Update_Apply dbApply ctx (mailboxDeletedStateUpdate b) s = (Ok (), [], markInvalid s)"
| "Update_Apply dbApply ctx uidValidityBumpedStateUpdate s = (Ok (), [], markInvalid s)"
| "Update_Apply dbApply ctx (RemoteAddMessageFlagsStateUpdate m fl) s =
     PushResponder dbApply ctx [remote_flag_responder ctx FetchFlagOpAdd m fl] s"
| "Update_Apply dbApply ctx (RemoteRemoveMessageFlagsStateUpdate m fl) s =
     PushResponder dbApply ctx [remote_flag_responder ctx FetchFlagOpRem m fl] s"

text \<open>An update is applied only to the states its filter selects; the error of the transaction is passed on.\<close>

definition ApplyUpdate ::
    "(clearRecentFlagRespUpdate \<Rightarrow> state_error option) \<Rightarrow> cmd_ctx \<Rightarrow> Update \<Rightarrow> State \<Rightarrow>
       (state_error, unit) outcome \<times> Response list \<times> State" where
  "ApplyUpdate dbApply ctx u s =
     (if \<not> Filter (update_filter u) s then (Ok (), [], s) else Update_Apply dbApply ctx u s)"

definition ApplyExistsUpdate ::
    "(clearRecentFlagRespUpdate \<Rightarrow> state_error option) \<Rightarrow> cmd_ctx \<Rightarrow> ExistsStateUpdate \<Rightarrow> State \<Rightarrow>
       ((state_error, unit) outcome \<times> Response list \<times> State) \<times> ExistsStateUpdate" where
  "ApplyExistsUpdate dbApply ctx e s =
     (if \<not> Filter (MBoxIDStateFilter (eu_MboxID e)) s then ((Ok (), [], s), e) else ExistsStateUpdate_Apply dbApply ctx e s)"

section \<open>Flushing keeps the client in step\<close>

text \<open>
  C6: Flushing the queue of a state keeps the client in step with the mailbox. Whether expunges are
  permitted or not: when the popped responders bring new messages in the order of their UIDs, none
  stems from a silent STORE, the command is not CLOSE and the database accepts its updates, then the
  flush returns responses, without a panic; the snapshot keeps its invariant; and a client whose
  message numbers, flags and UIDs agreed with the snapshot before the flush agrees with it after it has
  received them.
\<close>

theorem flushResponses_in_step:
  assumes "st_snap st = Some snap" and "snapshot_ok snap" and "popResponders permitExpunge st = (pop, st1)"
    and "list_all responder_ok pop" and "list_all loud pop" and "all_in_order (st_StateID st) pop (snap_view snap)"
    and "\<not> IsClose ctx" and "\<And>us. dbWrite us = None"
    and "in_sync c (snap_view snap)" and "snap_len snap + length pop < 2 ^ 32"
  shows "\<exists>rs st' snap'. flushResponses None dbWrite ctx permitExpunge st = (Ok rs, st') \<and> st_snap st' = Some snap'
    \<and> snapshot_ok snap' \<and> in_sync (learn_all rs c) (snap_view snap') \<and> st_res st' = st_res st1"
proof -
  have st1: "st_snap st1 = Some snap" "st_StateID st1 = st_StateID st"
    using assms(1,3) by (auto simp: popResponders_def split: if_splits prod.splits)
  obtain res upds snap' merged where h: "handle_all False (st_StateID st) snap pop = (Ok (res, upds), snap')"
    and ok: "snapshot_ok snap'" and m: "Merge res = Ok merged" and sync: "in_sync (learn_all merged c) (snap_view snap')"
    using handle_all_in_step [OF assms(2,4,6,5,9,10)] by blast
  show ?thesis
    using assms(7,8) h m ok sync by (simp add: flushResponses_def assms(3) handle_on_def st1)
qed

definition sample_state :: State where
  "sample_state = \<lparr>st_StateID = 1, st_idle = False, st_res = [sample_exists 3 9, Res_expunge 1],
     st_snap = Some sample_snapshot, st_ro = False, st_invalid = False\<rparr>"

theorem flushResponses_in_step_witness:
  "\<exists>rs st' snap'. flushResponses None (\<lambda>_. None) \<lparr>IsUID = False, IsSilent = False, IsClose = False\<rparr> True sample_state = (Ok rs, st')
    \<and> st_snap st' = Some snap' \<and> snapshot_ok snap' \<and> in_sync (learn_all rs (new_client 2)) (snap_view snap')
    \<and> st_res st' = st_res (sample_state\<lparr>st_res := []\<rparr>)"
proof (rule flushResponses_in_step [where pop = "[sample_exists 3 9, Res_expunge 1]" and snap = sample_snapshot])
  show "in_sync (new_client 2) (snap_view sample_snapshot)" by (rule sample_in_sync)
  show "snapshot_ok sample_snapshot" by (rule sample_snapshot_ok)
  show "all_in_order (st_StateID sample_state) [sample_exists 3 9, Res_expunge 1] (snap_view sample_snapshot)"
    unfolding sample_view by code_simp
  show "snap_len sample_snapshot + length [sample_exists 3 9, Res_expunge 1] < 2 ^ 32"
    by (simp add: snap_len_def list_len_def sample_snapshot_def sample_list_def place_def newMsgList_def)
qed (simp_all add: sample_exists_def sample_state_def popResponders_def)

section \<open>The invariant of states\<close>

definition state_ok :: "State \<Rightarrow> bool" where
  "state_ok st \<longleftrightarrow> list_all responder_ok (st_res st) \<and> (\<forall>snap. st_snap st = Some snap \<longrightarrow> snapshot_ok snap)"

lemma state_ok_queue: "state_ok st \<Longrightarrow> list_all responder_ok rs \<Longrightarrow> state_ok (queueResponder rs st)"
  by (simp add: state_ok_def queueResponder_def)

lemma handle_snapshot_ok:
  "snapshot_ok snap \<Longrightarrow> responder_ok r \<Longrightarrow> snapshot_ok (snd (handle isClose stateID snap r))"
  using handle_refines [of snap r, where isClose = isClose and stateID = stateID]
  by (auto split: prod.splits outcome.splits)

lemma state_ok_push_idle:
  "state_ok st \<Longrightarrow> list_all responder_ok rs \<Longrightarrow> state_ok (snd (snd (push_idle dbApply ctx rs st)))"
proof (induction rs arbitrary: st)
  case (Cons r rs)
  show ?case
  proof (cases "st_snap st")
    case (Some snap)
    obtain out snap' where h: "handle (IsClose ctx) (st_StateID st) snap r = (out, snap')" by fastforce
    have "snapshot_ok snap'"
      using handle_snapshot_ok [of snap r "IsClose ctx" "st_StateID st"] h Cons.prems Some by (simp add: state_ok_def)
    then have "state_ok (st\<lparr>st_snap := Some snap'\<rparr>)" using Cons.prems(1) by (simp add: state_ok_def)
    with Cons.IH [OF this] Cons.prems(2) show ?thesis using h Some
      by (auto simp: case_prod_beta split: outcome.splits option.splits)
  qed (use Cons.prems in simp)
qed simp

lemma state_ok_Push:
  "state_ok st \<Longrightarrow> list_all responder_ok rs \<Longrightarrow> state_ok (snd (snd (PushResponder dbApply ctx rs st)))"
  by (simp add: PushResponder_def state_ok_push_idle state_ok_queue)

lemma state_ok_push_flags:
  "state_ok s \<Longrightarrow> flagset_ok (mf_flags u) \<Longrightarrow> state_ok (snd (snd (push_flags dbApply ctx op u is s)))"
proof (induction "is" arbitrary: s)
  case (Cons i "is")
  show ?case
  proof (cases "st_snap s")
    case (Some snap)
    obtain out sent s' where p: "PushResponder dbApply ctx [flag_responder ctx op u s snap i] s = (out, sent, s')"
      by (rule prod_cases3)
    have "state_ok s'"
      using state_ok_Push [OF Cons.prems(1), of "[flag_responder ctx op u s snap i]" dbApply ctx] p Cons.prems(2)
      by (simp add: flag_responder_def)
    moreover obtain out' sent' s'' where q: "push_flags dbApply ctx op u is s' = (out', sent', s'')" by (rule prod_cases3)
    moreover have "state_ok s''" using Cons.IH [OF \<open>state_ok s'\<close> Cons.prems(2)] q by simp
    ultimately show ?thesis using Some p by (cases out) simp_all
  qed (use Cons.prems in simp)
qed simp

lemma state_ok_combo:
  "state_ok s \<Longrightarrow> list_all (\<lambda>(op, u). flagset_ok (mf_flags u)) us \<Longrightarrow> state_ok (snd (snd (combo_Apply dbApply ctx us s)))"
proof (induction us arbitrary: s)
  case (Cons x us)
  obtain op u where x: "x = (op, u)" by fastforce
  obtain out sent s' where p: "push_flags dbApply ctx op u (mf_messageIDs u) s = (out, sent, s')" by (rule prod_cases3)
  have "state_ok s'"
    using state_ok_push_flags [OF Cons.prems(1), of u dbApply ctx op "mf_messageIDs u"] p Cons.prems(2) x by simp
  moreover obtain out' sent' s'' where q: "combo_Apply dbApply ctx us s' = (out', sent', s'')" by (rule prod_cases3)
  moreover have "state_ok s''" using Cons.IH [OF \<open>state_ok s'\<close>] Cons.prems(2) q by simp
  ultimately show ?case using x p by (cases out) simp_all
qed simp

fun update_ok :: "Update \<Rightarrow> bool" where
  "update_ok (responderStateUpdate f rs) = list_all responder_ok rs"
| "update_ok (messageFlagsComboStateUpdate us) = list_all (\<lambda>(op, u). flagset_ok (mf_flags u)) us"
| "update_ok (messageFlagsAddedStateUpdate u) = flagset_ok (mf_flags u)"
| "update_ok (messageFlagsRemovedStateUpdate u) = flagset_ok (mf_flags u)"
| "update_ok (messageFlagsSetStateUpdate u) = flagset_ok (mf_flags u)"
| "update_ok u = True"

lemma state_ok_Update: "state_ok s \<Longrightarrow> update_ok u \<Longrightarrow> state_ok (snd (snd (Update_Apply dbApply ctx u s)))"
proof (cases u)
  case (mailboxRemoteIDUpdateStateUpdate b r)
  assume "state_ok s"
  with mailboxRemoteIDUpdateStateUpdate show ?thesis by (simp add: state_ok_def split: option.splits)
qed (auto simp: state_ok_Push state_ok_push_flags state_ok_combo remote_flag_responder_def flagset_ok_NewFlagSet
    markInvalid_def, simp_all add: state_ok_def)

lemma Update_not_selected: "st_snap s = None \<Longrightarrow> ApplyUpdate dbApply ctx u s = (Ok (), [], s)"
  by (simp add: ApplyUpdate_def Filter_def)

end
