(* ===== verification/Go_Effects.thy ===== *)
theory Go_Effects
  imports Db_Types
begin

text \<open>
  Operations with a state: an \<open>act\<close> takes the state it works on and returns an outcome and the new
  state. An error leaves the state as it was when the error occurred; undoing the changes is up to the
  caller (a database transaction rolls back, \<open>Db_Client\<close>). The library of rules at the end carries
  the proofs that an invariant is kept and that nothing panics.
\<close>

section \<open>Operations\<close>

type_synonym ('s, 'a) act = "'s \<Rightarrow> (state_error, 'a) outcome \<times> 's"

definition ret :: "'a \<Rightarrow> ('s, 'a) act" where
  "ret x s = (Ok x, s)"

definition fail :: "state_error \<Rightarrow> ('s, 'a) act" where
  "fail e s = (Err e, s)"

definition act_panic :: "string \<Rightarrow> ('s, 'a) act" where
  "act_panic p s = (Panic p, s)"

definition act_bind :: "('s, 'a) act \<Rightarrow> ('a \<Rightarrow> ('s, 'b) act) \<Rightarrow> ('s, 'b) act" where
  "act_bind m f s =
     (case m s of (Ok x, s') \<Rightarrow> f x s' | (Err e, s') \<Rightarrow> (Err e, s') | (Panic p, s') \<Rightarrow> (Panic p, s'))"

definition act_then :: "('s, 'a) act \<Rightarrow> ('s, 'b) act \<Rightarrow> ('s, 'b) act" where
  "act_then m m' = act_bind m (\<lambda>_. m')"

text \<open>A read of the state, a change of the state, and a computation that does not use it.\<close>

definition reads :: "('s \<Rightarrow> (state_error, 'a) outcome) \<Rightarrow> ('s, 'a) act" where
  "reads f s = (f s, s)"

definition modify :: "('s \<Rightarrow> 's) \<Rightarrow> ('s, unit) act" where
  "modify g s = (Ok (), g s)"

definition lift :: "(state_error, 'a) outcome \<Rightarrow> ('s, 'a) act" where
  "lift r s = (r, s)"

text \<open>\<open>v, err := m()\<close>: the error is a value, a panic is not.\<close>

definition attempt :: "('s, 'a) act \<Rightarrow> ('s, state_error + 'a) act" where
  "attempt m s =
     (case m s of (Ok x, s') \<Rightarrow> (Ok (Inr x), s') | (Err e, s') \<Rightarrow> (Ok (Inl e), s') | (Panic p, s') \<Rightarrow> (Panic p, s'))"

text \<open>Loops over slices: the results in order, or no results.\<close>

fun for_all :: "('x \<Rightarrow> ('s, 'a) act) \<Rightarrow> 'x list \<Rightarrow> ('s, 'a list) act" where
  "for_all f [] = ret []"
| "for_all f (x # xs) = act_bind (f x) (\<lambda>y. act_bind (for_all f xs) (\<lambda>ys. ret (y # ys)))"

fun for_each :: "('x \<Rightarrow> ('s, unit) act) \<Rightarrow> 'x list \<Rightarrow> ('s, unit) act" where
  "for_each f [] = ret ()"
| "for_each f (x # xs) = act_then (f x) (for_each f xs)"

text \<open>\<open>xslices.Chunk\<close>: consecutive parts of at most \<open>n\<close> elements, for a positive \<open>n\<close>.\<close>

function chunk :: "nat \<Rightarrow> 'a list \<Rightarrow> 'a list list" where
  "chunk n xs = (if xs = [] \<or> n = 0 then [] else take n xs # chunk n (drop n xs))"
  by pat_completeness auto
termination by (relation "measure (\<lambda>(n, xs). length xs)") auto

declare chunk.simps [simp del]

section \<open>Evaluation\<close>

named_theorems act_simps \<open>evaluation of operations with a state\<close>

lemma ret_apply [act_simps]: "ret x s = (Ok x, s)"
  by (simp add: ret_def)

lemma fail_apply [act_simps]: "fail e s = (Err e, s)"
  by (simp add: fail_def)

lemma panic_apply [act_simps]: "act_panic p s = (Panic p, s)"
  by (simp add: act_panic_def)

lemma reads_apply [act_simps]: "reads f s = (f s, s)"
  by (simp add: reads_def)

lemma modify_apply [act_simps]: "modify g s = (Ok (), g s)"
  by (simp add: modify_def)

lemma lift_apply [act_simps]: "lift r s = (r, s)"
  by (simp add: lift_def)

lemma bind_apply [act_simps]:
  "act_bind m f s =
     (case m s of (Ok x, s') \<Rightarrow> f x s' | (Err e, s') \<Rightarrow> (Err e, s') | (Panic p, s') \<Rightarrow> (Panic p, s'))"
  by (simp add: act_bind_def)

lemma then_apply [act_simps]:
  "act_then m m' s =
     (case m s of (Ok x, s') \<Rightarrow> m' s' | (Err e, s') \<Rightarrow> (Err e, s') | (Panic p, s') \<Rightarrow> (Panic p, s'))"
  by (simp add: act_then_def act_bind_def)

lemma attempt_apply [act_simps]:
  "attempt m s =
     (case m s of (Ok x, s') \<Rightarrow> (Ok (Inr x), s') | (Err e, s') \<Rightarrow> (Ok (Inl e), s') | (Panic p, s') \<Rightarrow> (Panic p, s'))"
  by (simp add: attempt_def)

lemma bind_Ok_iff: "act_bind m f s = (Ok y, s'') \<longleftrightarrow> (\<exists>x s'. m s = (Ok x, s') \<and> f x s' = (Ok y, s''))"
  by (auto simp: act_simps split: prod.splits outcome.splits)

lemma then_Ok_iff: "act_then m m' s = (Ok y, s'') \<longleftrightarrow> (\<exists>x s'. m s = (Ok x, s') \<and> m' s' = (Ok y, s''))"
  by (simp add: act_then_def bind_Ok_iff)

section \<open>Kept invariants\<close>

named_theorems keeps_intros \<open>rules for operations that keep an invariant\<close>

definition keeps :: "('s \<Rightarrow> bool) \<Rightarrow> ('s, 'a) act \<Rightarrow> bool" where
  "keeps P m \<longleftrightarrow> (\<forall>s. P s \<longrightarrow> P (snd (m s)))"

lemma keepsI: "(\<And>s. P s \<Longrightarrow> P (snd (m s))) \<Longrightarrow> keeps P m"
  by (simp add: keeps_def)

lemma keepsD: "keeps P m \<Longrightarrow> P s \<Longrightarrow> P (snd (m s))"
  by (simp add: keeps_def)

lemma keeps_state: "keeps P m \<Longrightarrow> m s = (r, s') \<Longrightarrow> P s \<Longrightarrow> P s'"
  using keepsD [of P m s] by simp

lemma keeps_bind [keeps_intros]:
  assumes "keeps P m" and "\<And>x. keeps P (f x)"
  shows "keeps P (act_bind m f)"
proof (rule keepsI)
  fix s assume "P s"
  moreover obtain r s' where m: "m s = (r, s')" by fastforce
  ultimately have "P s'" using assms(1) by (auto intro: keeps_state)
  with m assms(2) show "P (snd (act_bind m f s))"
    by (cases r) (auto simp: act_simps dest: keepsD)
qed

lemma keeps_then [keeps_intros]: "keeps P m \<Longrightarrow> keeps P m' \<Longrightarrow> keeps P (act_then m m')"
  unfolding act_then_def by (rule keeps_bind)

lemma keeps_pure [keeps_intros]:
  "keeps P (ret x)" "keeps P (fail e)" "keeps P (act_panic p)" "keeps P (reads f)" "keeps P (lift r)"
  by (simp_all add: keeps_def act_simps)

lemma keeps_modify: "(\<And>s. P s \<Longrightarrow> P (g s)) \<Longrightarrow> keeps P (modify g)"
  by (simp add: keeps_def act_simps)

lemma keeps_attempt [keeps_intros]: "keeps P m \<Longrightarrow> keeps P (attempt m)"
  by (auto simp: keeps_def act_simps split: prod.splits outcome.splits)

lemma keeps_if [keeps_intros]: "(b \<Longrightarrow> keeps P m) \<Longrightarrow> (\<not> b \<Longrightarrow> keeps P m') \<Longrightarrow> keeps P (if b then m else m')"
  by simp

lemma keeps_option [keeps_intros]:
  "keeps P m \<Longrightarrow> (\<And>y. keeps P (f y)) \<Longrightarrow> keeps P (case z of None \<Rightarrow> m | Some y \<Rightarrow> f y)"
  by (cases z) simp_all

lemma keeps_sum [keeps_intros]:
  "(\<And>e. keeps P (f e)) \<Longrightarrow> (\<And>y. keeps P (g y)) \<Longrightarrow> keeps P (case z of Inl e \<Rightarrow> f e | Inr y \<Rightarrow> g y)"
  by (cases z) simp_all

lemma keeps_prod [keeps_intros]: "(\<And>x y. keeps P (f x y)) \<Longrightarrow> keeps P (case z of (x, y) \<Rightarrow> f x y)"
  by (cases z) simp

lemma keeps_for_all: "(\<And>x. x \<in> set xs \<Longrightarrow> keeps P (f x)) \<Longrightarrow> keeps P (for_all f xs)"
  by (induction xs) (auto intro!: keeps_intros)

lemma keeps_for_each: "(\<And>x. x \<in> set xs \<Longrightarrow> keeps P (f x)) \<Longrightarrow> keeps P (for_each f xs)"
  by (induction xs) (auto intro!: keeps_intros)

section \<open>Invariants that success keeps\<close>

text \<open>The weaker contract of what a transaction commits: a failing operation may leave any state.\<close>

named_theorems commits_intros \<open>rules for operations whose success keeps an invariant\<close>

definition commits :: "('s \<Rightarrow> bool) \<Rightarrow> ('s, 'a) act \<Rightarrow> bool" where
  "commits P m \<longleftrightarrow> (\<forall>s x s'. P s \<longrightarrow> m s = (Ok x, s') \<longrightarrow> P s')"

lemma commitsI: "(\<And>s x s'. P s \<Longrightarrow> m s = (Ok x, s') \<Longrightarrow> P s') \<Longrightarrow> commits P m"
  unfolding commits_def by blast

lemma commitsD: "commits P m \<Longrightarrow> P s \<Longrightarrow> m s = (Ok x, s') \<Longrightarrow> P s'"
  unfolding commits_def by blast

lemma keeps_commits: "keeps P m \<Longrightarrow> commits P m"
  by (auto intro: commitsI keeps_state)

lemma commits_bind [commits_intros]: "commits P m \<Longrightarrow> (\<And>x. commits P (f x)) \<Longrightarrow> commits P (act_bind m f)"
  by (rule commitsI) (auto simp: bind_Ok_iff dest: commitsD)

lemma commits_then [commits_intros]: "commits P m \<Longrightarrow> commits P m' \<Longrightarrow> commits P (act_then m m')"
  unfolding act_then_def by (rule commits_bind)

lemma commits_pure [commits_intros]:
  "commits P (ret x)" "commits P (fail e)" "commits P (act_panic p)" "commits P (reads f)" "commits P (lift r)"
  by (simp_all add: commits_def act_simps)

lemma commits_attempt [commits_intros]: "keeps P m \<Longrightarrow> commits P (attempt m)"
  by (rule keeps_commits) (rule keeps_attempt)

lemma commits_if [commits_intros]: "(b \<Longrightarrow> commits P m) \<Longrightarrow> (\<not> b \<Longrightarrow> commits P m') \<Longrightarrow> commits P (if b then m else m')"
  by simp

lemma commits_option [commits_intros]:
  "commits P m \<Longrightarrow> (\<And>y. commits P (f y)) \<Longrightarrow> commits P (case z of None \<Rightarrow> m | Some y \<Rightarrow> f y)"
  by (cases z) simp_all

lemma commits_sum [commits_intros]:
  "(\<And>e. commits P (f e)) \<Longrightarrow> (\<And>y. commits P (g y)) \<Longrightarrow> commits P (case z of Inl e \<Rightarrow> f e | Inr y \<Rightarrow> g y)"
  by (cases z) simp_all

lemma commits_prod [commits_intros]: "(\<And>x y. commits P (f x y)) \<Longrightarrow> commits P (case z of (x, y) \<Rightarrow> f x y)"
  by (cases z) simp

lemma commits_for_all: "(\<And>x. x \<in> set xs \<Longrightarrow> commits P (f x)) \<Longrightarrow> commits P (for_all f xs)"
  by (induction xs) (auto intro!: commits_intros)

lemma commits_for_each: "(\<And>x. x \<in> set xs \<Longrightarrow> commits P (f x)) \<Longrightarrow> commits P (for_each f xs)"
  by (induction xs) (auto intro!: commits_intros)

lemma then_assoc: "act_then (act_then m1 m2) m3 s = act_then m1 (act_then m2 m3) s"
  by (auto simp: act_simps split: prod.splits outcome.splits)

section \<open>Chunks\<close>

lemma concat_chunk: "0 < n \<Longrightarrow> concat (chunk n xs) = xs"
proof (induction n xs rule: chunk.induct)
  case (1 n xs)
  show ?case
  proof (cases "xs = []")
    case False
    with "1.prems" have "chunk n xs = take n xs # chunk n (drop n xs)" by (simp add: chunk.simps [of n xs])
    moreover have "concat (chunk n (drop n xs)) = drop n xs" using 1 False by simp
    ultimately show ?thesis by simp
  qed (simp add: chunk.simps)
qed

lemma chunk_short: "xs \<noteq> [] \<Longrightarrow> length xs \<le> n \<Longrightarrow> chunk n xs = [xs]"
  by (cases xs) (simp_all add: chunk.simps [of n] chunk.simps [of n "[]"])

lemma chunk_Nil [simp]: "chunk n [] = []"
  by (simp add: chunk.simps)

lemma chunk_parts: "ys \<in> set (chunk n xs) \<Longrightarrow> ys \<noteq> [] \<and> length ys \<le> n"
proof (induction n xs rule: chunk.induct)
  case (1 n xs)
  then show ?case by (auto simp: chunk.simps [of n xs] split: if_splits)
qed

text \<open>A loop over the chunks of a slice that changes the state one element at a time is a loop over the slice.\<close>

lemma for_each_append: "for_each f (xs @ ys) s = act_then (for_each f xs) (for_each f ys) s"
  by (induction xs arbitrary: s) (auto simp: act_simps split: prod.splits outcome.splits)

lemma for_each_chunks:
  assumes "0 < n" and "\<And>ys s. ys \<noteq> [] \<Longrightarrow> g ys s = for_each f ys s"
  shows "for_each g (chunk n xs) s = for_each f xs s"
proof (induction xs arbitrary: s rule: length_induct)
  case (1 xs)
  show ?case
  proof (cases "xs = []")
    case False
    with assms(1) have c: "chunk n xs = take n xs # chunk n (drop n xs)" by (simp add: chunk.simps [of n xs])
    have t: "take n xs \<noteq> []" using False assms(1) by simp
    have IH: "for_each g (chunk n (drop n xs)) s' = for_each f (drop n xs) s'" for s'
      using 1 False assms(1) by simp
    have "for_each g (chunk n xs) s = act_then (for_each f (take n xs)) (for_each f (drop n xs)) s"
      by (simp add: c then_apply assms(2) [OF t] IH split: prod.splits outcome.splits)
    also have "\<dots> = for_each f xs s" using for_each_append [of f "take n xs" "drop n xs" s] by simp
    finally show ?thesis .
  qed simp
qed

end
