(* ===== verification/Db_Tables.thy ===== *)
theory Db_Tables
  imports Go_Effects State_Snapshot
begin

text \<open>
  The database of a user: the tables that the migrations of \<open>internal/db_impl/sqlite3\<close> leave behind, one
  list of rows per table, in the order of the row IDs. The table of the messages of a mailbox exists for
  every mailbox (\<open>mailbox_message_N\<close>); its primary key is the UID, which is assigned by AUTOINCREMENT from the
  row of the table in \<open>sqlite_sequence\<close>. What is used of SQLite: uniqueness constraints, foreign keys, which
  are checked at the end of every statement, AUTOINCREMENT, and that a failing statement has no effect.
  Without ORDER BY, SQLite promises no order; the rows are then returned in the order of the table, and
  nothing that is proved depends on it. A remote ID is text. (The column \<open>message_remote_id\<close> has the type
  \<open>string\<close>, to which SQLite gives numeric affinity: remote IDs that look like numbers are out of scope.)
\<close>

section \<open>Rows and tables\<close>

text \<open>A row of the table of messages (\<open>db.Message\<close>); the date is in seconds since 1970.\<close>

record Message =
  msg_ID :: InternalMessageID
  msg_RemoteID :: MessageID
  msg_Date :: int
  msg_Size :: int
  msg_Body :: string
  msg_BodyStructure :: string
  msg_Envelope :: string
  msg_Deleted :: bool

record mm_row =
  mm_uid :: nat
  mm_deleted :: bool
  mm_recent :: bool
  mm_message_id :: InternalMessageID
  mm_message_remote_id :: MessageID

record DeletedSubscription =
  ds_Name :: string
  ds_RemoteID :: MailboxID

record database =
  t_mailboxes :: "Mailbox list"
  t_mailbox_seq :: nat
  t_mailbox_flags :: "(InternalMailboxID \<times> string) list"
  t_mailbox_perm_flags :: "(InternalMailboxID \<times> string) list"
  t_mailbox_attrs :: "(InternalMailboxID \<times> string) list"
  t_messages :: "Message list"
  t_message_flags :: "(InternalMessageID \<times> string) list"
  t_message_to_mailbox :: "(InternalMessageID \<times> InternalMailboxID) list"
  t_mailbox_messages :: "(InternalMailboxID \<times> mm_row list) list"
  t_uid_seq :: "(InternalMailboxID \<times> nat) list"
  t_deleted_subscriptions :: "DeletedSubscription list"
  t_connector_settings :: "string option"

text \<open>The database after the migrations of a new installation.\<close>

definition empty_database :: database where
  "empty_database = \<lparr>t_mailboxes = [], t_mailbox_seq = 0, t_mailbox_flags = [], t_mailbox_perm_flags = [],
     t_mailbox_attrs = [], t_messages = [], t_message_flags = [], t_message_to_mailbox = [],
     t_mailbox_messages = [], t_uid_seq = [], t_deleted_subscriptions = [], t_connector_settings = None\<rparr>"

definition ChunkLimit :: nat where
  "ChunkLimit = 1000"

definition MailboxMessageTableName :: "InternalMailboxID \<Rightarrow> string" where
  "MailboxMessageTableName b = ''mailbox_message_'' @ show_nat (unat b)"

text \<open>The largest row ID of SQLite.\<close>

definition max_rowid :: nat where
  "max_rowid = 9223372036854775807"

section \<open>Parts of queries\<close>

text \<open>The first row of a result, as \<open>QueryRowContext\<close> and \<open>mapSQLRowFn\<close> return it.\<close>

definition query_row :: "'a list \<Rightarrow> (state_error, 'a) outcome" where
  "query_row rows = (case rows of [] \<Rightarrow> Err (ErrDB ErrNotFound) | r # _ \<Rightarrow> Ok r)"

text \<open>A column that is read into an \<open>imap.UID\<close>, which has 32 bits.\<close>

definition scan_uid :: "nat \<Rightarrow> (state_error, UID) outcome" where
  "scan_uid n = (if n < 4294967296 then Ok (of_nat n) else Err (ErrDB DB_scan))"

text \<open>The rows of the table of a mailbox, and its entry in \<open>sqlite_sequence\<close>.\<close>

definition mailbox_rows :: "InternalMailboxID \<Rightarrow> database \<Rightarrow> (state_error, mm_row list) outcome" where
  "mailbox_rows b db =
     (case map_of (t_mailbox_messages db) b of
        None \<Rightarrow> Err (ErrDB (DB_no_such_table (MailboxMessageTableName b)))
      | Some rows \<Rightarrow> Ok rows)"

definition uid_seq :: "InternalMailboxID \<Rightarrow> database \<Rightarrow> nat" where
  "uid_seq b db = (case map_of (t_uid_seq db) b of None \<Rightarrow> 0 | Some n \<Rightarrow> n)"

text \<open>The values that belong to a key, and GROUP_CONCAT, whose result for no values, NULL, is read as the empty string.\<close>

definition values_of :: "'k \<Rightarrow> ('k \<times> 'v) list \<Rightarrow> 'v list" where
  "values_of k rows = map snd (filter (\<lambda>r. fst r = k) rows)"

definition group_concat :: "string list \<Rightarrow> string" where
  "group_concat vs = Join vs '',''"

definition message_flags :: "InternalMessageID \<Rightarrow> database \<Rightarrow> string list" where
  "message_flags i db = values_of i (t_message_flags db)"

section \<open>The invariant of the database\<close>

definition mailbox_ids :: "database \<Rightarrow> InternalMailboxID set" where
  "mailbox_ids db = mbx_ID ` set (t_mailboxes db)"

definition message_ids :: "database \<Rightarrow> InternalMessageID set" where
  "message_ids db = msg_ID ` set (t_messages db)"

text \<open>The table of one mailbox: UIDs ascend, start at 1 and do not exceed the sequence; messages exist and are distinct.\<close>

definition rows_ok :: "nat \<Rightarrow> InternalMessageID set \<Rightarrow> mm_row list \<Rightarrow> bool" where
  "rows_ok n ids rows \<longleftrightarrow>
     sorted_wrt (<) (map mm_uid rows) \<and> (\<forall>u \<in> set (map mm_uid rows). 0 < u \<and> u \<le> n)
     \<and> distinct (map mm_message_id rows) \<and> distinct (map mm_message_remote_id rows)
     \<and> set (map mm_message_id rows) \<subseteq> ids"

text \<open>Texts that belong to mailboxes, or flags that belong to messages: no duplicates and no dangling references.\<close>

definition refers :: "'k set \<Rightarrow> ('k \<times> 'v) list \<Rightarrow> bool" where
  "refers ids rows \<longleftrightarrow> distinct rows \<and> fst ` set rows \<subseteq> ids"

definition mailboxes_ok :: "database \<Rightarrow> bool" where
  "mailboxes_ok db \<longleftrightarrow>
     distinct (map mbx_ID (t_mailboxes db)) \<and> distinct (map mbx_RemoteID (t_mailboxes db))
     \<and> distinct (map mbx_Name (t_mailboxes db)) \<and> t_mailbox_seq db \<le> max_rowid
     \<and> (\<forall>b \<in> mailbox_ids db. unat b \<le> t_mailbox_seq db)
     \<and> refers (mailbox_ids db) (t_mailbox_flags db) \<and> refers (mailbox_ids db) (t_mailbox_perm_flags db)
     \<and> refers (mailbox_ids db) (t_mailbox_attrs db)"

definition messages_ok :: "database \<Rightarrow> bool" where
  "messages_ok db \<longleftrightarrow>
     distinct (map msg_ID (t_messages db)) \<and> distinct (map msg_RemoteID (t_messages db))
     \<and> refers (message_ids db) (t_message_flags db)"

text \<open>
  Every mailbox has its table and no other table is left, the tables are in order, and the table
  \<open>message_to_mailbox\<close> says which messages are in which mailbox.
\<close>

definition contents ::
    "(InternalMailboxID \<Rightarrow> mm_row list option) \<Rightarrow> (InternalMailboxID \<Rightarrow> nat) \<Rightarrow> InternalMailboxID set \<Rightarrow>
       InternalMessageID set \<Rightarrow> (InternalMessageID \<times> InternalMailboxID) set \<Rightarrow> bool" where
  "contents T uid boxes ids links \<longleftrightarrow>
     dom T = boxes \<and> (\<forall>b rows. T b = Some rows \<longrightarrow> rows_ok (uid b) ids rows)
     \<and> (\<forall>i b. (i, b) \<in> links \<longleftrightarrow> (\<exists>rows. T b = Some rows \<and> i \<in> set (map mm_message_id rows)))"

definition contents_ok :: "database \<Rightarrow> bool" where
  "contents_ok db \<longleftrightarrow>
     distinct (map fst (t_mailbox_messages db)) \<and> distinct (t_message_to_mailbox db)
     \<and> contents (map_of (t_mailbox_messages db)) (\<lambda>b. uid_seq b db) (mailbox_ids db) (message_ids db)
         (set (t_message_to_mailbox db))"

definition subscriptions_ok :: "database \<Rightarrow> bool" where
  "subscriptions_ok db \<longleftrightarrow>
     distinct (map ds_Name (t_deleted_subscriptions db)) \<and> distinct (map ds_RemoteID (t_deleted_subscriptions db))"

definition db_ok :: "database \<Rightarrow> bool" where
  "db_ok db \<longleftrightarrow> mailboxes_ok db \<and> messages_ok db \<and> contents_ok db \<and> subscriptions_ok db"

lemmas db_ok_defs = db_ok_def mailboxes_ok_def messages_ok_def contents_ok_def subscriptions_ok_def

lemma db_ok_empty: "db_ok empty_database"
  by (simp add: db_ok_defs empty_database_def mailbox_ids_def refers_def contents_def)

text \<open>What a change of one table leaves alone.\<close>

named_theorems db_frames \<open>parts of the invariant that a change of a table does not touch\<close>

lemma ids_frame [db_frames]:
  "mailbox_ids (db\<lparr>t_mailboxes := ms\<rparr>) = mbx_ID ` set ms"
  "mailbox_ids (db\<lparr>t_mailbox_seq := n\<rparr>) = mailbox_ids db"
  "mailbox_ids (db\<lparr>t_mailbox_flags := fl\<rparr>) = mailbox_ids db"
  "mailbox_ids (db\<lparr>t_mailbox_perm_flags := fl\<rparr>) = mailbox_ids db"
  "mailbox_ids (db\<lparr>t_mailbox_attrs := fl\<rparr>) = mailbox_ids db"
  "mailbox_ids (db\<lparr>t_messages := xs\<rparr>) = mailbox_ids db"
  "mailbox_ids (db\<lparr>t_message_flags := fs\<rparr>) = mailbox_ids db"
  "mailbox_ids (db\<lparr>t_message_to_mailbox := ls\<rparr>) = mailbox_ids db"
  "mailbox_ids (db\<lparr>t_mailbox_messages := ts\<rparr>) = mailbox_ids db"
  "mailbox_ids (db\<lparr>t_uid_seq := us\<rparr>) = mailbox_ids db"
  "message_ids (db\<lparr>t_messages := xs\<rparr>) = msg_ID ` set xs"
  "message_ids (db\<lparr>t_mailboxes := ms\<rparr>) = message_ids db"
  "message_ids (db\<lparr>t_mailbox_seq := n\<rparr>) = message_ids db"
  "message_ids (db\<lparr>t_mailbox_flags := fl\<rparr>) = message_ids db"
  "message_ids (db\<lparr>t_mailbox_perm_flags := fl\<rparr>) = message_ids db"
  "message_ids (db\<lparr>t_mailbox_attrs := fl\<rparr>) = message_ids db"
  "message_ids (db\<lparr>t_message_flags := fs\<rparr>) = message_ids db"
  "message_ids (db\<lparr>t_message_to_mailbox := ls\<rparr>) = message_ids db"
  "message_ids (db\<lparr>t_mailbox_messages := ts\<rparr>) = message_ids db"
  "message_ids (db\<lparr>t_uid_seq := us\<rparr>) = message_ids db"
  by (simp_all add: mailbox_ids_def message_ids_def)

lemma uid_seq_frame [db_frames]:
  "uid_seq b (db\<lparr>t_mailboxes := ms\<rparr>) = uid_seq b db" "uid_seq b (db\<lparr>t_mailbox_seq := n\<rparr>) = uid_seq b db"
  "uid_seq b (db\<lparr>t_mailbox_flags := fl\<rparr>) = uid_seq b db" "uid_seq b (db\<lparr>t_mailbox_perm_flags := fl\<rparr>) = uid_seq b db"
  "uid_seq b (db\<lparr>t_mailbox_attrs := fl\<rparr>) = uid_seq b db" "uid_seq b (db\<lparr>t_messages := xs\<rparr>) = uid_seq b db"
  "uid_seq b (db\<lparr>t_message_flags := fs\<rparr>) = uid_seq b db" "uid_seq b (db\<lparr>t_message_to_mailbox := ls\<rparr>) = uid_seq b db"
  "uid_seq b (db\<lparr>t_mailbox_messages := ts\<rparr>) = uid_seq b db"
  "uid_seq b (db\<lparr>t_uid_seq := AList.update c k (t_uid_seq db)\<rparr>) = (if b = c then k else uid_seq b db)"
  "uid_seq b (db\<lparr>t_uid_seq := AList.delete c (t_uid_seq db)\<rparr>) = (if b = c then 0 else uid_seq b db)"
  by (simp_all add: uid_seq_def update_conv' delete_conv')

lemma mailboxes_ok_frame [db_frames]:
  "mailboxes_ok (db\<lparr>t_messages := xs\<rparr>) = mailboxes_ok db" "mailboxes_ok (db\<lparr>t_message_flags := fs\<rparr>) = mailboxes_ok db"
  "mailboxes_ok (db\<lparr>t_message_to_mailbox := ls\<rparr>) = mailboxes_ok db" "mailboxes_ok (db\<lparr>t_mailbox_messages := ts\<rparr>) = mailboxes_ok db"
  "mailboxes_ok (db\<lparr>t_uid_seq := us\<rparr>) = mailboxes_ok db" "mailboxes_ok (db\<lparr>t_deleted_subscriptions := ds\<rparr>) = mailboxes_ok db"
  "mailboxes_ok (db\<lparr>t_connector_settings := cs\<rparr>) = mailboxes_ok db"
  by (simp_all add: mailboxes_ok_def mailbox_ids_def)

lemma messages_ok_frame [db_frames]:
  "messages_ok (db\<lparr>t_mailboxes := ms\<rparr>) = messages_ok db" "messages_ok (db\<lparr>t_mailbox_seq := n\<rparr>) = messages_ok db"
  "messages_ok (db\<lparr>t_mailbox_flags := fl\<rparr>) = messages_ok db" "messages_ok (db\<lparr>t_mailbox_perm_flags := fl\<rparr>) = messages_ok db"
  "messages_ok (db\<lparr>t_mailbox_attrs := fl\<rparr>) = messages_ok db" "messages_ok (db\<lparr>t_message_to_mailbox := ls\<rparr>) = messages_ok db"
  "messages_ok (db\<lparr>t_mailbox_messages := ts\<rparr>) = messages_ok db" "messages_ok (db\<lparr>t_uid_seq := us\<rparr>) = messages_ok db"
  "messages_ok (db\<lparr>t_deleted_subscriptions := ds\<rparr>) = messages_ok db" "messages_ok (db\<lparr>t_connector_settings := cs\<rparr>) = messages_ok db"
  by (simp_all add: messages_ok_def message_ids_def)

lemma contents_ok_frame [db_frames]:
  "contents_ok (db\<lparr>t_mailbox_flags := fl\<rparr>) = contents_ok db" "contents_ok (db\<lparr>t_mailbox_perm_flags := fl\<rparr>) = contents_ok db"
  "contents_ok (db\<lparr>t_mailbox_attrs := fl\<rparr>) = contents_ok db" "contents_ok (db\<lparr>t_message_flags := fs\<rparr>) = contents_ok db"
  "contents_ok (db\<lparr>t_mailbox_seq := n\<rparr>) = contents_ok db" "contents_ok (db\<lparr>t_deleted_subscriptions := ds\<rparr>) = contents_ok db"
  "contents_ok (db\<lparr>t_connector_settings := cs\<rparr>) = contents_ok db"
  by (simp_all add: contents_ok_def mailbox_ids_def message_ids_def uid_seq_def)

lemma subscriptions_ok_frame [db_frames]:
  "subscriptions_ok (db\<lparr>t_mailboxes := ms\<rparr>) = subscriptions_ok db" "subscriptions_ok (db\<lparr>t_mailbox_seq := n\<rparr>) = subscriptions_ok db"
  "subscriptions_ok (db\<lparr>t_mailbox_flags := fl\<rparr>) = subscriptions_ok db" "subscriptions_ok (db\<lparr>t_mailbox_perm_flags := fl\<rparr>) = subscriptions_ok db"
  "subscriptions_ok (db\<lparr>t_mailbox_attrs := fl\<rparr>) = subscriptions_ok db" "subscriptions_ok (db\<lparr>t_messages := xs\<rparr>) = subscriptions_ok db"
  "subscriptions_ok (db\<lparr>t_message_flags := fs\<rparr>) = subscriptions_ok db" "subscriptions_ok (db\<lparr>t_message_to_mailbox := ls\<rparr>) = subscriptions_ok db"
  "subscriptions_ok (db\<lparr>t_mailbox_messages := ts\<rparr>) = subscriptions_ok db" "subscriptions_ok (db\<lparr>t_uid_seq := us\<rparr>) = subscriptions_ok db"
  "subscriptions_ok (db\<lparr>t_connector_settings := cs\<rparr>) = subscriptions_ok db"
  by (simp_all add: subscriptions_ok_def)

end
