(* ===== verification/Db_Read.thy ===== *)
theory Db_Read
  imports Db_Tables
begin

text \<open>
  The read operations of the database (\<open>internal/db_impl/sqlite3/read_ops.go\<close>), one definition per operation.
  They are functions from the database to an outcome. The query of \<open>MailboxExistsWithID\<close> has a misspelt
  keyword, so that SQLite refuses it.
\<close>

section \<open>Mailboxes\<close>

definition MailboxExistsWithID :: "InternalMailboxID \<Rightarrow> database \<Rightarrow> (state_error, bool) outcome" where
  "MailboxExistsWithID b db = Err (ErrDB DB_syntax)"

definition MailboxExistsWithRemoteID :: "MailboxID \<Rightarrow> database \<Rightarrow> (state_error, bool) outcome" where
  "MailboxExistsWithRemoteID r db = Ok (list_ex (\<lambda>m. mbx_RemoteID m = r) (t_mailboxes db))"

definition MailboxExistsWithName :: "string \<Rightarrow> database \<Rightarrow> (state_error, bool) outcome" where
  "MailboxExistsWithName n db = Ok (list_ex (\<lambda>m. mbx_Name m = n) (t_mailboxes db))"

definition GetMailboxIDFromRemoteID :: "MailboxID \<Rightarrow> database \<Rightarrow> (state_error, InternalMailboxID) outcome" where
  "GetMailboxIDFromRemoteID r db = query_row (map mbx_ID (filter (\<lambda>m. mbx_RemoteID m = r) (t_mailboxes db)))"

definition GetMailboxName :: "InternalMailboxID \<Rightarrow> database \<Rightarrow> (state_error, string) outcome" where
  "GetMailboxName b db = query_row (map mbx_Name (filter (\<lambda>m. mbx_ID m = b) (t_mailboxes db)))"

definition GetMailboxNameWithRemoteID :: "MailboxID \<Rightarrow> database \<Rightarrow> (state_error, string) outcome" where
  "GetMailboxNameWithRemoteID r db = query_row (map mbx_Name (filter (\<lambda>m. mbx_RemoteID m = r) (t_mailboxes db)))"

definition GetMailboxMessageIDPairs :: "InternalMailboxID \<Rightarrow> database \<Rightarrow> (state_error, MessageIDPair list) outcome" where
  "GetMailboxMessageIDPairs b db =
     bind_outcome (mailbox_rows b db) (\<lambda>rows.
       Ok (map (\<lambda>r. \<lparr>InternalID = mm_message_id r, RemoteID = mm_message_remote_id r\<rparr>) rows))"

record MailboxWithAttr =
  mwa_Mailbox :: Mailbox
  mwa_Attributes :: FlagSet

definition GetAllMailboxesWithAttr :: "database \<Rightarrow> (state_error, MailboxWithAttr list) outcome" where
  "GetAllMailboxesWithAttr db =
     Ok (map (\<lambda>m. \<lparr>mwa_Mailbox = m, mwa_Attributes = NewFlagSet (values_of (mbx_ID m) (t_mailbox_attrs db))\<rparr>)
           (t_mailboxes db))"

definition GetAllMailboxesAsRemoteIDs :: "database \<Rightarrow> (state_error, MailboxID list) outcome" where
  "GetAllMailboxesAsRemoteIDs db = Ok (map mbx_RemoteID (t_mailboxes db))"

definition GetMailboxByName :: "string \<Rightarrow> database \<Rightarrow> (state_error, Mailbox) outcome" where
  "GetMailboxByName n db = query_row (filter (\<lambda>m. mbx_Name m = n) (t_mailboxes db))"

definition GetMailboxByID :: "InternalMailboxID \<Rightarrow> database \<Rightarrow> (state_error, Mailbox) outcome" where
  "GetMailboxByID b db = query_row (filter (\<lambda>m. mbx_ID m = b) (t_mailboxes db))"

definition GetMailboxByRemoteID :: "MailboxID \<Rightarrow> database \<Rightarrow> (state_error, Mailbox) outcome" where
  "GetMailboxByRemoteID r db = query_row (filter (\<lambda>m. mbx_RemoteID m = r) (t_mailboxes db))"

definition GetMailboxRecentCount :: "InternalMailboxID \<Rightarrow> database \<Rightarrow> (state_error, nat) outcome" where
  "GetMailboxRecentCount b db = bind_outcome (mailbox_rows b db) (\<lambda>rows. Ok (length (filter mm_recent rows)))"

definition GetMailboxMessageCount :: "InternalMailboxID \<Rightarrow> database \<Rightarrow> (state_error, nat) outcome" where
  "GetMailboxMessageCount b db = bind_outcome (mailbox_rows b db) (\<lambda>rows. Ok (length rows))"

definition GetMailboxMessageCountWithRemoteID :: "MailboxID \<Rightarrow> database \<Rightarrow> (state_error, nat) outcome" where
  "GetMailboxMessageCountWithRemoteID r db =
     bind_outcome (GetMailboxIDFromRemoteID r db) (\<lambda>internalID.
       bind_outcome (mailbox_rows internalID db) (\<lambda>rows. Ok (length rows)))"

definition GetMailboxFlags :: "InternalMailboxID \<Rightarrow> database \<Rightarrow> (state_error, FlagSet) outcome" where
  "GetMailboxFlags b db = Ok (NewFlagSet (values_of b (t_mailbox_flags db)))"

definition GetMailboxPermanentFlags :: "InternalMailboxID \<Rightarrow> database \<Rightarrow> (state_error, FlagSet) outcome" where
  "GetMailboxPermanentFlags b db = Ok (NewFlagSet (values_of b (t_mailbox_perm_flags db)))"

definition GetMailboxAttributes :: "InternalMailboxID \<Rightarrow> database \<Rightarrow> (state_error, FlagSet) outcome" where
  "GetMailboxAttributes b db = Ok (NewFlagSet (values_of b (t_mailbox_attrs db)))"

text \<open>There is no entry in the sequence table until the first message is added; \<open>uid.Add(1)\<close> wraps.\<close>

definition GetMailboxUID :: "InternalMailboxID \<Rightarrow> database \<Rightarrow> (state_error, UID) outcome" where
  "GetMailboxUID b db =
     (case map_of (t_uid_seq db) b of
        None \<Rightarrow> Ok 1
      | Some n \<Rightarrow> bind_outcome (scan_uid n) (\<lambda>uid. Ok (uid + 1)))"

definition GetMailboxMessageCountAndUID ::
    "InternalMailboxID \<Rightarrow> database \<Rightarrow> (state_error, nat \<times> UID) outcome" where
  "GetMailboxMessageCountAndUID b db =
     bind_outcome (GetMailboxMessageCount b db) (\<lambda>count.
       bind_outcome (GetMailboxUID b db) (\<lambda>uid. Ok (count, uid)))"

text \<open>A row of a mailbox with the flags of its message, as the two queries with GROUP_CONCAT return it.\<close>

definition scan_row :: "database \<Rightarrow> mm_row \<Rightarrow> (state_error, SnapshotMessageResult) outcome" where
  "scan_row db r =
     bind_outcome (scan_uid (mm_uid r)) (\<lambda>uid.
       Ok \<lparr>sr_InternalID = mm_message_id r, sr_RemoteID = mm_message_remote_id r, sr_UID = uid,
           sr_Recent = mm_recent r, sr_Deleted = mm_deleted r,
           sr_Flags = group_concat (message_flags (mm_message_id r) db)\<rparr>)"

fun scan_rows :: "database \<Rightarrow> mm_row list \<Rightarrow> (state_error, SnapshotMessageResult list) outcome" where
  "scan_rows db [] = Ok []"
| "scan_rows db (r # rs) = bind_outcome (scan_row db r) (\<lambda>x. bind_outcome (scan_rows db rs) (\<lambda>xs. Ok (x # xs)))"

definition GetMailboxMessageForNewSnapshot ::
    "InternalMailboxID \<Rightarrow> database \<Rightarrow> (state_error, SnapshotMessageResult list) outcome" where
  "GetMailboxMessageForNewSnapshot b db =
     bind_outcome (mailbox_rows b db) (\<lambda>rows. scan_rows db (sort_key mm_uid rows))"

definition MailboxTranslateRemoteIDs :: "MailboxID list \<Rightarrow> database \<Rightarrow> (state_error, InternalMailboxID list) outcome" where
  "MailboxTranslateRemoteIDs mboxIDs db =
     for_append (\<lambda>chunk. Ok (map mbx_ID (filter (\<lambda>m. mbx_RemoteID m \<in> set chunk) (t_mailboxes db))))
       (chunk ChunkLimit mboxIDs) []"

definition MailboxFilterContainsInternalID ::
    "InternalMailboxID \<Rightarrow> InternalMessageID list \<Rightarrow> database \<Rightarrow> (state_error, InternalMessageID list) outcome" where
  "MailboxFilterContainsInternalID b messageIDs db =
     for_append (\<lambda>chunk. bind_outcome (mailbox_rows b db) (\<lambda>rows.
         Ok (filter (\<lambda>i. i \<in> set chunk) (map mm_message_id rows))))
       (chunk ChunkLimit messageIDs) []"

definition MailboxFilterContains ::
    "InternalMailboxID \<Rightarrow> MessageIDPair list \<Rightarrow> database \<Rightarrow> (state_error, InternalMessageID list) outcome" where
  "MailboxFilterContains b messageIDs db = MailboxFilterContainsInternalID b (map InternalID messageIDs) db"

definition GetMailboxCount :: "database \<Rightarrow> (state_error, nat) outcome" where
  "GetMailboxCount db = Ok (length (t_mailboxes db))"

definition GetMailboxMessageUIDsWithFlagsAfterAddOrUIDBump ::
    "InternalMailboxID \<Rightarrow> InternalMessageID list \<Rightarrow> database \<Rightarrow> (state_error, SnapshotMessageResult list) outcome" where
  "GetMailboxMessageUIDsWithFlagsAfterAddOrUIDBump b messageIDs db =
     for_append (\<lambda>chunk. bind_outcome (mailbox_rows b db) (\<lambda>rows.
         scan_rows db (sort_key mm_uid (filter (\<lambda>r. mm_message_id r \<in> set chunk) rows))))
       (chunk ChunkLimit messageIDs) []"

definition GetAllMailboxesNameAndRemoteID :: "database \<Rightarrow> (state_error, (string \<times> MailboxID) list) outcome" where
  "GetAllMailboxesNameAndRemoteID db = Ok (map (\<lambda>m. (mbx_Name m, mbx_RemoteID m)) (t_mailboxes db))"

section \<open>Messages\<close>

definition MessageExists :: "InternalMessageID \<Rightarrow> database \<Rightarrow> (state_error, bool) outcome" where
  "MessageExists i db = Ok (list_ex (\<lambda>m. msg_ID m = i) (t_messages db))"

definition MessageExistsWithRemoteID :: "MessageID \<Rightarrow> database \<Rightarrow> (state_error, bool) outcome" where
  "MessageExistsWithRemoteID r db = Ok (list_ex (\<lambda>m. msg_RemoteID m = r) (t_messages db))"

definition GetMessageNoEdges :: "InternalMessageID \<Rightarrow> database \<Rightarrow> (state_error, Message) outcome" where
  "GetMessageNoEdges i db = query_row (filter (\<lambda>m. msg_ID m = i) (t_messages db))"

definition GetTotalMessageCount :: "database \<Rightarrow> (state_error, nat) outcome" where
  "GetTotalMessageCount db = Ok (length (t_messages db))"

definition GetMessageRemoteID :: "InternalMessageID \<Rightarrow> database \<Rightarrow> (state_error, MessageID) outcome" where
  "GetMessageRemoteID i db = query_row (map msg_RemoteID (filter (\<lambda>m. msg_ID m = i) (t_messages db)))"

definition GetImportedMessageData :: "InternalMessageID \<Rightarrow> database \<Rightarrow> (state_error, Message \<times> FlagSet) outcome" where
  "GetImportedMessageData i db =
     bind_outcome (query_row (filter (\<lambda>m. msg_ID m = i) (t_messages db))) (\<lambda>msg.
       Ok (msg, NewFlagSet (message_flags i db)))"

definition GetMessageDateAndSize :: "InternalMessageID \<Rightarrow> database \<Rightarrow> (state_error, int \<times> int) outcome" where
  "GetMessageDateAndSize i db =
     query_row (map (\<lambda>m. (msg_Date m, msg_Size m)) (filter (\<lambda>m. msg_ID m = i) (t_messages db)))"

definition GetMessageMailboxIDs :: "InternalMessageID \<Rightarrow> database \<Rightarrow> (state_error, InternalMailboxID list) outcome" where
  "GetMessageMailboxIDs i db = Ok (values_of i (t_message_to_mailbox db))"

record MessageFlagSet =
  mfs_ID :: InternalMessageID
  mfs_RemoteID :: MessageID
  mfs_FlagSet :: FlagSet

text \<open>
  GROUP_CONCAT joins the flags with commas and \<open>strings.Split\<close> separates them again. Without flags the
  result is NULL and the flag set stays empty.
\<close>

definition split_flags :: "string list \<Rightarrow> FlagSet" where
  "split_flags vs = (if vs = [] then [] else NewFlagSet (split_byte (group_concat vs) (CHR '','')))"

definition GetMessagesFlags :: "InternalMessageID list \<Rightarrow> database \<Rightarrow> (state_error, MessageFlagSet list) outcome" where
  "GetMessagesFlags ids db =
     for_append (\<lambda>chunk. Ok (map (\<lambda>m. \<lparr>mfs_ID = msg_ID m, mfs_RemoteID = msg_RemoteID m,
           mfs_FlagSet = split_flags (message_flags (msg_ID m) db)\<rparr>)
         (filter (\<lambda>m. msg_ID m \<in> set chunk) (t_messages db))))
       (chunk ChunkLimit ids) []"

definition GetMessageIDsMarkedAsDelete :: "database \<Rightarrow> (state_error, InternalMessageID list) outcome" where
  "GetMessageIDsMarkedAsDelete db = Ok (map msg_ID (filter msg_Deleted (t_messages db)))"

definition GetMessageIDFromRemoteID :: "MessageID \<Rightarrow> database \<Rightarrow> (state_error, InternalMessageID) outcome" where
  "GetMessageIDFromRemoteID r db = query_row (map msg_ID (filter (\<lambda>m. msg_RemoteID m = r) (t_messages db)))"

definition GetMessageDeletedFlag :: "InternalMessageID \<Rightarrow> database \<Rightarrow> (state_error, bool) outcome" where
  "GetMessageDeletedFlag i db = query_row (map msg_Deleted (filter (\<lambda>m. msg_ID m = i) (t_messages db)))"

text \<open>A Go map to empty structs: the list of its keys.\<close>

definition GetAllMessagesIDsAsMap :: "database \<Rightarrow> (state_error, InternalMessageID list) outcome" where
  "GetAllMessagesIDsAsMap db = Ok (map msg_ID (t_messages db))"

section \<open>Subscriptions and settings\<close>

definition GetDeletedSubscriptionSet :: "database \<Rightarrow> (state_error, (MailboxID \<times> DeletedSubscription) list) outcome" where
  "GetDeletedSubscriptionSet db =
     Ok (foldl (\<lambda>result v. AList.update (ds_RemoteID v) v result) [] (t_deleted_subscriptions db))"

definition GetConnectorSettings :: "database \<Rightarrow> (state_error, string \<times> bool) outcome" where
  "GetConnectorSettings db =
     (case t_connector_settings db of None \<Rightarrow> Ok ('''', False) | Some v \<Rightarrow> Ok (v, True))"

end
