(* ===== verification/Db_Write.thy ===== *)
theory Db_Write
  imports Db_Read
begin

text \<open>
  The write operations of the database (\<open>internal/db_impl/sqlite3/write_ops.go\<close>), one definition per
  operation; the statements they execute come first. Two operations pass more arguments than their
  statement has placeholders. What the database driver does then is a parameter: it refuses the
  statement or it ignores the arguments that are left over.
\<close>

type_synonym 'a tx = "(database, 'a) act"

section \<open>Statements\<close>

text \<open>A statement that fails leaves the database as it was.\<close>

definition stmt :: "(database \<Rightarrow> (db_error, database) outcome) \<Rightarrow> unit tx" where
  "stmt f db = (case f db of Ok db' \<Rightarrow> (Ok (), db') | Err e \<Rightarrow> (Err (ErrDB e), db) | Panic p \<Rightarrow> (Panic p, db))"

text \<open>The panic of \<open>GenSQLIn\<close> for no placeholders.\<close>

definition GenSQLIn :: "nat \<Rightarrow> unit tx" where
  "GenSQLIn count = (if count = 0 then act_panic ''count can't be less or equal to 0'' else ret ())"

datatype extra_args = Refused | Ignored

datatype sql_arg = Arg_message InternalMessageID | Arg_mailbox InternalMailboxID | Arg_text string

text \<open>The arguments that are bound to \<open>n\<close> placeholders.\<close>

definition bind_args :: "extra_args \<Rightarrow> nat \<Rightarrow> sql_arg list \<Rightarrow> sql_arg list option" where
  "bind_args policy n args =
     (if length args < n \<or> (n < length args \<and> policy = Refused) then None else Some (take n args))"

text \<open>INSERT INTO mailboxes: the new row and its ID.\<close>

definition new_mailbox :: "MailboxID \<Rightarrow> string \<Rightarrow> UID \<Rightarrow> database \<Rightarrow> Mailbox" where
  "new_mailbox r n v db =
     \<lparr>mbx_ID = of_nat (t_mailbox_seq db + 1), mbx_RemoteID = r, mbx_Name = n, mbx_UIDValidity = v, mbx_Subscribed = True\<rparr>"

definition insert_mailbox :: "MailboxID \<Rightarrow> string \<Rightarrow> UID \<Rightarrow> database \<Rightarrow> (db_error, database) outcome" where
  "insert_mailbox r n v db =
     (if list_ex (\<lambda>m. mbx_RemoteID m = r) (t_mailboxes db) then Err (DB_unique ''mailboxes_v2.remote_id'')
      else if list_ex (\<lambda>m. mbx_Name m = n) (t_mailboxes db) then Err (DB_unique ''mailboxes_v2.name'')
      else if t_mailbox_seq db \<ge> max_rowid then Err DB_full
      else Ok (db\<lparr>t_mailboxes := t_mailboxes db @ [new_mailbox r n v db], t_mailbox_seq := t_mailbox_seq db + 1\<rparr>))"

definition create_mailbox_table :: "InternalMailboxID \<Rightarrow> database \<Rightarrow> (db_error, database) outcome" where
  "create_mailbox_table b db =
     (if map_of (t_mailbox_messages db) b \<noteq> None then Err (DB_table_exists (MailboxMessageTableName b))
      else Ok (db\<lparr>t_mailbox_messages := t_mailbox_messages db @ [(b, [])]\<rparr>))"

text \<open>The three tables of texts that belong to a mailbox have the same columns and constraints.\<close>

datatype mailbox_texts = Mailbox_flags | Mailbox_perm_flags | Mailbox_attrs

fun get_texts :: "mailbox_texts \<Rightarrow> database \<Rightarrow> (InternalMailboxID \<times> string) list" where
  "get_texts Mailbox_flags db = t_mailbox_flags db"
| "get_texts Mailbox_perm_flags db = t_mailbox_perm_flags db"
| "get_texts Mailbox_attrs db = t_mailbox_attrs db"

fun set_texts :: "mailbox_texts \<Rightarrow> (InternalMailboxID \<times> string) list \<Rightarrow> database \<Rightarrow> database" where
  "set_texts Mailbox_flags rows db = db\<lparr>t_mailbox_flags := rows\<rparr>"
| "set_texts Mailbox_perm_flags rows db = db\<lparr>t_mailbox_perm_flags := rows\<rparr>"
| "set_texts Mailbox_attrs rows db = db\<lparr>t_mailbox_attrs := rows\<rparr>"

definition insert_text :: "mailbox_texts \<Rightarrow> InternalMailboxID \<Rightarrow> string \<Rightarrow> database \<Rightarrow> (db_error, database) outcome" where
  "insert_text t b v db =
     (if (b, v) \<in> set (get_texts t db) then Err (DB_unique ''value, mailbox_id'')
      else if \<not> list_ex (\<lambda>m. mbx_ID m = b) (t_mailboxes db) then Err DB_foreign_key
      else Ok (set_texts t (get_texts t db @ [(b, v)]) db))"

text \<open>INSERT INTO mailbox_message_N: consecutive UIDs above the sequence; Recent is set and Deleted is not.\<close>

definition new_rows :: "nat \<Rightarrow> MessageIDPair list \<Rightarrow> mm_row list" where
  "new_rows n ids =
     map (\<lambda>(k, i). \<lparr>mm_uid = n + k + 1, mm_deleted = False, mm_recent = True, mm_message_id = InternalID i,
       mm_message_remote_id = RemoteID i\<rparr>) (enumerate 0 ids)"

definition insert_rows_of_mailbox ::
    "InternalMailboxID \<Rightarrow> MessageIDPair list \<Rightarrow> database \<Rightarrow> (db_error, database) outcome" where
  "insert_rows_of_mailbox b ids db =
     (case map_of (t_mailbox_messages db) b of
        None \<Rightarrow> Err (DB_no_such_table (MailboxMessageTableName b))
      | Some rows \<Rightarrow>
          if \<not> distinct (map mm_message_id rows @ map InternalID ids)
          then Err (DB_unique (MailboxMessageTableName b @ ''.message_id''))
          else if \<not> distinct (map mm_message_remote_id rows @ map RemoteID ids)
          then Err (DB_unique (MailboxMessageTableName b @ ''.message_remote_id''))
          else if \<not> list_all (\<lambda>i. list_ex (\<lambda>m. msg_ID m = InternalID i) (t_messages db)) ids
          then Err DB_foreign_key
          else if uid_seq b db + length ids > max_rowid then Err DB_full
          else Ok (db\<lparr>t_mailbox_messages := AList.update b (rows @ new_rows (uid_seq b db) ids) (t_mailbox_messages db),
                      t_uid_seq := AList.update b (uid_seq b db + length ids) (t_uid_seq db)\<rparr>))"

definition insert_links :: "InternalMailboxID \<Rightarrow> InternalMessageID list \<Rightarrow> database \<Rightarrow> (db_error, database) outcome" where
  "insert_links b ids db =
     (if \<not> distinct (t_message_to_mailbox db @ map (\<lambda>i. (i, b)) ids) then Err (DB_unique ''message_id, mailbox_id'')
      else if \<not> list_ex (\<lambda>m. mbx_ID m = b) (t_mailboxes db)
        \<or> \<not> list_all (\<lambda>i. list_ex (\<lambda>m. msg_ID m = i) (t_messages db)) ids then Err DB_foreign_key
      else Ok (db\<lparr>t_message_to_mailbox := t_message_to_mailbox db @ map (\<lambda>i. (i, b)) ids\<rparr>))"

text \<open>A change of all rows of the table of a mailbox that satisfy a condition, and their deletion.\<close>

definition update_rows ::
    "InternalMailboxID \<Rightarrow> (mm_row \<Rightarrow> bool) \<Rightarrow> (mm_row \<Rightarrow> mm_row) \<Rightarrow> database \<Rightarrow> (db_error, database) outcome" where
  "update_rows b cond f db =
     (case map_of (t_mailbox_messages db) b of
        None \<Rightarrow> Err (DB_no_such_table (MailboxMessageTableName b))
      | Some rows \<Rightarrow> Ok (db\<lparr>t_mailbox_messages :=
          AList.update b (map (\<lambda>r. if cond r then f r else r) rows) (t_mailbox_messages db)\<rparr>))"

definition delete_rows :: "InternalMailboxID \<Rightarrow> (mm_row \<Rightarrow> bool) \<Rightarrow> database \<Rightarrow> (db_error, database) outcome" where
  "delete_rows b cond db =
     (case map_of (t_mailbox_messages db) b of
        None \<Rightarrow> Err (DB_no_such_table (MailboxMessageTableName b))
      | Some rows \<Rightarrow> Ok (db\<lparr>t_mailbox_messages :=
          AList.update b (filter (\<lambda>r. \<not> cond r) rows) (t_mailbox_messages db)\<rparr>))"

definition delete_links :: "(InternalMessageID \<times> InternalMailboxID \<Rightarrow> bool) \<Rightarrow> database \<Rightarrow> (db_error, database) outcome" where
  "delete_links cond db = Ok (db\<lparr>t_message_to_mailbox := filter (\<lambda>l. \<not> cond l) (t_message_to_mailbox db)\<rparr>)"

text \<open>DROP TABLE also removes the entry of the table in \<open>sqlite_sequence\<close>.\<close>

definition drop_mailbox_table :: "InternalMailboxID \<Rightarrow> database \<Rightarrow> (db_error, database) outcome" where
  "drop_mailbox_table b db =
     (if map_of (t_mailbox_messages db) b = None then Err (DB_no_such_table (MailboxMessageTableName b))
      else Ok (db\<lparr>t_mailbox_messages := AList.delete b (t_mailbox_messages db), t_uid_seq := AList.delete b (t_uid_seq db)\<rparr>))"

text \<open>DELETE FROM mailboxes cascades to the tables that refer to mailboxes.\<close>

definition delete_mailbox :: "MailboxID \<Rightarrow> database \<Rightarrow> (db_error, database) outcome" where
  "delete_mailbox r db =
     (let gone = map mbx_ID (filter (\<lambda>m. mbx_RemoteID m = r) (t_mailboxes db)) in
      Ok (db\<lparr>t_mailboxes := filter (\<lambda>m. mbx_RemoteID m \<noteq> r) (t_mailboxes db),
             t_mailbox_flags := filter (\<lambda>x. fst x \<notin> set gone) (t_mailbox_flags db),
             t_mailbox_perm_flags := filter (\<lambda>x. fst x \<notin> set gone) (t_mailbox_perm_flags db),
             t_mailbox_attrs := filter (\<lambda>x. fst x \<notin> set gone) (t_mailbox_attrs db),
             t_message_to_mailbox := filter (\<lambda>x. snd x \<notin> set gone) (t_message_to_mailbox db)\<rparr>))"

text \<open>
  UPDATE mailboxes for the rows that satisfy a condition; the unique columns are checked. The number of
  rows is returned by \<open>count_mailboxes\<close>, which callers read before.
\<close>

definition update_mailboxes ::
    "(Mailbox \<Rightarrow> bool) \<Rightarrow> (Mailbox \<Rightarrow> Mailbox) \<Rightarrow> database \<Rightarrow> (db_error, database) outcome" where
  "update_mailboxes cond f db =
     (let mbs = map (\<lambda>m. if cond m then f m else m) (t_mailboxes db) in
      if \<not> distinct (map mbx_RemoteID mbs) then Err (DB_unique ''mailboxes_v2.remote_id'')
      else if \<not> distinct (map mbx_Name mbs) then Err (DB_unique ''mailboxes_v2.name'')
      else Ok (db\<lparr>t_mailboxes := mbs\<rparr>))"

definition UpdatedNotZero :: "(Mailbox \<Rightarrow> bool) \<Rightarrow> (Mailbox \<Rightarrow> Mailbox) \<Rightarrow> unit tx" where
  "UpdatedNotZero cond f =
     act_bind (reads (\<lambda>db. Ok (length (filter cond (t_mailboxes db))))) (\<lambda>updated.
       act_then (stmt (update_mailboxes cond f))
         (if updated = 0 then fail (ErrDB DB_no_values_changed) else ret ()))"

definition insert_messages :: "Message list \<Rightarrow> database \<Rightarrow> (db_error, database) outcome" where
  "insert_messages ms db =
     (if \<not> distinct (map msg_ID (t_messages db @ ms)) then Err (DB_unique ''messages_v2.id'')
      else if \<not> distinct (map msg_RemoteID (t_messages db @ ms)) then Err (DB_unique ''messages_v2.remote_id'')
      else Ok (db\<lparr>t_messages := t_messages db @ ms\<rparr>))"

definition insert_message_flags :: "(InternalMessageID \<times> string) list \<Rightarrow> database \<Rightarrow> (db_error, database) outcome" where
  "insert_message_flags rows db =
     (if \<not> distinct (t_message_flags db @ rows) then Err (DB_unique ''value, message_id'')
      else if \<not> list_all (\<lambda>(i, v). list_ex (\<lambda>m. msg_ID m = i) (t_messages db)) rows then Err DB_foreign_key
      else Ok (db\<lparr>t_message_flags := t_message_flags db @ rows\<rparr>))"

text \<open>INSERT OR IGNORE skips rows that exist; foreign keys are checked nevertheless.\<close>

fun add_missing :: "'a list \<Rightarrow> 'a list \<Rightarrow> 'a list" where
  "add_missing rows [] = rows"
| "add_missing rows (x # xs) = add_missing (if x \<in> set rows then rows else rows @ [x]) xs"

definition insert_or_ignore_message_flags ::
    "(InternalMessageID \<times> string) list \<Rightarrow> database \<Rightarrow> (db_error, database) outcome" where
  "insert_or_ignore_message_flags rows db =
     (if \<not> list_all (\<lambda>(i, v). (i, v) \<in> set (t_message_flags db) \<or> list_ex (\<lambda>m. msg_ID m = i) (t_messages db)) rows
      then Err DB_foreign_key
      else Ok (db\<lparr>t_message_flags := add_missing (t_message_flags db) rows\<rparr>))"

definition delete_message_flags ::
    "(InternalMessageID \<times> string \<Rightarrow> bool) \<Rightarrow> database \<Rightarrow> (db_error, database) outcome" where
  "delete_message_flags cond db = Ok (db\<lparr>t_message_flags := filter (\<lambda>r. \<not> cond r) (t_message_flags db)\<rparr>)"

definition update_messages :: "(Message \<Rightarrow> bool) \<Rightarrow> (Message \<Rightarrow> Message) \<Rightarrow> database \<Rightarrow> (db_error, database) outcome" where
  "update_messages cond f db =
     (let ms = map (\<lambda>m. if cond m then f m else m) (t_messages db) in
      if \<not> distinct (map msg_RemoteID ms) then Err (DB_unique ''messages_v2.remote_id'')
      else Ok (db\<lparr>t_messages := ms\<rparr>))"

text \<open>
  DELETE FROM messages cascades to flags and links. The tables of mailboxes set their reference to NULL,
  which their column refuses: a message that is in a mailbox cannot be deleted.
\<close>

definition delete_messages :: "InternalMessageID list \<Rightarrow> database \<Rightarrow> (db_error, database) outcome" where
  "delete_messages ids db =
     (let gone = filter (\<lambda>i. list_ex (\<lambda>m. msg_ID m = i) (t_messages db)) ids in
      if list_ex (\<lambda>(b, rows). list_ex (\<lambda>r. mm_message_id r \<in> set gone) rows) (t_mailbox_messages db) then Err DB_not_null
      else Ok (db\<lparr>t_messages := filter (\<lambda>m. msg_ID m \<notin> set ids) (t_messages db),
                  t_message_flags := filter (\<lambda>x. fst x \<notin> set gone) (t_message_flags db),
                  t_message_to_mailbox := filter (\<lambda>x. fst x \<notin> set gone) (t_message_to_mailbox db)\<rparr>))"

section \<open>Subscriptions\<close>

definition update_deleted_subscription :: "string \<Rightarrow> MailboxID \<Rightarrow> database \<Rightarrow> (db_error, database) outcome" where
  "update_deleted_subscription n r db =
     (let ds = map (\<lambda>d. if ds_Name d = n then d\<lparr>ds_RemoteID := r\<rparr> else d) (t_deleted_subscriptions db) in
      if \<not> distinct (map ds_RemoteID ds) then Err (DB_unique ''deleted_subscriptions.remote_id'')
      else Ok (db\<lparr>t_deleted_subscriptions := ds\<rparr>))"

definition insert_deleted_subscription :: "string \<Rightarrow> MailboxID \<Rightarrow> database \<Rightarrow> (db_error, database) outcome" where
  "insert_deleted_subscription n r db =
     (if list_ex (\<lambda>d. ds_Name d = n) (t_deleted_subscriptions db) then Err (DB_unique ''deleted_subscriptions.name'')
      else if list_ex (\<lambda>d. ds_RemoteID d = r) (t_deleted_subscriptions db)
      then Err (DB_unique ''deleted_subscriptions.remote_id'')
      else Ok (db\<lparr>t_deleted_subscriptions := t_deleted_subscriptions db @ [\<lparr>ds_Name = n, ds_RemoteID = r\<rparr>]\<rparr>))"

definition AddDeletedSubscription :: "string \<Rightarrow> MailboxID \<Rightarrow> unit tx" where
  "AddDeletedSubscription mboxName boxID =
     act_bind (reads (\<lambda>db. Ok (length (filter (\<lambda>d. ds_Name d = mboxName) (t_deleted_subscriptions db))))) (\<lambda>count.
       act_then (stmt (update_deleted_subscription mboxName boxID))
         (if count = 0 then stmt (insert_deleted_subscription mboxName boxID) else ret ()))"

definition RemoveDeletedSubscriptionWithName :: "string \<Rightarrow> nat tx" where
  "RemoveDeletedSubscriptionWithName mboxName =
     act_bind (reads (\<lambda>db. Ok (length (filter (\<lambda>d. ds_Name d = mboxName) (t_deleted_subscriptions db))))) (\<lambda>count.
       act_then (modify (\<lambda>db. db\<lparr>t_deleted_subscriptions :=
           filter (\<lambda>d. ds_Name d \<noteq> mboxName) (t_deleted_subscriptions db)\<rparr>)) (ret count))"

section \<open>Mailboxes\<close>

text \<open>
  \<open>MapLabelsUniqueConstraintError\<close>: a violated constraint of the table of mailboxes is reported with the
  mailbox it conflicts with.
\<close>

definition existing_mailbox :: "(state_error, Mailbox) outcome \<Rightarrow> Mailbox option" where
  "existing_mailbox r = (case r of Ok m \<Rightarrow> Some m | _ \<Rightarrow> None)"

definition MapLabelsUniqueConstraintError :: "MailboxID \<Rightarrow> string \<Rightarrow> 'a tx \<Rightarrow> 'a tx" where
  "MapLabelsUniqueConstraintError remoteID name m db =
     (case m db of
        (Err (ErrDB (DB_unique f)), db') \<Rightarrow>
          if f = ''mailboxes_v2.remote_id''
          then (Err (ErrDB (UniqueLabelConstraintError f (existing_mailbox (GetMailboxByRemoteID remoteID db')) remoteID name)), db')
          else if f = ''mailboxes_v2.name''
          then (Err (ErrDB (UniqueLabelConstraintError f (existing_mailbox (GetMailboxByName name db')) remoteID name)), db')
          else (Err (ErrDB (DB_unique f)), db')
      | r \<Rightarrow> r)"

definition CreateMailbox ::
    "MailboxID \<Rightarrow> string \<Rightarrow> FlagSet \<Rightarrow> FlagSet \<Rightarrow> FlagSet \<Rightarrow> UID \<Rightarrow> Mailbox tx" where
  "CreateMailbox boxID name flags permFlags attrs uidValidity =
     act_bind (reads (\<lambda>db. Ok (new_mailbox boxID name uidValidity db))) (\<lambda>mbox.
       act_then (MapLabelsUniqueConstraintError boxID name (stmt (insert_mailbox boxID name uidValidity)))
         (act_then (stmt (create_mailbox_table (mbx_ID mbox)))
           (act_then (for_each (\<lambda>f. stmt (insert_text Mailbox_flags (mbx_ID mbox) f)) (Values flags))
             (act_then (for_each (\<lambda>f. stmt (insert_text Mailbox_perm_flags (mbx_ID mbox) f)) (Values permFlags))
               (act_then (for_each (\<lambda>f. stmt (insert_text Mailbox_attrs (mbx_ID mbox) f)) (Values attrs))
                 (ret mbox))))))"

definition GetOrCreateMailbox ::
    "MailboxID \<Rightarrow> string \<Rightarrow> FlagSet \<Rightarrow> FlagSet \<Rightarrow> FlagSet \<Rightarrow> UID \<Rightarrow> Mailbox tx" where
  "GetOrCreateMailbox boxID name flags permFlags attrs uidValidity =
     act_bind (attempt (reads (GetMailboxByRemoteID boxID))) (\<lambda>r.
       case r of
         Inr mbox \<Rightarrow> ret mbox
       | Inl err \<Rightarrow>
           if \<not> IsErrNotFound err then fail err
           else CreateMailbox boxID name flags permFlags attrs uidValidity)"

record imap_Mailbox =
  im_ID :: MailboxID
  im_Name :: "string list"
  im_Flags :: FlagSet
  im_PermanentFlags :: FlagSet
  im_Attributes :: FlagSet

definition GetOrCreateMailboxAlt :: "imap_Mailbox \<Rightarrow> string \<Rightarrow> UID \<Rightarrow> Mailbox tx" where
  "GetOrCreateMailboxAlt mbox delimiter uidValidity =
     GetOrCreateMailbox (im_ID mbox) (Join (im_Name mbox) delimiter) (im_Flags mbox) (im_PermanentFlags mbox)
       (im_Attributes mbox) uidValidity"

definition CreateMailboxIfNotExists :: "imap_Mailbox \<Rightarrow> string \<Rightarrow> UID \<Rightarrow> unit tx" where
  "CreateMailboxIfNotExists mbox delimiter uidValidity =
     act_then (GetOrCreateMailboxAlt mbox delimiter uidValidity) (ret ())"

definition RenameMailboxWithRemoteID :: "MailboxID \<Rightarrow> string \<Rightarrow> unit tx" where
  "RenameMailboxWithRemoteID boxID name =
     MapLabelsUniqueConstraintError boxID name
       (UpdatedNotZero (\<lambda>m. mbx_RemoteID m = boxID) (\<lambda>m. m\<lparr>mbx_Name := name\<rparr>))"

definition DeleteMailboxWithRemoteID :: "MailboxID \<Rightarrow> unit tx" where
  "DeleteMailboxWithRemoteID boxID =
     act_bind (attempt (reads (GetMailboxByRemoteID boxID))) (\<lambda>r.
       case r of
         Inl err \<Rightarrow> if IsErrNotFound err then ret () else fail err
       | Inr mbox \<Rightarrow>
           act_then (if mbx_Subscribed mbox then AddDeletedSubscription (mbx_Name mbox) boxID else ret ())
             (act_then (stmt (drop_mailbox_table (mbx_ID mbox))) (stmt (delete_mailbox boxID))))"

text \<open>The errors of the three steps are collected; \<open>errors.Join\<close> of none is nil.\<close>

definition collect :: "unit tx \<Rightarrow> state_error list \<Rightarrow> state_error list tx" where
  "collect m errs = act_bind (attempt m) (\<lambda>r. case r of Inl e \<Rightarrow> ret (errs @ [e]) | Inr _ \<Rightarrow> ret errs)"

definition DeleteMailboxWithRemoteIDSilent :: "MailboxID \<Rightarrow> unit tx" where
  "DeleteMailboxWithRemoteIDSilent boxID =
     act_bind (attempt (reads (GetMailboxByRemoteID boxID))) (\<lambda>r.
       case r of
         Inl err \<Rightarrow> if IsErrNotFound err then ret () else fail err
       | Inr mbox \<Rightarrow>
           act_bind (if mbx_Subscribed mbox then collect (AddDeletedSubscription (mbx_Name mbox) boxID) [] else ret []) (\<lambda>errs1.
             act_bind (collect (stmt (drop_mailbox_table (mbx_ID mbox))) errs1) (\<lambda>errs2.
               act_bind (collect (stmt (delete_mailbox boxID)) errs2) (\<lambda>errs3.
                 if errs3 = [] then ret () else fail (hd errs3)))))"

definition AddMessagesToMailbox_db :: "InternalMailboxID \<Rightarrow> MessageIDPair list \<Rightarrow> SnapshotMessageResult list tx" where
  "AddMessagesToMailbox_db boxID messageIDs =
     (if messageIDs = [] then ret []
      else act_then
        (for_each (\<lambda>chunk.
            act_then (stmt (insert_rows_of_mailbox boxID chunk)) (stmt (insert_links boxID (map InternalID chunk))))
          (chunk (ChunkLimit div 2) messageIDs))
        (reads (GetMailboxMessageUIDsWithFlagsAfterAddOrUIDBump boxID (map InternalID messageIDs))))"

text \<open>
  The statements have as many placeholders as the chunk has messages, but are executed with the arguments
  for all messages.
\<close>

definition RemoveMessagesFromMailbox_db ::
    "extra_args \<Rightarrow> InternalMailboxID \<Rightarrow> InternalMessageID list \<Rightarrow> unit tx" where
  "RemoveMessagesFromMailbox_db policy boxID messageIDs =
     for_each (\<lambda>chunk.
         act_then
           (case bind_args policy (length chunk) (map Arg_message messageIDs) of
              None \<Rightarrow> fail (ErrDB DB_arguments)
            | Some args \<Rightarrow> stmt (delete_rows boxID (\<lambda>r. Arg_message (mm_message_id r) \<in> set args)))
           (case bind_args policy (length chunk + 1) (map Arg_message messageIDs @ [Arg_mailbox boxID]) of
              None \<Rightarrow> fail (ErrDB DB_arguments)
            | Some args \<Rightarrow>
                stmt (delete_links (\<lambda>(i, b). Arg_message i \<in> set (butlast args) \<and> Arg_mailbox b = last args))))
       (chunk ChunkLimit messageIDs)"

definition ClearRecentFlagInMailboxOnMessage :: "InternalMailboxID \<Rightarrow> InternalMessageID \<Rightarrow> unit tx" where
  "ClearRecentFlagInMailboxOnMessage boxID messageID =
     stmt (update_rows boxID (\<lambda>r. mm_message_id r = messageID) (\<lambda>r. r\<lparr>mm_recent := False\<rparr>))"

definition ClearRecentFlagsInMailbox :: "InternalMailboxID \<Rightarrow> unit tx" where
  "ClearRecentFlagsInMailbox boxID = stmt (update_rows boxID mm_recent (\<lambda>r. r\<lparr>mm_recent := False\<rparr>))"

definition SetMailboxMessagesDeletedFlag :: "InternalMailboxID \<Rightarrow> InternalMessageID list \<Rightarrow> bool \<Rightarrow> unit tx" where
  "SetMailboxMessagesDeletedFlag boxID messageIDs deleted =
     for_each (\<lambda>chunk. stmt (update_rows boxID (\<lambda>r. mm_message_id r \<in> set chunk) (\<lambda>r. r\<lparr>mm_deleted := deleted\<rparr>)))
       (chunk ChunkLimit messageIDs)"

definition SetMailboxSubscribed :: "InternalMailboxID \<Rightarrow> bool \<Rightarrow> unit tx" where
  "SetMailboxSubscribed boxID subscribed =
     stmt (update_mailboxes (\<lambda>m. mbx_ID m = boxID) (\<lambda>m. m\<lparr>mbx_Subscribed := subscribed\<rparr>))"

definition UpdateRemoteMailboxID :: "InternalMailboxID \<Rightarrow> MailboxID \<Rightarrow> unit tx" where
  "UpdateRemoteMailboxID boxID remoteID =
     MapLabelsUniqueConstraintError remoteID ''''
       (UpdatedNotZero (\<lambda>m. mbx_ID m = boxID) (\<lambda>m. m\<lparr>mbx_RemoteID := remoteID\<rparr>))"

definition SetMailboxUIDValidity :: "InternalMailboxID \<Rightarrow> UID \<Rightarrow> unit tx" where
  "SetMailboxUIDValidity boxID uidValidity =
     UpdatedNotZero (\<lambda>m. mbx_ID m = boxID) (\<lambda>m. m\<lparr>mbx_UIDValidity := uidValidity\<rparr>)"

text \<open>
  The flags are pasted into the text of the statement between single quotes; a flag that contains a quote
  is out of scope.
\<close>

definition add_texts_to_all :: "mailbox_texts \<Rightarrow> string list \<Rightarrow> unit tx" where
  "add_texts_to_all t flags =
     modify (\<lambda>db. set_texts t (add_missing (get_texts t db)
       (concat (map (\<lambda>m. map (\<lambda>f. (mbx_ID m, f)) flags) (t_mailboxes db)))) db)"

definition AddFlagsToAllMailboxes :: "string list \<Rightarrow> unit tx" where
  "AddFlagsToAllMailboxes flags = (if flags = [] then fail (ErrDB DB_syntax) else add_texts_to_all Mailbox_flags flags)"

definition AddPermFlagsToAllMailboxes :: "string list \<Rightarrow> unit tx" where
  "AddPermFlagsToAllMailboxes flags =
     (if flags = [] then fail (ErrDB DB_syntax) else add_texts_to_all Mailbox_perm_flags flags)"

section \<open>Messages\<close>

record imap_Message =
  imsg_ID :: MessageID
  imsg_Flags :: FlagSet
  imsg_Date :: int

record CreateMessageReq =
  cr_Message :: imap_Message
  cr_InternalID :: InternalMessageID
  cr_LiteralSize :: int
  cr_Body :: string
  cr_Structure :: string
  cr_Envelope :: string

definition req_message :: "CreateMessageReq \<Rightarrow> Message" where
  "req_message req =
     \<lparr>msg_ID = cr_InternalID req, msg_RemoteID = imsg_ID (cr_Message req), msg_Date = imsg_Date (cr_Message req),
      msg_Size = cr_LiteralSize req, msg_Body = cr_Body req, msg_BodyStructure = cr_Structure req,
      msg_Envelope = cr_Envelope req, msg_Deleted = False\<rparr>"

definition req_flags :: "CreateMessageReq \<Rightarrow> (InternalMessageID \<times> string) list" where
  "req_flags req = map (\<lambda>f. (cr_InternalID req, f)) (Values (imsg_Flags (cr_Message req)))"

text \<open>The arguments for the flags come in pairs, so that a chunk of them holds half as many rows.\<close>

definition CreateMessages :: "CreateMessageReq list \<Rightarrow> unit tx" where
  "CreateMessages reqs =
     for_each (\<lambda>chunk1.
         act_then (stmt (insert_messages (map req_message chunk1)))
           (for_each (\<lambda>chunk2. stmt (insert_message_flags chunk2))
             (chunk (ChunkLimit div 2) (concat (map req_flags chunk1)))))
       (chunk ChunkLimit reqs)"

definition CreateMessageAndAddToMailbox :: "InternalMailboxID \<Rightarrow> CreateMessageReq \<Rightarrow> (UID \<times> FlagSet) tx" where
  "CreateMessageAndAddToMailbox mbox req =
     act_then (stmt (insert_messages [req_message req]))
       (act_then (if Len (imsg_Flags (cr_Message req)) \<noteq> 0 then stmt (insert_message_flags (req_flags req)) else ret ())
         (act_then (stmt (insert_links mbox [cr_InternalID req]))
           (act_bind (reads (\<lambda>db. Ok (uid_seq mbox db + 1))) (\<lambda>uid.
             act_then (stmt (insert_rows_of_mailbox mbox [\<lparr>InternalID = cr_InternalID req, RemoteID = imsg_ID (cr_Message req)\<rparr>]))
               (act_bind (lift (scan_uid uid)) (\<lambda>mboxUID.
                 ret (mboxUID, Add (imsg_Flags (cr_Message req)) [FlagRecent])))))))"

definition MarkMessageAsDeleted :: "InternalMessageID \<Rightarrow> unit tx" where
  "MarkMessageAsDeleted i = stmt (update_messages (\<lambda>m. msg_ID m = i) (\<lambda>m. m\<lparr>msg_Deleted := True\<rparr>))"

text \<open>The random UUID in the new remote ID is an argument.\<close>

definition MarkMessageAsDeletedAndAssignRandomRemoteID :: "string \<Rightarrow> InternalMessageID \<Rightarrow> unit tx" where
  "MarkMessageAsDeletedAndAssignRandomRemoteID uuid i =
     stmt (update_messages (\<lambda>m. msg_ID m = i) (\<lambda>m. m\<lparr>msg_Deleted := True, msg_RemoteID := ''DELETED-'' @ uuid\<rparr>))"

definition MarkMessageAsDeletedWithRemoteID :: "MessageID \<Rightarrow> unit tx" where
  "MarkMessageAsDeletedWithRemoteID r = stmt (update_messages (\<lambda>m. msg_RemoteID m = r) (\<lambda>m. m\<lparr>msg_Deleted := True\<rparr>))"

definition DeleteMessages :: "InternalMessageID list \<Rightarrow> unit tx" where
  "DeleteMessages ids = for_each (\<lambda>chunk. stmt (delete_messages chunk)) (chunk ChunkLimit ids)"

text \<open>The statement names the table \<open>id\<close>, which does not exist.\<close>

definition UpdateRemoteMessageID :: "InternalMessageID \<Rightarrow> MessageID \<Rightarrow> unit tx" where
  "UpdateRemoteMessageID internalID remoteID = fail (ErrDB (DB_no_such_table ''id''))"

definition AddFlagToMessages :: "InternalMessageID list \<Rightarrow> string \<Rightarrow> unit tx" where
  "AddFlagToMessages ids flag =
     for_each (\<lambda>chunk. stmt (insert_or_ignore_message_flags (map (\<lambda>i. (i, flag)) chunk))) (chunk ChunkLimit ids)"

definition RemoveFlagFromMessages :: "InternalMessageID list \<Rightarrow> string \<Rightarrow> unit tx" where
  "RemoveFlagFromMessages ids flag =
     for_each (\<lambda>chunk. stmt (delete_message_flags (\<lambda>(i, v). i \<in> set chunk \<and> v = flag))) (chunk ChunkLimit ids)"

text \<open>
  The statement that inserts the flags has one pair of placeholders per flag, but is executed with a pair of
  arguments per message and flag.
\<close>

fun pair_args :: "sql_arg list \<Rightarrow> (InternalMessageID \<times> string) list" where
  "pair_args (Arg_message i # Arg_text v # args) = (i, v) # pair_args args"
| "pair_args _ = []"

definition flag_args :: "InternalMessageID list \<Rightarrow> string list \<Rightarrow> sql_arg list" where
  "flag_args ids flags = concat (map (\<lambda>i. concat (map (\<lambda>f. [Arg_message i, Arg_text f]) flags)) ids)"

definition SetFlagsOnMessages :: "extra_args \<Rightarrow> InternalMessageID list \<Rightarrow> FlagSet \<Rightarrow> unit tx" where
  "SetFlagsOnMessages policy ids flags =
     (let flagSlice = Values flags in
      act_then (GenSQLIn (length flagSlice))
        (for_each (\<lambda>chunk.
            act_then (stmt (delete_message_flags (\<lambda>(i, v). i \<in> set chunk \<and> v \<notin> set flagSlice)))
              (case bind_args policy (2 * length flagSlice) (flag_args chunk flagSlice) of
                 None \<Rightarrow> fail (ErrDB DB_arguments)
               | Some args \<Rightarrow> stmt (insert_or_ignore_message_flags (pair_args args))))
          (chunk (ChunkLimit div 2) ids)))"

definition StoreConnectorSettings :: "string \<Rightarrow> unit tx" where
  "StoreConnectorSettings settings = modify (\<lambda>db. db\<lparr>t_connector_settings := Some settings\<rparr>)"

end
