(* ===== verification/Db_Props.thy ===== *)
theory Db_Props
  imports Db_Write
begin

text \<open>
  The database keeps its invariant: every statement or, where an operation needs several statements, every
  operation that succeeds leaves the tables consistent. Then what the operations do to the contents of
  mailboxes.
\<close>

section \<open>Statements\<close>

lemma stmt_Ok: "stmt f db = (Ok u, db') \<longleftrightarrow> f db = Ok db'"
  by (auto simp: stmt_def split: outcome.splits)

lemma keeps_stmt: "(\<And>db db'. P db \<Longrightarrow> f db = Ok db' \<Longrightarrow> P db') \<Longrightarrow> keeps P (stmt f)"
  by (auto simp: keeps_def stmt_def split: outcome.splits)

lemma keeps_GenSQLIn [keeps_intros]: "keeps P (GenSQLIn n)"
  by (simp add: GenSQLIn_def keeps_intros)

lemma keeps_map_labels [keeps_intros]: "keeps P m \<Longrightarrow> keeps P (MapLabelsUniqueConstraintError r n m)"
  unfolding keeps_def MapLabelsUniqueConstraintError_def
  by (auto split: prod.splits outcome.splits state_error.splits db_error.splits)

lemma map_labels_Ok: "MapLabelsUniqueConstraintError r n m db = (Ok x, db') \<longleftrightarrow> m db = (Ok x, db')"
  by (auto simp: MapLabelsUniqueConstraintError_def split: prod.splits outcome.splits state_error.splits db_error.splits)

text \<open>Changes of single columns keep what the invariant says about the other columns.\<close>

lemma rows_ok_map:
  assumes "rows_ok n ids rows"
    and "\<And>r. mm_uid (f r) = mm_uid r" "\<And>r. mm_message_id (f r) = mm_message_id r"
      "\<And>r. mm_message_remote_id (f r) = mm_message_remote_id r"
  shows "rows_ok n ids (map (\<lambda>r. if cond r then f r else r) rows)"
proof -
  have "map mm_uid (map (\<lambda>r. if cond r then f r else r) rows) = map mm_uid rows"
    "map mm_message_id (map (\<lambda>r. if cond r then f r else r) rows) = map mm_message_id rows"
    "map mm_message_remote_id (map (\<lambda>r. if cond r then f r else r) rows) = map mm_message_remote_id rows"
    using assms(2-4) by simp_all
  with assms(1) show ?thesis unfolding rows_ok_def by (simp only:) blast
qed

lemma rows_ok_filter:
  assumes "rows_ok n ids rows"
  shows "rows_ok n ids (filter P rows)"
  using assms unfolding rows_ok_def by (auto simp: sorted_wrt_map sorted_wrt_filter distinct_map_filter)

lemma rows_ok_mono: "rows_ok n ids rows \<Longrightarrow> n \<le> n' \<Longrightarrow> ids \<subseteq> ids' \<Longrightarrow> rows_ok n' ids' rows"
  unfolding rows_ok_def by fastforce

lemma map_cond_id: "(\<And>x. g (f x) = g x) \<Longrightarrow> map g (map (\<lambda>x. if c x then f x else x) xs) = map g xs"
  by simp

lemma contentsD:
  assumes "db_ok db"
  shows "distinct (map fst (t_mailbox_messages db))" "distinct (t_message_to_mailbox db)"
    "contents (map_of (t_mailbox_messages db)) (\<lambda>b. uid_seq b db) (mailbox_ids db) (message_ids db) (set (t_message_to_mailbox db))"
  using assms by (simp_all add: db_ok_def contents_ok_def)

text \<open>Replacing the rows of one mailbox.\<close>

lemma contents_replace:
  assumes "contents T uid boxes ids links" and "T b = Some rows" and "rows_ok (uid b) ids rows'"
    and "set (map mm_message_id rows') = set (map mm_message_id rows)"
  shows "contents (T(b \<mapsto> rows')) uid boxes ids links"
  using assms unfolding contents_def by (auto simp del: set_map split: if_splits)

lemma keeps_update_rows [keeps_intros]:
  assumes "\<And>r. mm_uid (f r) = mm_uid r" "\<And>r. mm_message_id (f r) = mm_message_id r"
    "\<And>r. mm_message_remote_id (f r) = mm_message_remote_id r"
  shows "keeps db_ok (stmt (update_rows b cond f))"
proof (rule keeps_stmt)
  fix db db' assume ok: "db_ok db" and u: "update_rows b cond f db = Ok db'"
  then obtain rows where rows: "map_of (t_mailbox_messages db) b = Some rows"
    and db': "db' = db\<lparr>t_mailbox_messages := AList.update b (map (\<lambda>r. if cond r then f r else r) rows) (t_mailbox_messages db)\<rparr>"
    by (auto simp: update_rows_def split: option.splits)
  note C = contentsD [OF ok]
  have "rows_ok (uid_seq b db) (message_ids db) (map (\<lambda>r. if cond r then f r else r) rows)"
    using C(3) rows assms by (intro rows_ok_map) (auto simp: contents_def)
  moreover have "map mm_message_id (map (\<lambda>r. if cond r then f r else r) rows) = map mm_message_id rows"
    by (rule map_cond_id) (rule assms(2))
  ultimately have "contents ((map_of (t_mailbox_messages db))(b \<mapsto> map (\<lambda>r. if cond r then f r else r) rows))
      (\<lambda>b. uid_seq b db) (mailbox_ids db) (message_ids db) (set (t_message_to_mailbox db))"
    by (intro contents_replace [OF C(3) rows]) (simp_all only:)
  then have "contents_ok db'"
    using C unfolding contents_ok_def db' by (simp add: db_frames distinct_update update_conv')
  with ok show "db_ok db'" unfolding db_ok_def by (simp add: db' db_frames)
qed

lemma contents_ok_mailboxes: "mbx_ID ` set ms = mailbox_ids db \<Longrightarrow> contents_ok (db\<lparr>t_mailboxes := ms\<rparr>) = contents_ok db"
  by (simp add: contents_ok_def db_frames)

lemma contents_ok_messages: "msg_ID ` set ms = message_ids db \<Longrightarrow> contents_ok (db\<lparr>t_messages := ms\<rparr>) = contents_ok db"
  by (simp add: contents_ok_def db_frames)

lemma keeps_update_mailboxes [keeps_intros]:
  assumes "\<And>m. mbx_ID (f m) = mbx_ID m"
  shows "keeps db_ok (stmt (update_mailboxes cond f))"
proof (rule keeps_stmt)
  fix db db' assume ok: "db_ok db" and u: "update_mailboxes cond f db = Ok db'"
  define ms where "ms = map (\<lambda>m. if cond m then f m else m) (t_mailboxes db)"
  have db': "db' = db\<lparr>t_mailboxes := ms\<rparr>" and d: "distinct (map mbx_RemoteID ms)" "distinct (map mbx_Name ms)"
    using u by (auto simp: update_mailboxes_def ms_def [symmetric] Let_def split: if_splits)
  have m: "map mbx_ID ms = map mbx_ID (t_mailboxes db)" unfolding ms_def by (rule map_cond_id) (rule assms)
  then have ids: "mbx_ID ` set ms = mailbox_ids db" unfolding mailbox_ids_def by (metis image_set)
  have "mailboxes_ok db'"
    using ok d m by (simp add: db_ok_def mailboxes_ok_def db' db_frames ids)
  with ok ids show "db_ok db'" unfolding db_ok_def by (simp add: db' db_frames contents_ok_mailboxes)
qed

lemma keeps_update_messages [keeps_intros]:
  assumes "\<And>m. msg_ID (f m) = msg_ID m"
  shows "keeps db_ok (stmt (update_messages cond f))"
proof (rule keeps_stmt)
  fix db db' assume ok: "db_ok db" and u: "update_messages cond f db = Ok db'"
  define ms where "ms = map (\<lambda>m. if cond m then f m else m) (t_messages db)"
  have db': "db' = db\<lparr>t_messages := ms\<rparr>" and d: "distinct (map msg_RemoteID ms)"
    using u by (auto simp: update_messages_def ms_def [symmetric] Let_def split: if_splits)
  have m: "map msg_ID ms = map msg_ID (t_messages db)" unfolding ms_def by (rule map_cond_id) (rule assms)
  then have ids: "msg_ID ` set ms = message_ids db" unfolding message_ids_def by (metis image_set)
  have "messages_ok db'" using ok d m by (simp add: db_ok_def messages_ok_def db' db_frames ids)
  with ok ids show "db_ok db'" unfolding db_ok_def by (simp add: db' db_frames contents_ok_messages)
qed

lemma refers_snoc: "refers ids rows \<Longrightarrow> x \<notin> set rows \<Longrightarrow> fst x \<in> ids \<Longrightarrow> refers ids (rows @ [x])"
  by (auto simp: refers_def)

lemma refers_filter: "refers ids rows \<Longrightarrow> refers ids (filter P rows)"
  by (auto simp: refers_def)

lemma refers_append:
  "refers ids rows \<Longrightarrow> distinct (rows @ xs) \<Longrightarrow> fst ` set xs \<subseteq> ids \<Longrightarrow> refers ids (rows @ xs)"
  by (auto simp: refers_def)

lemma set_add_missing [simp]: "set (add_missing rows xs) = set rows \<union> set xs"
  by (induction rows xs rule: add_missing.induct) auto

lemma distinct_add_missing: "distinct rows \<Longrightarrow> distinct (add_missing rows xs)"
  by (induction rows xs rule: add_missing.induct) auto

lemma refers_add_missing: "refers ids rows \<Longrightarrow> fst ` set xs \<subseteq> ids \<Longrightarrow> refers ids (add_missing rows xs)"
  by (auto simp: refers_def distinct_add_missing)

lemma list_ex_mailbox: "list_ex (\<lambda>m. mbx_ID m = b) (t_mailboxes db) \<longleftrightarrow> b \<in> mailbox_ids db"
  by (auto simp: list_ex_iff mailbox_ids_def)

lemma list_ex_message: "list_ex (\<lambda>m. msg_ID m = i) (t_messages db) \<longleftrightarrow> i \<in> message_ids db"
  by (auto simp: list_ex_iff message_ids_def)

lemma db_ok_set_texts:
  assumes "db_ok db" and "refers (mailbox_ids db) rows"
  shows "db_ok (set_texts t rows db)"
  using assms by (cases t) (simp_all add: db_ok_def mailboxes_ok_def db_frames)

lemma refers_get_texts: "db_ok db \<Longrightarrow> refers (mailbox_ids db) (get_texts t db)"
  by (cases t) (simp_all add: db_ok_def mailboxes_ok_def)

lemma keeps_insert_text [keeps_intros]: "keeps db_ok (stmt (insert_text t b v))"
  by (rule keeps_stmt)
    (auto simp: insert_text_def list_ex_mailbox intro!: db_ok_set_texts refers_snoc refers_get_texts split: if_splits)

lemma keeps_add_texts [keeps_intros]: "keeps db_ok (add_texts_to_all t flags)"
  unfolding add_texts_to_all_def
  by (rule keeps_modify) (auto intro!: db_ok_set_texts refers_add_missing refers_get_texts simp: mailbox_ids_def)

lemma db_ok_message_flags: "db_ok db \<Longrightarrow> refers (message_ids db) rows \<Longrightarrow> db_ok (db\<lparr>t_message_flags := rows\<rparr>)"
  by (simp add: db_ok_def messages_ok_def db_frames)

lemma refers_message_flags: "db_ok db \<Longrightarrow> refers (message_ids db) (t_message_flags db)"
  by (simp add: db_ok_def messages_ok_def)

lemma keeps_insert_message_flags [keeps_intros]: "keeps db_ok (stmt (insert_message_flags rows))"
  by (rule keeps_stmt)
    (auto simp: insert_message_flags_def list_ex_message list_all_iff intro!: db_ok_message_flags refers_append
      refers_message_flags split: if_splits)

lemma keeps_insert_or_ignore [keeps_intros]: "keeps db_ok (stmt (insert_or_ignore_message_flags rows))"
proof (rule keeps_stmt)
  fix db db' assume ok: "db_ok db" and i: "insert_or_ignore_message_flags rows db = Ok db'"
  have "fst ` set (t_message_flags db) \<subseteq> message_ids db" using refers_message_flags [OF ok] by (simp add: refers_def)
  with i have "fst ` set rows \<subseteq> message_ids db"
    by (fastforce simp: insert_or_ignore_message_flags_def list_ex_message list_all_iff split: if_splits)
  with i ok show "db_ok db'"
    by (auto simp: insert_or_ignore_message_flags_def intro!: db_ok_message_flags refers_add_missing refers_message_flags
        split: if_splits)
qed

lemma keeps_delete_message_flags [keeps_intros]: "keeps db_ok (stmt (delete_message_flags cond))"
  by (rule keeps_stmt)
    (auto simp: delete_message_flags_def intro!: db_ok_message_flags refers_filter refers_message_flags)

lemma contents_more_messages: "contents T uid boxes ids links \<Longrightarrow> ids \<subseteq> ids' \<Longrightarrow> contents T uid boxes ids' links"
  unfolding contents_def by (blast intro: rows_ok_mono)

lemma keeps_insert_messages [keeps_intros]: "keeps db_ok (stmt (insert_messages ms))"
proof (rule keeps_stmt)
  fix db db' assume ok: "db_ok db" and i: "insert_messages ms db = Ok db'"
  then have db': "db' = db\<lparr>t_messages := t_messages db @ ms\<rparr>"
    and d: "distinct (map msg_ID (t_messages db @ ms))" "distinct (map msg_RemoteID (t_messages db @ ms))"
    by (auto simp: insert_messages_def split: if_splits)
  have ids: "message_ids db' = message_ids db \<union> msg_ID ` set ms" by (auto simp: db' message_ids_def)
  have "messages_ok db'"
    using ok d ids by (auto simp: db_ok_def messages_ok_def db' refers_def)
  moreover have "contents_ok db'"
    using contentsD [OF ok] contents_more_messages [of _ _ _ "message_ids db" _ "message_ids db'"] ids
    by (simp add: contents_ok_def db' db_frames)
  ultimately show "db_ok db'" using ok unfolding db_ok_def by (simp add: db' db_frames)
qed

lemma contents_fewer_messages:
  assumes "contents T uid boxes ids links" and "\<And>b rows. T b = Some rows \<Longrightarrow> set (map mm_message_id rows) \<subseteq> ids'"
  shows "contents T uid boxes ids' links"
  using assms unfolding contents_def rows_ok_def by blast

lemma keeps_delete_messages [keeps_intros]: "keeps db_ok (stmt (delete_messages ids))"
proof (rule keeps_stmt)
  fix db db' assume ok: "db_ok db" and d: "delete_messages ids db = Ok db'"
  define gone where "gone = filter (\<lambda>i. list_ex (\<lambda>m. msg_ID m = i) (t_messages db)) ids"
  have gone: "set gone = set ids \<inter> message_ids db" by (auto simp: gone_def list_ex_message)
  have db': "db' = db\<lparr>t_messages := filter (\<lambda>m. msg_ID m \<notin> set ids) (t_messages db),
      t_message_flags := filter (\<lambda>x. fst x \<notin> set gone) (t_message_flags db),
      t_message_to_mailbox := filter (\<lambda>x. fst x \<notin> set gone) (t_message_to_mailbox db)\<rparr>"
    and free: "\<And>b rows r. (b, rows) \<in> set (t_mailbox_messages db) \<Longrightarrow> r \<in> set rows \<Longrightarrow> mm_message_id r \<notin> set gone"
    using d [unfolded delete_messages_def Let_def, folded gone_def] by (auto simp: list_ex_iff split: if_splits)
  have ids': "message_ids db' = message_ids db - set ids" by (auto simp: db' message_ids_def)
  note C = contentsD [OF ok]
  have sub: "set (map mm_message_id rows) \<subseteq> message_ids db - set ids" if "map_of (t_mailbox_messages db) b = Some rows" for b rows
  proof -
    have "set (map mm_message_id rows) \<subseteq> message_ids db" using C(3) that unfolding contents_def rows_ok_def by blast
    moreover have "set (map mm_message_id rows) \<inter> set gone = {}" using free [OF map_of_SomeD [OF that]] by auto
    ultimately show ?thesis using gone by blast
  qed
  have "filter (\<lambda>x. fst x \<notin> set gone) (t_message_to_mailbox db) = t_message_to_mailbox db"
  proof (rule filter_True, rule ballI)
    fix x assume "x \<in> set (t_message_to_mailbox db)"
    with C(3) obtain rows where "map_of (t_mailbox_messages db) (snd x) = Some rows" "fst x \<in> set (map mm_message_id rows)"
      unfolding contents_def by (metis prod.collapse)
    with sub gone show "fst x \<notin> set gone" by blast
  qed
  then have "contents_ok db'"
    using C contents_fewer_messages [OF C(3) sub] unfolding contents_ok_def ids' by (simp add: db' db_frames)
  moreover have "messages_ok db'"
    using ok gone unfolding db_ok_def messages_ok_def ids' refers_def
    by (auto simp: db' distinct_map_filter)
  ultimately show "db_ok db'" using ok unfolding db_ok_def by (simp add: db' db_frames)
qed

lemma db_ok_subscriptions:
  "db_ok db \<Longrightarrow> distinct (map ds_Name ds) \<Longrightarrow> distinct (map ds_RemoteID ds) \<Longrightarrow> db_ok (db\<lparr>t_deleted_subscriptions := ds\<rparr>)"
  by (simp add: db_ok_def db_frames subscriptions_ok_def)

lemma subscriptionsD: "db_ok db \<Longrightarrow> distinct (map ds_Name (t_deleted_subscriptions db))"
  "db_ok db \<Longrightarrow> distinct (map ds_RemoteID (t_deleted_subscriptions db))"
  by (simp_all add: db_ok_def subscriptions_ok_def)

lemma keeps_update_subscription [keeps_intros]: "keeps db_ok (stmt (update_deleted_subscription n r))"
proof (rule keeps_stmt)
  fix db db' assume ok: "db_ok db" and u: "update_deleted_subscription n r db = Ok db'"
  define ds where "ds = map (\<lambda>d. if ds_Name d = n then d\<lparr>ds_RemoteID := r\<rparr> else d) (t_deleted_subscriptions db)"
  have "map ds_Name ds = map ds_Name (t_deleted_subscriptions db)" unfolding ds_def by (rule map_cond_id) simp
  with u ok show "db_ok db'"
    by (auto simp: update_deleted_subscription_def ds_def [symmetric] Let_def subscriptionsD
        intro!: db_ok_subscriptions split: if_splits)
qed

lemma keeps_insert_subscription [keeps_intros]: "keeps db_ok (stmt (insert_deleted_subscription n r))"
  by (rule keeps_stmt)
    (auto simp: insert_deleted_subscription_def list_ex_iff subscriptionsD intro!: db_ok_subscriptions split: if_splits)

lemma keeps_AddDeletedSubscription [keeps_intros]: "keeps db_ok (AddDeletedSubscription n r)"
  unfolding AddDeletedSubscription_def by (intro keeps_intros)

lemma keeps_RemoveDeletedSubscription [keeps_intros]: "keeps db_ok (RemoveDeletedSubscriptionWithName n)"
  unfolding RemoveDeletedSubscriptionWithName_def
  by (intro keeps_intros keeps_modify db_ok_subscriptions) (simp_all add: subscriptionsD distinct_map_filter)

section \<open>Operations of several statements\<close>

text \<open>A new mailbox: the row and the table of its messages.\<close>

lemma new_id_fresh:
  assumes "db_ok db" and "t_mailbox_seq db < max_rowid"
  shows "of_nat (t_mailbox_seq db + 1) \<notin> mailbox_ids db" "unat (of_nat (t_mailbox_seq db + 1) :: 64 word) = t_mailbox_seq db + 1"
proof -
  show u: "unat (of_nat (t_mailbox_seq db + 1) :: 64 word) = t_mailbox_seq db + 1"
    using assms(2) by (simp only: unat_of_nat) (simp add: max_rowid_def)
  show "of_nat (t_mailbox_seq db + 1) \<notin> mailbox_ids db"
  proof
    assume "of_nat (t_mailbox_seq db + 1) \<in> mailbox_ids db"
    then have "unat (of_nat (t_mailbox_seq db + 1) :: 64 word) \<le> t_mailbox_seq db"
      using assms(1) unfolding db_ok_def mailboxes_ok_def by blast
    with u show False by simp
  qed
qed

definition with_mailbox :: "Mailbox \<Rightarrow> database \<Rightarrow> database" where
  "with_mailbox m db = db\<lparr>t_mailboxes := t_mailboxes db @ [m], t_mailbox_seq := t_mailbox_seq db + 1,
     t_mailbox_messages := t_mailbox_messages db @ [(mbx_ID m, [])]\<rparr>"

lemma refers_mono: "refers ids rows \<Longrightarrow> ids \<subseteq> ids' \<Longrightarrow> refers ids' rows"
  by (auto simp: refers_def)

lemma db_ok_with_mailbox:
  assumes ok: "db_ok db" and seq: "t_mailbox_seq db < max_rowid"
    and r: "r \<notin> mbx_RemoteID ` set (t_mailboxes db)" and n: "n \<notin> mbx_Name ` set (t_mailboxes db)"
  shows "db_ok (with_mailbox (new_mailbox r n v db) db)" (is "db_ok ?db")
proof -
  let ?b = "of_nat (t_mailbox_seq db + 1) :: 64 word"
  note C = contentsD [OF ok] and F = new_id_fresh [OF ok seq]
  have ids: "mailbox_ids ?db = insert ?b (mailbox_ids db)" by (auto simp: with_mailbox_def mailbox_ids_def new_mailbox_def)
  have le: "\<forall>b \<in> mailbox_ids db. unat b \<le> t_mailbox_seq db + 1" using ok by (fastforce simp: db_ok_def mailboxes_ok_def)
  have "mailboxes_ok ?db"
    using ok F le r n seq unfolding mailboxes_ok_def ids db_ok_def
    by (auto simp: with_mailbox_def new_mailbox_def mailbox_ids_def intro: refers_mono)
  moreover have none: "map_of (t_mailbox_messages db) ?b = None"
    using C(3) F(1) unfolding contents_def by auto
  have T: "map_of (t_mailbox_messages db @ [(?b, [])]) = (map_of (t_mailbox_messages db))(?b \<mapsto> [])"
    using none by (auto simp: fun_eq_iff map_add_def split: option.splits)
  have "contents_ok ?db"
  proof -
    have "distinct (map fst (t_mailbox_messages db @ [(?b, [])]))"
      using C(1) none by (auto simp: map_of_eq_None_iff)
    moreover have "contents ((map_of (t_mailbox_messages db))(?b \<mapsto> [])) (\<lambda>b. uid_seq b db) (insert ?b (mailbox_ids db))
        (message_ids db) (set (t_message_to_mailbox db))"
      using C(3) none unfolding contents_def by (auto simp: rows_ok_def split: if_splits)
    ultimately show ?thesis
      using C(2) unfolding contents_ok_def ids T [symmetric] by (simp add: with_mailbox_def new_mailbox_def db_frames)
  qed
  ultimately show ?thesis using ok unfolding db_ok_def by (simp add: with_mailbox_def db_frames)
qed

lemma create_mailbox_start:
  assumes "db_ok db"
    and "act_then (MapLabelsUniqueConstraintError r n (stmt (insert_mailbox r n v)))
           (stmt (create_mailbox_table (mbx_ID (new_mailbox r n v db)))) db = (Ok u, db')"
  shows "db' = with_mailbox (new_mailbox r n v db) db \<and> db_ok db'"
proof -
  from assms(2) obtain db1 where i: "insert_mailbox r n v db = Ok db1"
    and c: "create_mailbox_table (mbx_ID (new_mailbox r n v db)) db1 = Ok db'"
    by (auto simp: then_Ok_iff map_labels_Ok stmt_Ok)
  have pre: "t_mailbox_seq db < max_rowid" "r \<notin> mbx_RemoteID ` set (t_mailboxes db)" "n \<notin> mbx_Name ` set (t_mailboxes db)"
    using i by (auto simp: insert_mailbox_def list_ex_iff split: if_splits)
  have "db' = with_mailbox (new_mailbox r n v db) db"
    using i c by (auto simp: insert_mailbox_def create_mailbox_table_def with_mailbox_def split: if_splits)
  with db_ok_with_mailbox [OF assms(1) pre] show ?thesis by simp
qed

lemma commits_CreateMailbox [commits_intros]: "commits db_ok (CreateMailbox r n fl pf at v)"
proof (rule commitsI)
  fix db x db' assume ok: "db_ok db" and c: "CreateMailbox r n fl pf at v db = (Ok x, db')"
  let ?m = "new_mailbox r n v db"
  let ?texts = "\<lambda>t vs. for_each (\<lambda>f. stmt (insert_text t (mbx_ID ?m) f)) (Values vs)"
  let ?start = "act_then (MapLabelsUniqueConstraintError r n (stmt (insert_mailbox r n v))) (stmt (create_mailbox_table (mbx_ID ?m)))"
  let ?rest = "act_then (?texts Mailbox_flags fl) (act_then (?texts Mailbox_perm_flags pf) (act_then (?texts Mailbox_attrs at) (ret ?m)))"
  have "act_then ?start ?rest db = (Ok x, db')"
    using c by (simp add: CreateMailbox_def bind_apply reads_apply then_assoc)
  then obtain u db1 where 1: "?start db = (Ok u, db1)" and 2: "?rest db1 = (Ok x, db')"
    by (auto simp: then_Ok_iff [of ?start])
  from create_mailbox_start [OF ok 1] have "db_ok db1" ..
  moreover have "keeps db_ok ?rest" by (intro keeps_intros keeps_for_each)
  ultimately show "db_ok db'" using 2 by (blast intro: keeps_state)
qed

lemma commits_GetOrCreate [commits_intros]:
  "commits db_ok (GetOrCreateMailbox r n fl pf at v)" "commits db_ok (GetOrCreateMailboxAlt mb del v)"
  "commits db_ok (CreateMailboxIfNotExists mb del v)"
  unfolding GetOrCreateMailbox_def GetOrCreateMailboxAlt_def CreateMailboxIfNotExists_def
  by (intro commits_intros keeps_intros)+

text \<open>Deleting a mailbox: its table, its row and everything that refers to it.\<close>

definition without_mailbox :: "Mailbox \<Rightarrow> database \<Rightarrow> database" where
  "without_mailbox m db = db\<lparr>t_mailboxes := filter (\<lambda>m'. mbx_RemoteID m' \<noteq> mbx_RemoteID m) (t_mailboxes db),
     t_mailbox_flags := filter (\<lambda>x. fst x \<noteq> mbx_ID m) (t_mailbox_flags db),
     t_mailbox_perm_flags := filter (\<lambda>x. fst x \<noteq> mbx_ID m) (t_mailbox_perm_flags db),
     t_mailbox_attrs := filter (\<lambda>x. fst x \<noteq> mbx_ID m) (t_mailbox_attrs db),
     t_message_to_mailbox := filter (\<lambda>x. snd x \<noteq> mbx_ID m) (t_message_to_mailbox db),
     t_mailbox_messages := AList.delete (mbx_ID m) (t_mailbox_messages db),
     t_uid_seq := AList.delete (mbx_ID m) (t_uid_seq db)\<rparr>"

lemma query_row_Ok: "query_row rows = Ok x \<Longrightarrow> x \<in> set rows"
  by (cases rows) (auto simp: query_row_def)

lemma mailbox_with_remote:
  assumes "db_ok db" and "GetMailboxByRemoteID r db = Ok m"
  shows "m \<in> set (t_mailboxes db)" "mbx_RemoteID m = r"
    "\<And>m'. m' \<in> set (t_mailboxes db) \<Longrightarrow> mbx_RemoteID m' = r \<longleftrightarrow> m' = m"
    "\<And>m'. m' \<in> set (t_mailboxes db) \<Longrightarrow> mbx_ID m' = mbx_ID m \<longleftrightarrow> m' = m"
proof -
  have "m \<in> set (filter (\<lambda>m. mbx_RemoteID m = r) (t_mailboxes db))"
    using assms(2) unfolding GetMailboxByRemoteID_def by (rule query_row_Ok)
  then show m: "m \<in> set (t_mailboxes db)" "mbx_RemoteID m = r" by auto
  have d: "inj_on mbx_RemoteID (set (t_mailboxes db))" "inj_on mbx_ID (set (t_mailboxes db))"
    using assms(1) by (simp_all add: db_ok_def mailboxes_ok_def distinct_map)
  show "mbx_RemoteID m' = r \<longleftrightarrow> m' = m" "mbx_ID m' = mbx_ID m \<longleftrightarrow> m' = m" if "m' \<in> set (t_mailboxes db)" for m'
    using d m that by (auto dest: inj_onD)
qed

lemma contents_remove:
  assumes "contents T uid boxes ids links"
  shows "contents (T(b := None)) (\<lambda>b'. if b' = b then 0 else uid b') (boxes - {b}) ids {x \<in> links. snd x \<noteq> b}"
  using assms unfolding contents_def by (auto split: if_splits)

lemma refers_remove: "refers ids rows \<Longrightarrow> refers (ids - {b}) (filter (\<lambda>x. fst x \<noteq> b) rows)"
  by (auto simp: refers_def)

lemma db_ok_without_mailbox:
  assumes ok: "db_ok db" and m: "GetMailboxByRemoteID r db = Ok m"
  shows "db_ok (without_mailbox m db)" (is "db_ok ?db")
proof -
  note M = mailbox_with_remote [OF ok m] and C = contentsD [OF ok]
  have ids: "mailbox_ids ?db = mailbox_ids db - {mbx_ID m}"
    using M by (auto simp: without_mailbox_def mailbox_ids_def)
  have msgs: "message_ids ?db = message_ids db" by (simp add: without_mailbox_def db_frames)
  have uid: "uid_seq b ?db = (if b = mbx_ID m then 0 else uid_seq b db)" for b
    by (simp add: without_mailbox_def uid_seq_def delete_conv')
  have "mailboxes_ok ?db"
    using ok unfolding mailboxes_ok_def ids db_ok_def
    by (auto simp: without_mailbox_def distinct_map_filter refers_remove)
  moreover have "contents_ok ?db"
    unfolding contents_ok_def ids msgs uid
    using C(1,2) contents_remove [OF C(3), of "mbx_ID m"]
    by (simp add: without_mailbox_def delete_conv' distinct_delete)
  ultimately show ?thesis using ok unfolding db_ok_def by (simp add: without_mailbox_def db_frames)
qed

lemma GetMailboxByRemoteID_subscriptions:
  "AddDeletedSubscription n r' db = (x, db1) \<Longrightarrow> GetMailboxByRemoteID r db1 = GetMailboxByRemoteID r db"
  by (auto simp: AddDeletedSubscription_def act_simps stmt_def update_deleted_subscription_def
      insert_deleted_subscription_def GetMailboxByRemoteID_def Let_def split: if_splits prod.splits outcome.splits)

text \<open>After the first step the mailbox is still there, its table can be dropped, and its row can be deleted.\<close>

lemma delete_steps:
  assumes ok: "db_ok db" and m: "GetMailboxByRemoteID r db = Ok m"
  shows "\<exists>db1. drop_mailbox_table (mbx_ID m) db = Ok db1 \<and> delete_mailbox r db1 = Ok (without_mailbox m db)"
proof -
  note M = mailbox_with_remote [OF ok m] and C = contentsD [OF ok]
  have "mbx_ID m \<in> dom (map_of (t_mailbox_messages db))"
    using C(3) M(1) unfolding contents_def by (simp add: mailbox_ids_def)
  moreover have "set (map mbx_ID (filter (\<lambda>m'. mbx_RemoteID m' = r) (t_mailboxes db))) = {mbx_ID m}"
    using M by auto
  ultimately show ?thesis
    using M(2) by (auto simp: drop_mailbox_table_def delete_mailbox_def without_mailbox_def Let_def)
qed

text \<open>Both deletions keep an invariant if its steps do; the steps do not fail in a consistent database.\<close>

lemma keeps_DeleteMailbox_if:
  assumes inv: "\<And>db. P db \<Longrightarrow> db_ok db" and sub: "\<And>n r. keeps P (AddDeletedSubscription n r)"
    and del: "\<And>db m. P db \<Longrightarrow> GetMailboxByRemoteID r db = Ok m \<Longrightarrow> P (without_mailbox m db)"
  shows "keeps P (DeleteMailboxWithRemoteID r)"
proof (rule keepsI)
  fix db assume ok: "P db"
  show "P (snd (DeleteMailboxWithRemoteID r db))"
  proof (cases "GetMailboxByRemoteID r db")
    case (Ok m)
    obtain out db1 where a: "(if mbx_Subscribed m then AddDeletedSubscription (mbx_Name m) r else ret ()) db = (out, db1)"
      by fastforce
    have "keeps P (if mbx_Subscribed m then AddDeletedSubscription (mbx_Name m) r else ret ())" by (intro keeps_intros sub)
    from keeps_state [OF this a ok] have ok1: "P db1" .
    have m1: "GetMailboxByRemoteID r db1 = Ok m"
      using a Ok by (auto simp: act_simps GetMailboxByRemoteID_subscriptions split: if_splits)
    from delete_steps [OF inv [OF ok1] m1] del [OF ok1 m1] ok1 show ?thesis
      using a Ok by (cases out) (auto simp: DeleteMailboxWithRemoteID_def act_simps stmt_def)
  qed (use ok in \<open>auto simp: DeleteMailboxWithRemoteID_def act_simps\<close>)
qed

lemma keeps_DeleteMailboxSilent_if:
  assumes inv: "\<And>db. P db \<Longrightarrow> db_ok db" and sub: "\<And>n r. keeps P (AddDeletedSubscription n r)"
    and del: "\<And>db m. P db \<Longrightarrow> GetMailboxByRemoteID r db = Ok m \<Longrightarrow> P (without_mailbox m db)"
  shows "keeps P (DeleteMailboxWithRemoteIDSilent r)"
proof (rule keepsI)
  fix db assume ok: "P db"
  show "P (snd (DeleteMailboxWithRemoteIDSilent r db))"
  proof (cases "GetMailboxByRemoteID r db")
    case (Ok m)
    let ?a = "if mbx_Subscribed m then collect (AddDeletedSubscription (mbx_Name m) r) [] else ret []"
    obtain out db1 where a: "?a db = (out, db1)" by fastforce
    have "keeps P ?a" unfolding collect_def by (intro keeps_intros sub)
    from keeps_state [OF this a ok] have ok1: "P db1" .
    have m1: "GetMailboxByRemoteID r db1 = Ok m"
    proof (cases "mbx_Subscribed m")
      case True
      obtain z db2 where z: "AddDeletedSubscription (mbx_Name m) r db = (z, db2)" by fastforce
      with a True have "db2 = db1" by (cases z) (auto simp: collect_def act_simps)
      with GetMailboxByRemoteID_subscriptions [OF z, of r] Ok show ?thesis by simp
    qed (use a Ok in \<open>simp add: act_simps\<close>)
    from delete_steps [OF inv [OF ok1] m1] del [OF ok1 m1] ok1 show ?thesis
      using a Ok by (cases out) (auto simp: DeleteMailboxWithRemoteIDSilent_def collect_def act_simps stmt_def)
  qed (use ok in \<open>auto simp: DeleteMailboxWithRemoteIDSilent_def act_simps\<close>)
qed

lemma keeps_DeleteMailbox [keeps_intros]:
  "keeps db_ok (DeleteMailboxWithRemoteID r)" "keeps db_ok (DeleteMailboxWithRemoteIDSilent r)"
  by (rule keeps_DeleteMailbox_if keeps_DeleteMailboxSilent_if; (assumption | intro keeps_intros db_ok_without_mailbox; assumption))+

text \<open>Adding messages to a mailbox: rows with fresh UIDs and links.\<close>

lemma new_rows_columns:
  "map mm_uid (new_rows n ids) = [n + 1..<n + 1 + length ids]"
  "map mm_message_id (new_rows n ids) = map InternalID ids"
  "map mm_message_remote_id (new_rows n ids) = map RemoteID ids"
proof -
  have "map mm_uid (new_rows n ids) = map (\<lambda>k. k + (n + 1)) (map fst (enumerate 0 ids))"
    unfolding new_rows_def map_map by (rule map_cong) auto
  also have "\<dots> = [n + 1..<n + 1 + length ids]" by (simp only: map_fst_enumerate map_add_upt) (simp add: add.commute)
  finally show "map mm_uid (new_rows n ids) = [n + 1..<n + 1 + length ids]" .
  have "map mm_message_id (new_rows n ids) = map InternalID (map snd (enumerate 0 ids))"
    unfolding new_rows_def map_map by (rule map_cong) auto
  then show "map mm_message_id (new_rows n ids) = map InternalID ids" by simp
  have "map mm_message_remote_id (new_rows n ids) = map RemoteID (map snd (enumerate 0 ids))"
    unfolding new_rows_def map_map by (rule map_cong) auto
  then show "map mm_message_remote_id (new_rows n ids) = map RemoteID ids" by simp
qed

lemma rows_ok_append:
  assumes ok: "rows_ok n ids rows" and "distinct (map mm_message_id rows @ map InternalID xs)"
    and "distinct (map mm_message_remote_id rows @ map RemoteID xs)" and "set (map InternalID xs) \<subseteq> ids"
  shows "rows_ok (n + length xs) ids (rows @ new_rows n xs)"
proof -
  have "sorted_wrt (<) (map mm_uid rows @ [n + 1..<n + 1 + length xs])"
    using ok sorted_wrt_upt unfolding rows_ok_def sorted_wrt_append by (auto simp del: set_map upt_Suc)
  moreover have "\<forall>u \<in> set (map mm_uid rows @ [n + 1..<n + 1 + length xs]). 0 < u \<and> u \<le> n + length xs"
    using ok unfolding rows_ok_def by (auto simp del: set_map upt_Suc)
  ultimately show ?thesis using assms unfolding rows_ok_def map_append new_rows_columns
    by (simp only: set_append Un_subset_iff simp_thms)
qed

definition with_messages :: "InternalMailboxID \<Rightarrow> mm_row list \<Rightarrow> MessageIDPair list \<Rightarrow> database \<Rightarrow> database" where
  "with_messages b rows ids db = db\<lparr>
     t_mailbox_messages := AList.update b (rows @ new_rows (uid_seq b db) ids) (t_mailbox_messages db),
     t_uid_seq := AList.update b (uid_seq b db + length ids) (t_uid_seq db),
     t_message_to_mailbox := t_message_to_mailbox db @ map (\<lambda>i. (InternalID i, b)) ids\<rparr>"

lemma contents_extend:
  assumes "contents T uid boxes ids links" and "T b = Some rows" and "rows_ok k ids rows'" and "uid b \<le> k"
    and "set (map mm_message_id rows') = set (map mm_message_id rows) \<union> new"
  shows "contents (T(b \<mapsto> rows')) (\<lambda>b'. if b' = b then k else uid b') boxes ids (links \<union> (\<lambda>i. (i, b)) ` new)"
  using assms unfolding contents_def by (auto simp del: set_map split: if_splits)

lemma db_ok_with_messages:
  assumes ok: "db_ok db" and rows: "map_of (t_mailbox_messages db) b = Some rows"
    and d: "distinct (map mm_message_id rows @ map InternalID ids)"
      "distinct (map mm_message_remote_id rows @ map RemoteID ids)"
    and ex: "set (map InternalID ids) \<subseteq> message_ids db"
  shows "db_ok (with_messages b rows ids db)" (is "db_ok ?db")
    and "distinct (t_message_to_mailbox db @ map (\<lambda>i. (InternalID i, b)) ids)"
proof -
  note C = contentsD [OF ok]
  have fresh: "(i, b) \<notin> set (t_message_to_mailbox db)" if "i \<in> set (map InternalID ids)" for i
    using C(3) rows d(1) that unfolding contents_def by auto
  then show dl: "distinct (t_message_to_mailbox db @ map (\<lambda>i. (InternalID i, b)) ids)"
    using C(2) d(1) by (auto simp: distinct_map inj_on_def)
  have "rows_ok (uid_seq b db) (message_ids db) rows" using C(3) rows unfolding contents_def by blast
  from rows_ok_append [OF this d ex]
  have "rows_ok (uid_seq b db + length ids) (message_ids db) (rows @ new_rows (uid_seq b db) ids)" .
  from contents_extend [OF C(3) rows this, of "set (map InternalID ids)"]
  have "contents ((map_of (t_mailbox_messages db))(b \<mapsto> rows @ new_rows (uid_seq b db) ids))
      (\<lambda>b'. if b' = b then uid_seq b db + length ids else uid_seq b' db) (mailbox_ids db) (message_ids db)
      (set (t_message_to_mailbox db) \<union> (\<lambda>i. (i, b)) ` set (map InternalID ids))"
    by (simp only: map_append new_rows_columns set_append le_add1 simp_thms)
  moreover have "(\<lambda>b'. uid_seq b' ?db) = (\<lambda>b'. if b' = b then uid_seq b db + length ids else uid_seq b' db)"
    by (auto simp: with_messages_def uid_seq_def update_conv')
  ultimately have "contents_ok ?db"
    using C(1) dl unfolding contents_ok_def
    by (simp add: with_messages_def update_conv' distinct_update mailbox_ids_def message_ids_def image_image)
  then show "db_ok ?db" using ok unfolding db_ok_def by (simp add: with_messages_def db_frames)
qed

definition add_chunk :: "InternalMailboxID \<Rightarrow> MessageIDPair list \<Rightarrow> unit tx" where
  "add_chunk b ids = act_then (stmt (insert_rows_of_mailbox b ids)) (stmt (insert_links b (map InternalID ids)))"

lemma list_all_ids:
  "list_all (\<lambda>i. list_ex (\<lambda>m. msg_ID m = InternalID i) (t_messages db)) ids
     \<longleftrightarrow> set (map InternalID ids) \<subseteq> message_ids db"
  by (auto simp: list_all_iff list_ex_message)

lemma add_chunk_cases:
  assumes ok: "db_ok db"
  obtains (refused) e where "add_chunk b ids db = (Err e, db)"
  | (added) rows where "add_chunk b ids db = (Ok (), with_messages b rows ids db)"
      and "map_of (t_mailbox_messages db) b = Some rows"
      and "distinct (map mm_message_id rows @ map InternalID ids)"
      and "distinct (map mm_message_remote_id rows @ map RemoteID ids)"
      and "set (map InternalID ids) \<subseteq> message_ids db"
      and "uid_seq b db + length ids \<le> max_rowid"
proof (cases "insert_rows_of_mailbox b ids db")
  case (Ok db1)
  from Ok obtain rows where r: "map_of (t_mailbox_messages db) b = Some rows"
      "distinct (map mm_message_id rows @ map InternalID ids)"
      "distinct (map mm_message_remote_id rows @ map RemoteID ids)"
      "set (map InternalID ids) \<subseteq> message_ids db" "uid_seq b db + length ids \<le> max_rowid"
    and db1: "db1 = db\<lparr>t_mailbox_messages := AList.update b (rows @ new_rows (uid_seq b db) ids) (t_mailbox_messages db),
        t_uid_seq := AList.update b (uid_seq b db + length ids) (t_uid_seq db)\<rparr>"
    unfolding insert_rows_of_mailbox_def list_all_ids
    by (auto simp del: map_append distinct_append set_map split: option.splits if_splits)
  have "b \<in> mailbox_ids db" using contentsD(3) [OF ok] r(1) unfolding contents_def by auto
  then have b: "list_ex (\<lambda>m. mbx_ID m = b) (t_mailboxes db1)" by (auto simp: db1 mailbox_ids_def list_ex_iff)
  have m: "list_all (\<lambda>i. list_ex (\<lambda>m. msg_ID m = i) (t_messages db1)) (map InternalID ids)"
    using r(4) by (auto simp: db1 list_ex_message list_all_iff)
  have "distinct (t_message_to_mailbox db1 @ map (\<lambda>i. (i, b)) (map InternalID ids))"
    using db_ok_with_messages(2) [OF ok r(1-4)] by (simp add: db1 comp_def)
  then have "insert_links b (map InternalID ids) db1 = Ok (with_messages b rows ids db)"
    using b m unfolding insert_links_def by (simp add: with_messages_def db1 comp_def)
  then have "add_chunk b ids db = (Ok (), with_messages b rows ids db)"
    unfolding add_chunk_def by (simp add: act_simps stmt_def Ok)
  from added [OF this r] show thesis .
next
  case (Err e)
  then show thesis by (intro refused) (simp add: add_chunk_def act_simps stmt_def)
next
  case (Panic p)
  then show thesis by (auto simp: insert_rows_of_mailbox_def split: option.splits if_splits)
qed

lemma keeps_add_chunk [keeps_intros]: "keeps db_ok (add_chunk b ids)"
proof (rule keepsI)
  fix db assume ok: "db_ok db"
  show "db_ok (snd (add_chunk b ids db))"
    by (rule add_chunk_cases [OF ok, of b ids]) (simp_all only: snd_conv ok db_ok_with_messages)
qed

lemma AddMessagesToMailbox_chunks:
  "AddMessagesToMailbox_db b ids =
     (if ids = [] then ret []
      else act_then (for_each (add_chunk b) (chunk (ChunkLimit div 2) ids))
        (reads (GetMailboxMessageUIDsWithFlagsAfterAddOrUIDBump b (map InternalID ids))))"
  unfolding AddMessagesToMailbox_db_def add_chunk_def ..

lemma keeps_AddMessagesToMailbox [keeps_intros]: "keeps db_ok (AddMessagesToMailbox_db b ids)"
  unfolding AddMessagesToMailbox_chunks by (intro keeps_intros keeps_for_each)

text \<open>Removing messages from a mailbox: rows and links.\<close>

definition without_messages :: "InternalMailboxID \<Rightarrow> mm_row list \<Rightarrow> InternalMessageID set \<Rightarrow> database \<Rightarrow> database" where
  "without_messages b rows gone db = db\<lparr>
     t_mailbox_messages := AList.update b (filter (\<lambda>r. mm_message_id r \<notin> gone) rows) (t_mailbox_messages db),
     t_message_to_mailbox := filter (\<lambda>(i, b'). \<not> (i \<in> gone \<and> b' = b)) (t_message_to_mailbox db)\<rparr>"

lemma contents_shrink:
  assumes "contents T uid boxes ids links" and "T b = Some rows" and "rows_ok (uid b) ids rows'"
    and "set (map mm_message_id rows') = set (map mm_message_id rows) - gone"
  shows "contents (T(b \<mapsto> rows')) uid boxes ids {(i, b') \<in> links. \<not> (i \<in> gone \<and> b' = b)}"
  using assms unfolding contents_def by (auto simp del: set_map split: if_splits)

lemma db_ok_without_messages:
  assumes ok: "db_ok db" and rows: "map_of (t_mailbox_messages db) b = Some rows"
  shows "db_ok (without_messages b rows gone db)" (is "db_ok ?db")
proof -
  note C = contentsD [OF ok]
  have "rows_ok (uid_seq b db) (message_ids db) rows" using C(3) rows unfolding contents_def by blast
  from contents_shrink [OF C(3) rows rows_ok_filter [OF this], of "\<lambda>r. mm_message_id r \<notin> gone" gone]
  have "contents ((map_of (t_mailbox_messages db))(b \<mapsto> filter (\<lambda>r. mm_message_id r \<notin> gone) rows))
      (\<lambda>b. uid_seq b db) (mailbox_ids db) (message_ids db)
      {(i, b') \<in> set (t_message_to_mailbox db). \<not> (i \<in> gone \<and> b' = b)}" by auto
  then have "contents_ok ?db"
    using C(1,2) unfolding contents_ok_def
    by (simp add: without_messages_def update_conv' distinct_update db_frames case_prod_unfold)
  then show ?thesis using ok unfolding db_ok_def by (simp add: without_messages_def db_frames)
qed

lemma bind_args_exact: "bind_args policy (length args) args = Some args"
  by (simp add: bind_args_def)

lemma RemoveMessagesFromMailbox_one_chunk:
  assumes "ids \<noteq> []" and "length ids \<le> ChunkLimit"
  shows "RemoveMessagesFromMailbox_db policy b ids =
    act_then (stmt (delete_rows b (\<lambda>r. mm_message_id r \<in> set ids)))
      (stmt (delete_links (\<lambda>(i, b'). i \<in> set ids \<and> b' = b)))"
proof -
  have "bind_args policy (length ids) (map Arg_message ids) = Some (map Arg_message ids)"
    using bind_args_exact [of policy "map Arg_message ids"] by simp
  moreover have "bind_args policy (length ids + 1) (map Arg_message ids @ [Arg_mailbox b])
      = Some (map Arg_message ids @ [Arg_mailbox b])"
    using bind_args_exact [of policy "map Arg_message ids @ [Arg_mailbox b]"] by simp
  moreover have "chunk ChunkLimit ids = [ids]" using assms by (rule chunk_short)
  ultimately show ?thesis
    unfolding RemoveMessagesFromMailbox_db_def by (auto simp: fun_eq_iff act_simps image_iff split: prod.splits outcome.splits)
qed

lemma RemoveMessagesFromMailbox_result:
  assumes "ids \<noteq> []" and "length ids \<le> ChunkLimit"
  shows "RemoveMessagesFromMailbox_db policy b ids db =
    (case map_of (t_mailbox_messages db) b of
       None \<Rightarrow> (Err (ErrDB (DB_no_such_table (MailboxMessageTableName b))), db)
     | Some rows \<Rightarrow> (Ok (), without_messages b rows (set ids) db))"
  unfolding RemoveMessagesFromMailbox_one_chunk [OF assms]
  by (auto simp: act_simps stmt_def delete_rows_def delete_links_def without_messages_def split_def split: option.splits)

lemma keeps_RemoveMessagesFromMailbox:
  assumes "length ids \<le> ChunkLimit"
  shows "keeps db_ok (RemoveMessagesFromMailbox_db policy b ids)"
proof (cases "ids = []")
  case True
  then show ?thesis unfolding RemoveMessagesFromMailbox_db_def by (simp add: chunk_Nil keeps_intros)
next
  case False
  show ?thesis by (rule keepsI)
    (simp add: RemoveMessagesFromMailbox_result [OF False assms] db_ok_without_messages split: option.split)
qed

text \<open>A new message in a mailbox: the link comes before the row, which makes no difference.\<close>

lemma link_then_row:
  assumes ok: "db_ok db" and l: "insert_links b [i] db = Ok db1" and r: "insert_rows_of_mailbox b [\<lparr>InternalID = i, RemoteID = rid\<rparr>] db1 = Ok db2"
  shows "add_chunk b [\<lparr>InternalID = i, RemoteID = rid\<rparr>] db = (Ok (), db2)"
proof -
  let ?p = "\<lparr>InternalID = i, RemoteID = rid\<rparr>"
  have db1: "db1 = db\<lparr>t_message_to_mailbox := t_message_to_mailbox db @ [(i, b)]\<rparr>"
    using l by (auto simp: insert_links_def split: if_splits)
  from r obtain rows where rows: "map_of (t_mailbox_messages db) b = Some rows"
    and db2: "db2 = with_messages b rows [?p] db"
    and ins: "\<exists>d. insert_rows_of_mailbox b [?p] db = Ok d"
    unfolding insert_rows_of_mailbox_def
    by (auto simp: db1 with_messages_def uid_seq_def split: option.splits if_splits)
  show ?thesis
  proof (rule add_chunk_cases [OF ok, of b "[?p]"])
    fix e assume "add_chunk b [?p] db = (Err e, db)"
    then have False using ins l
      by (auto simp: add_chunk_def act_simps stmt_def insert_rows_of_mailbox_def insert_links_def split: outcome.splits option.splits if_splits)
    then show ?thesis ..
  next
    fix rows' assume "add_chunk b [?p] db = (Ok (), with_messages b rows' [?p] db)" "map_of (t_mailbox_messages db) b = Some rows'"
    with rows db2 show ?thesis by simp
  qed
qed

lemma commits_CreateMessageAndAddToMailbox [commits_intros]: "commits db_ok (CreateMessageAndAddToMailbox b req)"
proof (rule commitsI)
  fix db x db' assume ok: "db_ok db" and run: "CreateMessageAndAddToMailbox b req db = (Ok x, db')"
  let ?start = "act_then (stmt (insert_messages [req_message req]))
    (if Len (imsg_Flags (cr_Message req)) \<noteq> 0 then stmt (insert_message_flags (req_flags req)) else ret ())"
  from run obtain db1 db2 where s: "?start db = (Ok (), db1)" and l: "insert_links b [cr_InternalID req] db1 = Ok db2"
    and r: "insert_rows_of_mailbox b [\<lparr>InternalID = cr_InternalID req, RemoteID = imsg_ID (cr_Message req)\<rparr>] db2 = Ok db'"
    unfolding CreateMessageAndAddToMailbox_def
    by (auto simp: act_simps stmt_def split: outcome.splits prod.splits if_splits)
  have "keeps db_ok ?start" by (intro keeps_intros)
  from keeps_state [OF this s ok] have ok1: "db_ok db1" .
  from keeps_state [OF keeps_add_chunk link_then_row [OF ok1 l r] ok1] show "db_ok db'" .
qed

section \<open>The other operations\<close>

lemma keeps_UpdatedNotZero [keeps_intros]: "(\<And>m. mbx_ID (f m) = mbx_ID m) \<Longrightarrow> keeps db_ok (UpdatedNotZero cond f)"
  unfolding UpdatedNotZero_def by (intro keeps_intros)

lemma keeps_mailbox_operations [keeps_intros]:
  "keeps db_ok (RenameMailboxWithRemoteID r n)"
  "keeps db_ok (ClearRecentFlagInMailboxOnMessage b i)"
  "keeps db_ok (ClearRecentFlagsInMailbox b)"
  "keeps db_ok (SetMailboxMessagesDeletedFlag b ids d)"
  "keeps db_ok (SetMailboxSubscribed b d)"
  "keeps db_ok (UpdateRemoteMailboxID b r)"
  "keeps db_ok (SetMailboxUIDValidity b v)"
  "keeps db_ok (AddFlagsToAllMailboxes fs)"
  "keeps db_ok (AddPermFlagsToAllMailboxes fs)"
  unfolding RenameMailboxWithRemoteID_def ClearRecentFlagInMailboxOnMessage_def ClearRecentFlagsInMailbox_def
    SetMailboxMessagesDeletedFlag_def SetMailboxSubscribed_def UpdateRemoteMailboxID_def SetMailboxUIDValidity_def
    AddFlagsToAllMailboxes_def AddPermFlagsToAllMailboxes_def
  by (intro keeps_intros keeps_for_each; simp)+

lemma keeps_message_operations [keeps_intros]:
  "keeps db_ok (CreateMessages reqs)"
  "keeps db_ok (MarkMessageAsDeleted i)"
  "keeps db_ok (MarkMessageAsDeletedAndAssignRandomRemoteID uuid i)"
  "keeps db_ok (MarkMessageAsDeletedWithRemoteID mr)"
  "keeps db_ok (DeleteMessages ids)"
  "keeps db_ok (UpdateRemoteMessageID i mr)"
  "keeps db_ok (AddFlagToMessages ids fl)"
  "keeps db_ok (RemoveFlagFromMessages ids fl)"
  unfolding CreateMessages_def MarkMessageAsDeleted_def MarkMessageAsDeletedAndAssignRandomRemoteID_def
    MarkMessageAsDeletedWithRemoteID_def DeleteMessages_def UpdateRemoteMessageID_def AddFlagToMessages_def
    RemoveFlagFromMessages_def
  by (intro keeps_intros keeps_for_each; simp)+

lemma keeps_SetFlagsOnMessages [keeps_intros]: "keeps db_ok (SetFlagsOnMessages policy ids fs)"
  unfolding SetFlagsOnMessages_def Let_def
  by (intro keeps_intros keeps_for_each)

lemma keeps_StoreConnectorSettings [keeps_intros]: "keeps db_ok (StoreConnectorSettings st)"
  unfolding StoreConnectorSettings_def by (rule keeps_modify) (simp add: db_ok_def db_frames)

end
