(* ===== verification/Db_Client.thy ===== *)
theory Db_Client
  imports Db_Props
begin

text \<open>
  The database client (\<open>internal/db_impl/sqlite3/client.go\<close>): transactions, the operations that a
  transaction can use (\<open>db.Transaction\<close>), and what holds in every database that transactions
  produce: its tables are consistent, and a UID of a mailbox never changes its message.
\<close>

section \<open>Transactions\<close>

text \<open>
  \<open>commit\<close> is the outcome of COMMIT. BeginTx and Rollback do not fail in the model. The lock of the
  client serialises the transactions.
\<close>

definition wrapTx :: "bool \<Rightarrow> 'a tx \<Rightarrow> 'a tx" where
  "wrapTx commit op db =
     (case op db of
        (Ok x, db') \<Rightarrow> if commit then (Ok x, db') else (Err (ErrDB ErrTransactionFailed), db)
      | (Err e, db') \<Rightarrow> (Err e, db)
      | (Panic p, db') \<Rightarrow> (Panic p, db))"

definition Write :: "bool \<Rightarrow> 'a tx \<Rightarrow> 'a tx" where
  "Write commit op = wrapTx commit op"

definition Read :: "(database \<Rightarrow> (state_error, 'a) outcome) \<Rightarrow> 'a tx" where
  "Read op = reads op"

text \<open>The operations of \<open>db.Transaction\<close> that write.\<close>

datatype write_op =
    W_CreateMailbox MailboxID string FlagSet FlagSet FlagSet UID
  | W_GetOrCreateMailbox MailboxID string FlagSet FlagSet FlagSet UID
  | W_GetOrCreateMailboxAlt imap_Mailbox string UID
  | W_RenameMailboxWithRemoteID MailboxID string
  | W_DeleteMailboxWithRemoteID MailboxID
  | W_DeleteMailboxWithRemoteIDSilent MailboxID
  | W_AddMessagesToMailbox InternalMailboxID "MessageIDPair list"
  | W_RemoveMessagesFromMailbox InternalMailboxID "InternalMessageID list"
  | W_ClearRecentFlagInMailboxOnMessage InternalMailboxID InternalMessageID
  | W_ClearRecentFlagsInMailbox InternalMailboxID
  | W_CreateMailboxIfNotExists imap_Mailbox string UID
  | W_SetMailboxMessagesDeletedFlag InternalMailboxID "InternalMessageID list" bool
  | W_SetMailboxSubscribed InternalMailboxID bool
  | W_UpdateRemoteMailboxID InternalMailboxID MailboxID
  | W_SetMailboxUIDValidity InternalMailboxID UID
  | W_AddFlagsToAllMailboxes "string list"
  | W_AddPermFlagsToAllMailboxes "string list"
  | W_CreateMessages "CreateMessageReq list"
  | W_CreateMessageAndAddToMailbox InternalMailboxID CreateMessageReq
  | W_MarkMessageAsDeleted InternalMessageID
  | W_MarkMessageAsDeletedAndAssignRandomRemoteID string InternalMessageID
  | W_MarkMessageAsDeletedWithRemoteID MessageID
  | W_DeleteMessages "InternalMessageID list"
  | W_UpdateRemoteMessageID InternalMessageID MessageID
  | W_AddFlagToMessages "InternalMessageID list" string
  | W_RemoveFlagFromMessages "InternalMessageID list" string
  | W_SetFlagsOnMessages "InternalMessageID list" FlagSet
  | W_AddDeletedSubscription string MailboxID
  | W_RemoveDeletedSubscriptionWithName string
  | W_StoreConnectorSettings string

definition no_result :: "'a tx \<Rightarrow> unit tx" where
  "no_result m = act_then m (ret ())"

fun exec_write :: "extra_args \<Rightarrow> write_op \<Rightarrow> unit tx" where
  "exec_write p (W_CreateMailbox r n fl pf at v) = no_result (CreateMailbox r n fl pf at v)"
| "exec_write p (W_GetOrCreateMailbox r n fl pf at v) = no_result (GetOrCreateMailbox r n fl pf at v)"
| "exec_write p (W_GetOrCreateMailboxAlt m d v) = no_result (GetOrCreateMailboxAlt m d v)"
| "exec_write p (W_RenameMailboxWithRemoteID r n) = RenameMailboxWithRemoteID r n"
| "exec_write p (W_DeleteMailboxWithRemoteID r) = DeleteMailboxWithRemoteID r"
| "exec_write p (W_DeleteMailboxWithRemoteIDSilent r) = DeleteMailboxWithRemoteIDSilent r"
| "exec_write p (W_AddMessagesToMailbox b ids) = no_result (AddMessagesToMailbox_db b ids)"
| "exec_write p (W_RemoveMessagesFromMailbox b ids) = RemoveMessagesFromMailbox_db p b ids"
| "exec_write p (W_ClearRecentFlagInMailboxOnMessage b i) = ClearRecentFlagInMailboxOnMessage b i"
| "exec_write p (W_ClearRecentFlagsInMailbox b) = ClearRecentFlagsInMailbox b"
| "exec_write p (W_CreateMailboxIfNotExists m d v) = CreateMailboxIfNotExists m d v"
| "exec_write p (W_SetMailboxMessagesDeletedFlag b ids d) = SetMailboxMessagesDeletedFlag b ids d"
| "exec_write p (W_SetMailboxSubscribed b s) = SetMailboxSubscribed b s"
| "exec_write p (W_UpdateRemoteMailboxID b r) = UpdateRemoteMailboxID b r"
| "exec_write p (W_SetMailboxUIDValidity b v) = SetMailboxUIDValidity b v"
| "exec_write p (W_AddFlagsToAllMailboxes fs) = AddFlagsToAllMailboxes fs"
| "exec_write p (W_AddPermFlagsToAllMailboxes fs) = AddPermFlagsToAllMailboxes fs"
| "exec_write p (W_CreateMessages reqs) = CreateMessages reqs"
| "exec_write p (W_CreateMessageAndAddToMailbox b req) = no_result (CreateMessageAndAddToMailbox b req)"
| "exec_write p (W_MarkMessageAsDeleted i) = MarkMessageAsDeleted i"
| "exec_write p (W_MarkMessageAsDeletedAndAssignRandomRemoteID u i) = MarkMessageAsDeletedAndAssignRandomRemoteID u i"
| "exec_write p (W_MarkMessageAsDeletedWithRemoteID r) = MarkMessageAsDeletedWithRemoteID r"
| "exec_write p (W_DeleteMessages ids) = DeleteMessages ids"
| "exec_write p (W_UpdateRemoteMessageID i r) = UpdateRemoteMessageID i r"
| "exec_write p (W_AddFlagToMessages ids fl) = AddFlagToMessages ids fl"
| "exec_write p (W_RemoveFlagFromMessages ids fl) = RemoveFlagFromMessages ids fl"
| "exec_write p (W_SetFlagsOnMessages ids fs) = SetFlagsOnMessages p ids fs"
| "exec_write p (W_AddDeletedSubscription n r) = AddDeletedSubscription n r"
| "exec_write p (W_RemoveDeletedSubscriptionWithName n) = no_result (RemoveDeletedSubscriptionWithName n)"
| "exec_write p (W_StoreConnectorSettings st) = StoreConnectorSettings st"

text \<open>
  Removals of more than one chunk of messages do not work (\<open>RemoveMessagesFromMailbox_two_chunks\<close>)
  and are left out of what follows.
\<close>

fun one_chunk :: "write_op \<Rightarrow> bool" where
  "one_chunk (W_RemoveMessagesFromMailbox b ids) \<longleftrightarrow> length ids \<le> ChunkLimit"
| "one_chunk _ \<longleftrightarrow> True"

text \<open>The databases that transactions lead to.\<close>

inductive db_step :: "extra_args \<Rightarrow> database \<Rightarrow> database \<Rightarrow> bool" for p where
  transaction: "list_all one_chunk ops \<Longrightarrow> db_step p db (snd (Write commit (for_each (exec_write p) ops) db))"

inductive db_steps :: "extra_args \<Rightarrow> database \<Rightarrow> database \<Rightarrow> bool" for p where
  none: "db_steps p db db"
| more: "db_steps p db db1 \<Longrightarrow> db_step p db1 db2 \<Longrightarrow> db_steps p db db2"

section \<open>Consistency\<close>

lemma wrapTx_all_or_nothing:
  "wrapTx commit op db = (r, db') \<Longrightarrow> (\<exists>x. r = Ok x \<and> op db = (Ok x, db') \<and> commit) \<or> (\<not> (\<exists>x. r = Ok x) \<and> db' = db)"
  by (auto simp: wrapTx_def split: prod.splits outcome.splits if_splits)

lemma wrapTx_keeps: "commits P op \<Longrightarrow> keeps P (wrapTx commit op)"
  unfolding keeps_def commits_def wrapTx_def by (auto split: prod.splits outcome.splits)

lemma commits_conj: "commits P m \<Longrightarrow> commits Q m \<Longrightarrow> commits (\<lambda>s. P s \<and> Q s) m"
  unfolding commits_def by blast

lemma keeps_conj: "keeps P m \<Longrightarrow> keeps Q m \<Longrightarrow> keeps (\<lambda>s. P s \<and> Q s) m"
  unfolding keeps_def by blast

lemma commits_no_result: "commits P m \<Longrightarrow> commits P (no_result m)"
  unfolding no_result_def by (intro commits_intros)

lemmas commits_write = commits_no_result commits_intros keeps_commits [OF keeps_AddMessagesToMailbox]
  keeps_commits [OF keeps_RemoveDeletedSubscription]

lemma commits_exec_write: "one_chunk op \<Longrightarrow> commits db_ok (exec_write p op)"
  by (cases op)
    (auto intro!: commits_write keeps_commits [OF keeps_RemoveMessagesFromMailbox]
       keeps_commits [OF keeps_DeleteMailbox(1)] keeps_commits [OF keeps_DeleteMailbox(2)]
       keeps_commits [OF keeps_AddDeletedSubscription] keeps_commits [OF keeps_SetFlagsOnMessages]
       keeps_commits [OF keeps_StoreConnectorSettings]
       keeps_mailbox_operations [THEN keeps_commits] keeps_message_operations [THEN keeps_commits])

section \<open>UIDs are permanent\<close>

text \<open>
  Mailbox IDs and UIDs are not used again: a mailbox that is in the later database and could be in the
  former was there, its sequence has not decreased, and a message whose UID had been assigned then had it then.
\<close>

definition uid_of :: "InternalMailboxID \<Rightarrow> nat \<Rightarrow> InternalMessageID \<Rightarrow> database \<Rightarrow> bool" where
  "uid_of b u i db \<longleftrightarrow>
     (\<exists>rows r. map_of (t_mailbox_messages db) b = Some rows \<and> r \<in> set rows \<and> mm_uid r = u \<and> mm_message_id r = i)"

definition uid_stable :: "database \<Rightarrow> database \<Rightarrow> bool" where
  "uid_stable db db' \<longleftrightarrow> t_mailbox_seq db \<le> t_mailbox_seq db'
     \<and> (\<forall>b. unat b \<le> t_mailbox_seq db \<longrightarrow> b \<in> mailbox_ids db' \<longrightarrow> b \<in> mailbox_ids db \<and> uid_seq b db \<le> uid_seq b db'
          \<and> (\<forall>u i. u \<le> uid_seq b db \<longrightarrow> uid_of b u i db' \<longrightarrow> uid_of b u i db))"

lemma uid_stable_refl: "uid_stable db db"
  by (simp add: uid_stable_def)

lemma uid_stable_trans: "uid_stable db db1 \<Longrightarrow> uid_stable db1 db2 \<Longrightarrow> uid_stable db db2"
  unfolding uid_stable_def by (meson le_trans)

text \<open>Rows may go, and their other columns may change; new rows have UIDs above the sequence.\<close>

lemma uid_stable_rows:
  assumes "t_mailbox_seq db' = t_mailbox_seq db" and "mailbox_ids db' \<subseteq> mailbox_ids db"
    and "\<And>b. b \<in> mailbox_ids db' \<Longrightarrow> uid_seq b db \<le> uid_seq b db'"
    and "\<And>b u i. b \<in> mailbox_ids db' \<Longrightarrow> u \<le> uid_seq b db \<Longrightarrow> uid_of b u i db' \<Longrightarrow> uid_of b u i db"
  shows "uid_stable db db'"
  using assms unfolding uid_stable_def by auto

lemma keeps_uid_stable_stmt:
  assumes "\<And>db db'. f db = Ok db' \<Longrightarrow> uid_stable db db'"
  shows "keeps (uid_stable db0) (stmt f)"
  by (rule keeps_stmt) (rule uid_stable_trans, assumption, erule assms)

text \<open>The statements that do not touch mailboxes, sequences and rows.\<close>

definition same_rows :: "database \<Rightarrow> database \<Rightarrow> bool" where
  "same_rows db db' \<longleftrightarrow> t_mailbox_seq db' = t_mailbox_seq db \<and> mailbox_ids db' = mailbox_ids db
     \<and> t_uid_seq db' = t_uid_seq db \<and> t_mailbox_messages db' = t_mailbox_messages db"

lemma same_rows_stable: "same_rows db db' \<Longrightarrow> uid_stable db db'"
  unfolding same_rows_def by (intro uid_stable_rows) (auto simp: uid_of_def uid_seq_def)

lemma keeps_stable_same [keeps_intros]:
  "keeps (uid_stable db0) (stmt (insert_text t b v))"
  "keeps (uid_stable db0) (stmt (insert_links b ids))"
  "keeps (uid_stable db0) (stmt (delete_links cl))"
  "keeps (uid_stable db0) (stmt (insert_messages ms))"
  "keeps (uid_stable db0) (stmt (insert_message_flags fl))"
  "keeps (uid_stable db0) (stmt (insert_or_ignore_message_flags fl))"
  "keeps (uid_stable db0) (stmt (delete_message_flags cf))"
  "keeps (uid_stable db0) (stmt (update_messages cm fm))"
  "keeps (uid_stable db0) (stmt (delete_messages ids'))"
  "keeps (uid_stable db0) (stmt (update_deleted_subscription n r))"
  "keeps (uid_stable db0) (stmt (insert_deleted_subscription n r))"
  by (rule keeps_uid_stable_stmt, rule same_rows_stable, cases t, auto simp: insert_text_def insert_links_def
        delete_links_def insert_messages_def insert_message_flags_def insert_or_ignore_message_flags_def
        delete_message_flags_def update_messages_def delete_messages_def update_deleted_subscription_def
        insert_deleted_subscription_def same_rows_def mailbox_ids_def Let_def split: if_splits)+

lemma keeps_stable_modify:
  "(\<And>db. same_rows db (g db)) \<Longrightarrow> keeps (uid_stable db0) (modify g)"
  by (rule keeps_modify) (blast intro: uid_stable_trans same_rows_stable)

lemma keeps_stable_add_texts [keeps_intros]: "keeps (uid_stable db0) (add_texts_to_all t flags)"
  unfolding add_texts_to_all_def
  by (rule keeps_stable_modify) (cases t; simp add: same_rows_def mailbox_ids_def)

lemma keeps_stable_update_mailboxes [keeps_intros]:
  assumes "\<And>m. mbx_ID (f m) = mbx_ID m"
  shows "keeps (uid_stable db0) (stmt (update_mailboxes cond f))"
proof (rule keeps_uid_stable_stmt, rule same_rows_stable)
  fix db db' assume u: "update_mailboxes cond f db = Ok db'"
  define ms where "ms = map (\<lambda>m. if cond m then f m else m) (t_mailboxes db)"
  have "map mbx_ID ms = map mbx_ID (t_mailboxes db)" unfolding ms_def by (rule map_cond_id) (rule assms)
  then have "mbx_ID ` set ms = mailbox_ids db" unfolding mailbox_ids_def by (metis image_set)
  with u show "same_rows db db'"
    by (auto simp: update_mailboxes_def ms_def [symmetric] Let_def same_rows_def mailbox_ids_def [of db'] split: if_splits)
qed

lemma keeps_stable_update_rows [keeps_intros]:
  assumes "\<And>r. mm_uid (f r) = mm_uid r" "\<And>r. mm_message_id (f r) = mm_message_id r"
  shows "keeps (uid_stable db0) (stmt (update_rows b cond f))"
proof (rule keeps_uid_stable_stmt)
  fix db db' assume "update_rows b cond f db = Ok db'"
  then obtain rows where rows: "map_of (t_mailbox_messages db) b = Some rows"
    and db': "db' = db\<lparr>t_mailbox_messages := AList.update b (map (\<lambda>r. if cond r then f r else r) rows) (t_mailbox_messages db)\<rparr>"
    by (auto simp: update_rows_def split: option.splits)
  show "uid_stable db db'"
  proof (rule uid_stable_rows)
    fix b' u i assume "uid_of b' u i db'"
    then show "uid_of b' u i db"
      using rows assms by (auto simp: uid_of_def db' update_conv' split: if_splits)
  qed (simp_all add: db' mailbox_ids_def uid_seq_def)
qed

lemma keeps_stable_delete_rows [keeps_intros]: "keeps (uid_stable db0) (stmt (delete_rows b cond))"
proof (rule keeps_uid_stable_stmt)
  fix db db' assume "delete_rows b cond db = Ok db'"
  then show "uid_stable db db'"
    by (intro uid_stable_rows)
      (auto simp: delete_rows_def uid_of_def mailbox_ids_def uid_seq_def update_conv' split: option.splits if_splits, blast+)
qed

lemma keeps_stable_insert_rows [keeps_intros]: "keeps (uid_stable db0) (stmt (insert_rows_of_mailbox b ids))"
proof (rule keeps_uid_stable_stmt)
  fix db db' assume "insert_rows_of_mailbox b ids db = Ok db'"
  then obtain rows where rows: "map_of (t_mailbox_messages db) b = Some rows"
    and db': "db' = db\<lparr>t_mailbox_messages := AList.update b (rows @ new_rows (uid_seq b db) ids) (t_mailbox_messages db),
        t_uid_seq := AList.update b (uid_seq b db + length ids) (t_uid_seq db)\<rparr>"
    unfolding insert_rows_of_mailbox_def by (auto split: option.splits if_splits)
  have "uid_seq b db < mm_uid r" if "r \<in> set (new_rows (uid_seq b db) ids)" for r
    using that by (auto simp: new_rows_def)
  then show "uid_stable db db'"
    using rows by (intro uid_stable_rows) (auto simp: db' uid_of_def mailbox_ids_def uid_seq_def update_conv' split: if_splits, force+)
qed

lemma keeps_stable_insert_mailbox [keeps_intros]: "keeps (uid_stable db0) (stmt (insert_mailbox r n v))"
proof (rule keeps_uid_stable_stmt)
  fix db db' assume i: "insert_mailbox r n v db = Ok db'"
  then have db': "db' = db\<lparr>t_mailboxes := t_mailboxes db @ [new_mailbox r n v db], t_mailbox_seq := t_mailbox_seq db + 1\<rparr>"
    and lt: "t_mailbox_seq db < max_rowid"
    by (auto simp: insert_mailbox_def split: if_splits)
  have new: "unat (mbx_ID (new_mailbox r n v db)) = t_mailbox_seq db + 1"
    using lt unfolding new_mailbox_def by (simp only: Mailbox.simps unat_of_nat) (simp add: max_rowid_def)
  have "b \<in> mailbox_ids db" if "unat b \<le> t_mailbox_seq db" "b \<in> mailbox_ids db'" for b
    using that new by (auto simp: db' mailbox_ids_def)
  then show "uid_stable db db'" by (simp add: uid_stable_def db' uid_seq_def uid_of_def)
qed

lemma keeps_stable_create_table [keeps_intros]: "keeps (uid_stable db0) (stmt (create_mailbox_table b))"
proof (rule keeps_uid_stable_stmt)
  fix db db' assume "create_mailbox_table b db = Ok db'"
  then have db': "db' = db\<lparr>t_mailbox_messages := t_mailbox_messages db @ [(b, [])]\<rparr>"
    and none: "map_of (t_mailbox_messages db) b = None"
    by (auto simp: create_mailbox_table_def split: if_splits)
  have "uid_of b' u i db" if "uid_of b' u i db'" for b' u i
    using that none by (auto simp: uid_of_def db' map_add_def split: option.splits if_splits)
  then show "uid_stable db db'" by (simp add: uid_stable_def db' uid_seq_def mailbox_ids_def)
qed

lemma uid_stable_without_mailbox:
  assumes "db_ok db" and "GetMailboxByRemoteID r db = Ok m"
  shows "uid_stable db (without_mailbox m db)"
proof (rule uid_stable_rows)
  let ?db = "without_mailbox m db"
  show sub: "mailbox_ids ?db \<subseteq> mailbox_ids db" by (auto simp: mailbox_ids_def without_mailbox_def)
  fix b assume b: "b \<in> mailbox_ids ?db"
  then have "b \<noteq> mbx_ID m"
    using assms(1) mailbox_with_remote(1) [OF assms]
    by (auto simp: db_ok_def mailboxes_ok_def distinct_map inj_on_def mailbox_ids_def without_mailbox_def)
  then show "uid_seq b db \<le> uid_seq b ?db" by (simp add: uid_seq_def without_mailbox_def delete_conv')
  fix u i assume "uid_of b u i ?db"
  with \<open>b \<noteq> mbx_ID m\<close> show "uid_of b u i db" by (simp add: uid_of_def without_mailbox_def delete_conv')
qed (simp add: without_mailbox_def)

lemma keeps_stable_subscriptions [keeps_intros]:
  "keeps (uid_stable db0) (AddDeletedSubscription n r)"
  "keeps (uid_stable db0) (RemoveDeletedSubscriptionWithName n)"
  unfolding AddDeletedSubscription_def RemoveDeletedSubscriptionWithName_def
  by (intro keeps_intros keeps_stable_modify; simp add: same_rows_def mailbox_ids_def)+

definition permanent :: "database \<Rightarrow> database \<Rightarrow> bool" where
  "permanent db0 db \<longleftrightarrow> db_ok db \<and> uid_stable db0 db"

lemma permanent_keeps: "keeps db_ok m \<Longrightarrow> keeps (uid_stable db0) m \<Longrightarrow> keeps (permanent db0) m"
  unfolding permanent_def keeps_def by blast

lemma permanent_commits: "commits db_ok m \<Longrightarrow> keeps (uid_stable db0) m \<Longrightarrow> commits (permanent db0) m"
  by (rule commitsI) (auto simp: permanent_def dest: commitsD keeps_state)

lemma permanent_delete:
  "keeps (permanent db0) (DeleteMailboxWithRemoteID r)" "keeps (permanent db0) (DeleteMailboxWithRemoteIDSilent r)"
  by (rule keeps_DeleteMailbox_if keeps_DeleteMailboxSilent_if;
      (intro permanent_keeps keeps_intros)?;
      auto simp: permanent_def intro: db_ok_without_mailbox uid_stable_trans uid_stable_without_mailbox)+

lemma keeps_stable_CreateMailbox [keeps_intros]: "keeps (uid_stable db0) (CreateMailbox r n fl pf at v)"
  unfolding CreateMailbox_def by (intro keeps_intros keeps_for_each)

lemma keeps_stable_GetOrCreate [keeps_intros]:
  "keeps (uid_stable db0) (GetOrCreateMailbox r n fl pf at v)"
  "keeps (uid_stable db0) (GetOrCreateMailboxAlt mb d v)"
  "keeps (uid_stable db0) (CreateMailboxIfNotExists mb d v)"
  unfolding GetOrCreateMailbox_def GetOrCreateMailboxAlt_def CreateMailboxIfNotExists_def by (intro keeps_intros)+

lemma keeps_stable_mailbox [keeps_intros]:
  "keeps (uid_stable db0) (UpdatedNotZero (\<lambda>m. mbx_RemoteID m = r) (\<lambda>m. m\<lparr>mbx_Name := n\<rparr>))"
  "keeps (uid_stable db0) (UpdatedNotZero (\<lambda>m. mbx_ID m = b) (\<lambda>m. m\<lparr>mbx_RemoteID := r\<rparr>))"
  "keeps (uid_stable db0) (UpdatedNotZero (\<lambda>m. mbx_ID m = b) (\<lambda>m. m\<lparr>mbx_UIDValidity := v\<rparr>))"
  unfolding UpdatedNotZero_def by (intro keeps_intros; simp)+

lemma keeps_stable_mailbox_operations [keeps_intros]:
  "keeps (uid_stable db0) (RenameMailboxWithRemoteID r n)"
  "keeps (uid_stable db0) (AddMessagesToMailbox_db b prs)"
  "keeps (uid_stable db0) (RemoveMessagesFromMailbox_db p b ids)"
  "keeps (uid_stable db0) (ClearRecentFlagInMailboxOnMessage b i)"
  "keeps (uid_stable db0) (ClearRecentFlagsInMailbox b)"
  "keeps (uid_stable db0) (SetMailboxMessagesDeletedFlag b ids d)"
  "keeps (uid_stable db0) (SetMailboxSubscribed b d)"
  "keeps (uid_stable db0) (UpdateRemoteMailboxID b r)"
  "keeps (uid_stable db0) (SetMailboxUIDValidity b v)"
  "keeps (uid_stable db0) (AddFlagsToAllMailboxes fs)"
  "keeps (uid_stable db0) (AddPermFlagsToAllMailboxes fs)"
  unfolding RenameMailboxWithRemoteID_def AddMessagesToMailbox_db_def RemoveMessagesFromMailbox_db_def
    ClearRecentFlagInMailboxOnMessage_def ClearRecentFlagsInMailbox_def SetMailboxMessagesDeletedFlag_def
    SetMailboxSubscribed_def UpdateRemoteMailboxID_def SetMailboxUIDValidity_def
    AddFlagsToAllMailboxes_def AddPermFlagsToAllMailboxes_def
  by ((intro keeps_intros keeps_for_each; simp?); fail?)+

lemma keeps_stable_message_operations [keeps_intros]:
  "keeps (uid_stable db0) (CreateMessages reqs)"
  "keeps (uid_stable db0) (CreateMessageAndAddToMailbox b req)"
  "keeps (uid_stable db0) (MarkMessageAsDeleted i)"
  "keeps (uid_stable db0) (MarkMessageAsDeletedAndAssignRandomRemoteID uuid i)"
  "keeps (uid_stable db0) (MarkMessageAsDeletedWithRemoteID mr)"
  "keeps (uid_stable db0) (DeleteMessages ids)"
  "keeps (uid_stable db0) (UpdateRemoteMessageID i mr)"
  "keeps (uid_stable db0) (AddFlagToMessages ids fl)"
  "keeps (uid_stable db0) (RemoveFlagFromMessages ids fl)"
  "keeps (uid_stable db0) (SetFlagsOnMessages p ids fs)"
  unfolding CreateMessages_def CreateMessageAndAddToMailbox_def MarkMessageAsDeleted_def
    MarkMessageAsDeletedAndAssignRandomRemoteID_def MarkMessageAsDeletedWithRemoteID_def DeleteMessages_def
    UpdateRemoteMessageID_def AddFlagToMessages_def RemoveFlagFromMessages_def SetFlagsOnMessages_def Let_def
  by (intro keeps_intros keeps_for_each)+

lemma keeps_stable_settings [keeps_intros]: "keeps (uid_stable db0) (StoreConnectorSettings st)"
  unfolding StoreConnectorSettings_def by (rule keeps_stable_modify) (simp add: same_rows_def mailbox_ids_def)

lemma keeps_no_result: "keeps P m \<Longrightarrow> keeps P (no_result m)"
  unfolding no_result_def by (intro keeps_intros)

lemma permanent_write: "one_chunk op \<Longrightarrow> commits (permanent db0) (exec_write p op)"
proof (cases "\<exists>r. op = W_DeleteMailboxWithRemoteID r \<or> op = W_DeleteMailboxWithRemoteIDSilent r")
  case True
  then show ?thesis by (auto intro: permanent_delete [THEN keeps_commits])
next
  case False
  assume "one_chunk op"
  moreover from False have "keeps (uid_stable db0) (exec_write p op)"
    by (cases op) (auto intro!: keeps_no_result keeps_intros)
  ultimately show ?thesis by (intro permanent_commits commits_exec_write)
qed

lemma permanent_steps:
  assumes "db_steps p db db'" and "db_ok db"
  shows "permanent db db'"
  using assms
proof (induction rule: db_steps.induct)
  case (none db)
  then show ?case by (simp add: permanent_def uid_stable_refl)
next
  case (more db db1 db2)
  then have "permanent db db1" by blast
  moreover from more(2) obtain ops commit where ops: "list_all one_chunk ops"
    and db2: "db2 = snd (Write commit (for_each (exec_write p) ops) db1)" by (auto elim: db_step.cases)
  have "commits (permanent db) (for_each (exec_write p) ops)"
    by (rule commits_for_each, rule permanent_write) (use ops in \<open>simp add: list_all_iff\<close>)
  from keepsD [OF wrapTx_keeps [OF this]] calculation show ?case unfolding db2 Write_def by blast
qed

section \<open>Properties\<close>


definition example_create :: "write_op list" where
  "example_create = [W_CreateMailbox ''r1'' ''INBOX'' [] [] [] 7, W_StoreConnectorSettings ''s'']"

lemma example_create_result:
  "snd (Write True (for_each (exec_write p) example_create) empty_database) =
     empty_database\<lparr>t_mailboxes := [\<lparr>mbx_ID = 1, mbx_RemoteID = ''r1'', mbx_Name = ''INBOX'', mbx_UIDValidity = 7,
         mbx_Subscribed = True\<rparr>],
       t_mailbox_seq := 1, t_mailbox_messages := [(1, [])], t_connector_settings := Some ''s''\<rparr>"
  by (simp add: example_create_def Write_def wrapTx_def no_result_def CreateMailbox_def MapLabelsUniqueConstraintError_def
      insert_mailbox_def create_mailbox_table_def StoreConnectorSettings_def empty_database_def Values_def max_rowid_def
      new_mailbox_def stmt_def act_simps)

lemma example_create_step: "db_steps p empty_database (snd (Write True (for_each (exec_write p) example_create) empty_database))"
  by (rule db_steps.more, rule db_steps.none, rule db_step.transaction) (simp add: example_create_def)


text \<open>
  C8: UIDs are permanent. Let transactions lead from the empty database to one database and from there to
  another. A UID that had been assigned in a mailbox of the former, and belongs to a message of that mailbox
  in the latter, belonged to the same message in the former: it is neither given to another message nor
  given again after the message was removed.
\<close>

lemma uid_of_mailbox: "db_ok db \<Longrightarrow> uid_of b u i db \<Longrightarrow> b \<in> mailbox_ids db \<and> u \<le> uid_seq b db"
  using contentsD(3) [of db] unfolding contents_def uid_of_def rows_ok_def by fastforce

lemma uid_of_unique: "db_ok db \<Longrightarrow> uid_of b u i db \<Longrightarrow> uid_of b u j db \<Longrightarrow> i = j"
proof -
  assume ok: "db_ok db" and u: "uid_of b u i db" "uid_of b u j db"
  then obtain rows r r' where rows: "map_of (t_mailbox_messages db) b = Some rows"
    and r: "r \<in> set rows" "mm_uid r = u" "mm_message_id r = i" and r': "r' \<in> set rows" "mm_uid r' = u" "mm_message_id r' = j"
    unfolding uid_of_def by auto
  have "sorted_wrt (<) (map mm_uid rows)" using contentsD(3) [OF ok] rows unfolding contents_def rows_ok_def by blast
  then have "distinct (map mm_uid rows)" by (simp add: strict_sorted_iff)
  with r r' show "i = j" by (auto simp: distinct_map dest: inj_onD)
qed

theorem uids_permanent:
  assumes "db_steps p empty_database db" and "db_steps p db db'" and "b \<in> mailbox_ids db" and "uid_of b u i db'"
  shows "uid_seq b db \<le> uid_seq b db' \<and> (u \<le> uid_seq b db \<longrightarrow> uid_of b u i db \<and> (\<forall>j. uid_of b u j db \<longrightarrow> j = i))"
proof -
  have ok: "db_ok db" using permanent_steps [OF assms(1) db_ok_empty] by (simp add: permanent_def)
  from permanent_steps [OF assms(2) ok] have st: "uid_stable db db'" and ok': "db_ok db'" by (simp_all add: permanent_def)
  have "unat b \<le> t_mailbox_seq db" using ok assms(3) by (simp add: db_ok_def mailboxes_ok_def)
  moreover have "b \<in> mailbox_ids db'" using uid_of_mailbox [OF ok' assms(4)] by simp
  ultimately have "uid_seq b db \<le> uid_seq b db'" "u \<le> uid_seq b db \<longrightarrow> uid_of b u i db"
    using st assms(4) unfolding uid_stable_def by blast+
  then show ?thesis using uid_of_unique [OF ok] by blast
qed

definition example_add :: "write_op list" where
  "example_add = [W_CreateMessages
      [\<lparr>cr_Message = \<lparr>imsg_ID = ''m1'', imsg_Flags = [], imsg_Date = 0\<rparr>, cr_InternalID = 5, cr_LiteralSize = 3,
        cr_Body = [], cr_Structure = [], cr_Envelope = []\<rparr>],
     W_AddMessagesToMailbox 1 [\<lparr>InternalID = 5, RemoteID = ''m1''\<rparr>]]"

theorem uids_permanent_witness:
  "let db = snd (Write True (for_each (exec_write Refused) example_create) empty_database);
       db' = snd (Write True (for_each (exec_write Refused) example_add) db)
   in uid_of 1 1 5 db' \<and> uid_seq 1 db \<le> uid_seq 1 db'"
proof -
  let ?db = "snd (Write True (for_each (exec_write Refused) example_create) empty_database)"
  let ?db' = "snd (Write True (for_each (exec_write Refused) example_add) ?db)"
  have s: "db_steps Refused ?db ?db'"
    by (rule db_steps.more, rule db_steps.none, rule db_step.transaction) (simp add: example_add_def)
  have b: "1 \<in> mailbox_ids ?db" by (simp add: example_create_result mailbox_ids_def)
  have "map_of (t_mailbox_messages ?db') 1 =
      Some [\<lparr>mm_uid = 1, mm_deleted = False, mm_recent = True, mm_message_id = 5, mm_message_remote_id = ''m1''\<rparr>]"
    unfolding example_create_result
    by (simp add: example_add_def Write_def wrapTx_def no_result_def CreateMessages_def
        insert_messages_def req_message_def req_flags_def Values_def AddMessagesToMailbox_db_def insert_rows_of_mailbox_def
        insert_links_def new_rows_def uid_seq_def empty_database_def max_rowid_def ChunkLimit_def chunk.simps stmt_def
        GetMailboxMessageUIDsWithFlagsAfterAddOrUIDBump_def mailbox_rows_def scan_row_def scan_uid_def group_concat_def
        message_flags_def values_of_def act_simps
        update_conv' distinct_update)
  then have u: "uid_of 1 1 5 ?db'" unfolding uid_of_def by simp
  from uids_permanent [OF example_create_step s b u] u show ?thesis by (simp add: Let_def)
qed

end
