(* ===== verification/State_Paths.thy ===== *)
theory State_Paths
  imports Db_Client "HOL-Library.Sublist"
begin

text \<open>
  Names in the hierarchy of mailboxes (\<open>internal/state/paths.go\<close>) and the matching of LIST and LSUB patterns
  (\<open>internal/state/match.go\<close>). The regular expression that \<open>match\<close> compiles has only three kinds of
  parts: quoted characters, \<open>.*\<close> and \<open>[^d]*\<close>; \<open>rx_match\<close> is the leftmost-first semantics of Go's
  regexp package for them. The hierarchy delimiter is not empty and holds no character that is special in a
  character class.
\<close>

section \<open>strings.Split\<close>

function Split :: "string \<Rightarrow> string \<Rightarrow> string list" where
  "Split s sep =
     (if s = [] then [[]]
      else if sep \<noteq> [] \<and> prefix sep s then [] # Split (drop (length sep) s) sep
      else (case Split (tl s) sep of [] \<Rightarrow> [s] | w # ws \<Rightarrow> (hd s # w) # ws))"
  by pat_completeness auto
termination by (relation "measure (\<lambda>(s, sep). length s)") (auto simp: prefix_def)

declare Split.simps [simp del]

section \<open>Superior and inferior names\<close>

definition listSuperiors :: "string \<Rightarrow> string \<Rightarrow> string list" where
  "listSuperiors name delimiter =
     (if delimiter = [] then []
      else let split = Split name delimiter in
        map (\<lambda>i. Join (take i split) delimiter) [1..<length split])"

text \<open>The names below \<open>parent\<close>, from the last to the first in the order of bytes.\<close>

definition bytes_less_eq :: "string \<Rightarrow> string \<Rightarrow> bool" where
  "bytes_less_eq s t \<longleftrightarrow> lexordp_eq (map bval s) (map bval t :: nat list)"

fun insert_sorted :: "string \<Rightarrow> string list \<Rightarrow> string list" where
  "insert_sorted s [] = [s]"
| "insert_sorted s (t # ts) = (if bytes_less_eq s t then s # t # ts else t # insert_sorted s ts)"

definition slices_Sort :: "string list \<Rightarrow> string list" where
  "slices_Sort ss = foldr insert_sorted ss []"

definition listInferiors :: "string \<Rightarrow> string \<Rightarrow> string list \<Rightarrow> string list" where
  "listInferiors parent delimiter names =
     rev (slices_Sort (filter (\<lambda>name. parent \<in> set (listSuperiors name delimiter)) names))"

section \<open>Patterns\<close>

definition Inbox :: string where
  "Inbox = ''INBOX''"

definition canon :: "string \<Rightarrow> string \<Rightarrow> string" where
  "canon name del = Join (map (\<lambda>name. if EqualFold name Inbox then Inbox else name) (Split name del)) del"

datatype rx_star = AnyChar | NotDelimiter

datatype rx_item = Lit char | Star rx_star

text \<open>The dot does not match a line feed.\<close>

fun in_class :: "string \<Rightarrow> rx_star \<Rightarrow> char \<Rightarrow> bool" where
  "in_class del AnyChar c \<longleftrightarrow> c \<noteq> CHR 0x0A"
| "in_class del NotDelimiter c \<longleftrightarrow> c \<notin> set del"

definition rx_items :: "string \<Rightarrow> rx_item list" where
  "rx_items s = map (\<lambda>c. if c = CHR ''*'' then Star AnyChar else if c = CHR ''%'' then Star NotDelimiter else Lit c) s"

text \<open>The text that is matched, from the start of the name; a star first tries to take one more character.\<close>

fun rx_match :: "string \<Rightarrow> bool \<Rightarrow> rx_item list \<Rightarrow> string \<Rightarrow> string option" where
  "rx_match del dollar [] s = (if dollar \<and> s \<noteq> [] then None else Some [])"
| "rx_match del dollar (Lit d # items) s =
     (case s of
        [] \<Rightarrow> None
      | c # s' \<Rightarrow> if c = d then map_option (\<lambda>r. c # r) (rx_match del dollar items s') else None)"
| "rx_match del dollar (Star k # items) s =
     (case s of
        [] \<Rightarrow> rx_match del dollar items []
      | c # s' \<Rightarrow>
          if in_class del k c
          then (case rx_match del dollar (Star k # items) s' of
                  Some r \<Rightarrow> Some (c # r)
                | None \<Rightarrow> rx_match del dollar items s)
          else rx_match del dollar items s)"

definition HasSuffix :: "string \<Rightarrow> string \<Rightarrow> bool" where
  "HasSuffix s t \<longleftrightarrow> suffix t s"

definition matchRoot :: "string \<Rightarrow> string \<Rightarrow> string" where
  "matchRoot ref del =
     (if \<not> sublist del ref then []
      else
        let res = (if prefix del ref then del else []) @ hd (Split ref del) in
        if res \<noteq> [] \<and> res \<noteq> del then res @ del else res)"

definition match :: "string \<Rightarrow> string \<Rightarrow> string \<Rightarrow> string \<Rightarrow> string option" where
  "match ref pattern del mailboxName =
     (if pattern = [] then Some (matchRoot ref del)
      else rx_match del (\<not> HasSuffix pattern ''%'') (rx_items (canon (ref @ pattern) del)) mailboxName)"

section \<open>Listing\<close>

record Match =
  mt_Name :: string
  mt_Delimiter :: string
  mt_Atts :: FlagSet

record matchMailbox =
  mm_Name :: string
  mm_Subscribed :: bool
  mm_EntMBox :: "MailboxWithAttr option"

definition AttrNoSelect :: string where
  "AttrNoSelect = CHR 0x5C # ''Noselect''"

definition AttrMarked :: string where
  "AttrMarked = CHR 0x5C # ''Marked''"

definition AttrUnmarked :: string where
  "AttrUnmarked = CHR 0x5C # ''Unmarked''"

definition no_select :: "string \<Rightarrow> string \<Rightarrow> Match" where
  "no_select name delimiter = \<lparr>mt_Name = name, mt_Delimiter = delimiter, mt_Atts = NewFlagSet [AttrNoSelect]\<rparr>"

text \<open>\<open>None\<close> stands for the result without a match.\<close>

definition prepareMatch ::
    "string \<Rightarrow> matchMailbox \<Rightarrow> string \<Rightarrow> string \<Rightarrow> bool \<Rightarrow> bool \<Rightarrow> bool \<Rightarrow> database \<Rightarrow> (state_error, Match option) outcome" where
  "prepareMatch matchedName mbox pattern delimiter isNotSuperior mailboxExists onlySubscribed db =
     (if onlySubscribed \<and> \<not> mm_Subscribed mbox \<and> (isNotSuperior \<or> \<not> HasSuffix pattern ''%'') then Ok None
      else if \<not> mailboxExists \<or> matchedName = [] \<or> (onlySubscribed \<and> \<not> mm_Subscribed mbox)
      then Ok (Some (no_select matchedName delimiter))
      else (case mm_EntMBox mbox of
              Some ent \<Rightarrow>
                bind_outcome (GetMailboxRecentCount (mbx_ID (mwa_Mailbox ent)) db) (\<lambda>recent.
                  Ok (Some \<lparr>mt_Name = mm_Name mbox, mt_Delimiter = delimiter,
                    mt_Atts = AddToSelf (Clone (mwa_Attributes ent)) [if recent > 0 then AttrMarked else AttrUnmarked]\<rparr>))
            | None \<Rightarrow> Ok (Some \<lparr>mt_Name = mm_Name mbox, mt_Delimiter = delimiter, mt_Atts = NewFlagSet [AttrNoSelect]\<rparr>)))"

definition zero_mailbox :: matchMailbox where
  "zero_mailbox = \<lparr>mm_Name = [], mm_Subscribed = False, mm_EntMBox = None\<rparr>"

definition mailbox_map :: "matchMailbox list \<Rightarrow> (string \<times> matchMailbox) list" where
  "mailbox_map allMailboxes = foldl (\<lambda>m mbox. AList.update (mm_Name mbox) mbox m) [] allMailboxes"

text \<open>One superior of one name.\<close>

definition match_one ::
    "(string \<times> matchMailbox) list \<Rightarrow> string \<Rightarrow> string \<Rightarrow> string \<Rightarrow> bool \<Rightarrow> database \<Rightarrow> string \<Rightarrow> string \<Rightarrow>
       (string \<times> Match) list \<Rightarrow> (state_error, (string \<times> Match) list) outcome" where
  "match_one mailboxes ref pattern delimiter subscribed db mboxName superior matches =
     (case match ref pattern delimiter superior of
        None \<Rightarrow> Ok matches
      | Some matchedName \<Rightarrow>
          if map_of matches matchedName \<noteq> None then Ok matches
          else
            let found = map_of mailboxes matchedName in
            bind_outcome
              (prepareMatch matchedName (case found of Some m \<Rightarrow> m | None \<Rightarrow> zero_mailbox) pattern delimiter
                (mboxName = matchedName) (found \<noteq> None) subscribed db)
              (\<lambda>r. case r of None \<Rightarrow> Ok matches | Some mt \<Rightarrow> Ok (AList.update (mt_Name mt) mt matches)))"

fun fold_outcome :: "('x \<Rightarrow> 'acc \<Rightarrow> ('e, 'acc) outcome) \<Rightarrow> 'x list \<Rightarrow> 'acc \<Rightarrow> ('e, 'acc) outcome" where
  "fold_outcome f [] acc = Ok acc"
| "fold_outcome f (x # xs) acc = bind_outcome (f x acc) (fold_outcome f xs)"

text \<open>The order in which Go goes through the map of the mailboxes is an argument: any order of its keys.\<close>

definition getMatches ::
    "string list \<Rightarrow> matchMailbox list \<Rightarrow> string \<Rightarrow> string \<Rightarrow> string \<Rightarrow> bool \<Rightarrow> database \<Rightarrow>
       (state_error, (string \<times> Match) list) outcome" where
  "getMatches order allMailboxes ref pattern delimiter subscribed db =
     (let mailboxes = mailbox_map allMailboxes in
      fold_outcome (\<lambda>mboxName.
          fold_outcome (match_one mailboxes ref pattern delimiter subscribed db mboxName)
            (listSuperiors mboxName delimiter @ [mboxName]))
        order [])"

section \<open>What a pattern matches\<close>

text \<open>The names that a pattern describes: a literal is itself, a star is any text over its class.\<close>

fun described :: "string \<Rightarrow> rx_item list \<Rightarrow> string \<Rightarrow> bool" where
  "described del [] s \<longleftrightarrow> s = []"
| "described del (Lit d # items) s \<longleftrightarrow> (\<exists>s'. s = d # s' \<and> described del items s')"
| "described del (Star k # items) s \<longleftrightarrow> (\<exists>a b. s = a @ b \<and> list_all (in_class del k) a \<and> described del items b)"

lemma described_star_Cons:
  assumes "in_class del k c" and "described del (Star k # items) s"
  shows "described del (Star k # items) (c # s)"
proof -
  from assms(2) obtain a b where "s = a @ b" "list_all (in_class del k) a" "described del items b" by auto
  with assms(1) show ?thesis by (intro described.simps(3) [THEN iffD2] exI [of _ "c # a"] exI [of _ b]) simp
qed

lemma described_star_skip: "described del items s \<Longrightarrow> described del (Star k # items) s"
  unfolding described.simps by (rule exI [of _ "[]"], rule exI [of _ s]) simp

lemma described_star_step:
  "described del (Star k # items) (c # s) \<longleftrightarrow>
     (in_class del k c \<and> described del (Star k # items) s) \<or> described del items (c # s)"
proof
  assume "described del (Star k # items) (c # s)"
  then obtain a b where *: "c # s = a @ b" "list_all (in_class del k) a" "described del items b" by auto
  show "(in_class del k c \<and> described del (Star k # items) s) \<or> described del items (c # s)"
  proof (cases a)
    case Nil
    with * show ?thesis by simp
  next
    case (Cons x a')
    with * have "in_class del k c \<and> s = a' @ b \<and> list_all (in_class del k) a'" by simp
    with *(3) show ?thesis by auto
  qed
qed (auto simp del: described.simps intro: described_star_Cons described_star_skip)

text \<open>With the anchor at the end the expression matches the whole name or nothing.\<close>

lemma rx_match_whole: "rx_match del True items s = (if described del items s then Some s else None)"
proof (induction items arbitrary: s)
  case (Cons item items)
  show ?case
  proof (cases item)
    case (Lit d)
    with Cons show ?thesis by (auto split: list.splits)
  next
    case (Star k)
    show ?thesis unfolding Star
    proof (induction s)
      case Nil
      then show ?case using Cons.IH [of "[]"] by simp
    next
      case (Cons c s)
      then show ?case using Cons.IH \<open>\<And>s. rx_match del True items s = _\<close> [of "c # s"]
        by (simp add: described_star_step del: described.simps)
    qed
  qed
qed simp

text \<open>Without it, the text matched is a prefix of the name that the pattern describes, if there is one.\<close>

lemma rx_star_Cons:
  "rx_match del dollar (Star k # items) (c # s) =
     (case (if in_class del k c then rx_match del dollar (Star k # items) s else None) of
        Some r \<Rightarrow> Some (c # r)
      | None \<Rightarrow> rx_match del dollar items (c # s))"
  by (simp split: option.split)

lemma rx_match_prefix: "rx_match del False items s = Some r \<Longrightarrow> prefix r s \<and> described del items r"
proof (induction items arbitrary: s r)
  case (Cons item items)
  note IH = Cons.IH
  show ?case
  proof (cases item)
    case (Lit d)
    with Cons show ?thesis by (auto split: list.splits if_splits)
  next
    case (Star k)
    show ?thesis using Cons.prems unfolding Star
    proof (induction s arbitrary: r)
      case Nil
      then show ?case using IH [of "[]" r] by (auto intro: described_star_skip simp del: described.simps)
    next
      case (Cons c s)
      from Cons.prems consider r' where "in_class del k c" "rx_match del False (Star k # items) s = Some r'" "r = c # r'"
        | "rx_match del False items (c # s) = Some r"
        unfolding rx_star_Cons by (auto simp del: rx_match.simps split: option.splits if_splits)
      then show ?case
      proof cases
        case 1
        with Cons.IH show ?thesis by (simp add: described_star_Cons del: described.simps)
      next
        case 2
        with IH show ?thesis by (simp add: described_star_skip del: described.simps)
      qed
    qed
  qed
qed simp

lemma rx_match_complete: "described del items r \<Longrightarrow> prefix r s \<Longrightarrow> \<exists>y. rx_match del False items s = Some y"
proof (induction items arbitrary: r s)
  case (Cons item items)
  note IH = Cons.IH
  show ?case
  proof (cases item)
    case (Lit d)
    with Cons show ?thesis by (cases s) (auto simp: prefix_def)
  next
    case (Star k)
    show ?thesis using Cons.prems unfolding Star
    proof (induction s arbitrary: r)
      case Nil
      then show ?case using IH [of "[]" "[]"] by auto
    next
      case (Cons c s)
      show ?case
      proof (cases r)
        case Nil
        with Cons.prems IH [of "[]" "c # s"] show ?thesis
          unfolding rx_star_Cons by (auto simp del: rx_match.simps split: option.split)
      next
        case r: (Cons c' r')
        with Cons.prems have [simp]: "c' = c" and p: "prefix r' s" by auto
        from Cons.prems(1) r consider "in_class del k c" "described del (Star k # items) r'" | "described del items (c # r')"
          by (auto simp: described_star_step simp del: described.simps)
        then show ?thesis
        proof cases
          case 1
          with Cons.IH p show ?thesis unfolding rx_star_Cons by (fastforce simp del: rx_match.simps described.simps)
        next
          case 2
          with IH [of "c # r'" "c # s"] p show ?thesis
            unfolding rx_star_Cons by (auto simp del: rx_match.simps split: option.split)
        qed
      qed
    qed
  qed
qed simp

text \<open>The last star takes all it can.\<close>

lemma rx_match_last_star:
  "rx_match del False (items @ [Star k]) s = Some r \<Longrightarrow> s = r @ t \<Longrightarrow> t = [] \<or> \<not> in_class del k (hd t)"
proof (induction items arbitrary: s r)
  case Nil
  then show ?case
  proof (induction s arbitrary: r)
    case (Cons c s)
    obtain y where y: "rx_match del False [Star k] s = Some y"
      using rx_match_complete [of del "[Star k]" "[]" s] by auto
    show ?case
    proof (cases "in_class del k c")
      case True
      with Cons.prems(1) y have "r = c # y" by (simp add: rx_star_Cons del: rx_match.simps)
      with Cons y show ?thesis by (simp del: rx_match.simps)
    next
      case False
      with Cons.prems(1) have "r = []" by (simp add: rx_star_Cons del: rx_match.simps(2,3))
      with False Cons.prems show ?thesis by auto
    qed
  qed simp
next
  case (Cons item items)
  note IH = Cons.IH
  show ?case
  proof (cases item)
    case (Lit d)
    with Cons.prems(1) obtain s' r' where "s = d # s'" "rx_match del False (items @ [Star k]) s' = Some r'" "r = d # r'"
      by (auto split: list.splits if_splits)
    with IH [of s' r'] Cons.prems(2) show ?thesis by simp
  next
    case (Star k')
    show ?thesis using Cons.prems unfolding Star append_Cons
    proof (induction s arbitrary: r)
      case Nil
      then show ?case by simp
    next
      case (Cons c s)
      from Cons.prems(1) consider r' where "rx_match del False (Star k' # items @ [Star k]) s = Some r'" "r = c # r'"
        | "rx_match del False (items @ [Star k]) (c # s) = Some r"
        unfolding rx_star_Cons by (auto simp del: rx_match.simps split: option.splits if_splits)
      then show ?case
      proof cases
        case 1
        with Cons show ?thesis by (simp del: rx_match.simps)
      next
        case 2
        with IH Cons.prems(2) show ?thesis by blast
      qed
    qed
  qed
qed

section \<open>Superiors\<close>

lemma Split_byte: "Split s [d] = split_byte s d"
  by (induction s) (auto simp: Split.simps [of "[]"] Split.simps [of "_ # _"] split: list.splits)

definition joins :: "string list \<Rightarrow> char \<Rightarrow> string list" where
  "joins ws d = map (\<lambda>i. Join (take i ws) [d]) [1..<length ws]"

lemma listSuperiors_joins: "listSuperiors name [d] = joins (split_byte name d) d"
  by (simp add: listSuperiors_def Split_byte joins_def Let_def)

lemma Join_Cons: "ws \<noteq> [] \<Longrightarrow> Join (w # ws) sep = w @ sep @ Join ws sep"
  by (cases ws) simp_all

lemma Join_head: "Join ((c # w) # ws) sep = c # Join (w # ws) sep"
  by (cases ws) simp_all

lemma joins_Nil: "joins ([] # w # ws) d = [] # map ((#) d) (joins (w # ws) d)"
proof -
  have "[1..<length ([] # w # ws)] = 1 # map Suc [1..<length (w # ws)]"
    by (simp add: map_Suc_upt upt_conv_Cons del: upt_Suc)
  moreover have "Join (take (Suc i) ([] # w # ws)) [d] = d # Join (take i (w # ws)) [d]" if "1 \<le> i" for i
    using that Join_Cons [of "take i (w # ws)" "[]"] by (cases i) simp_all
  then have "map (\<lambda>i. Join (take (Suc i) ([] # w # ws)) [d]) [1..<length (w # ws)] = map ((#) d) (joins (w # ws) d)"
    unfolding joins_def map_map by (intro map_cong) (auto simp del: take_Suc_Cons)
  ultimately show ?thesis unfolding joins_def [of "[] # w # ws"] by (simp add: comp_def del: upt_Suc)
qed

lemma joins_Cons: "joins ((c # w) # ws) d = map ((#) c) (joins (w # ws) d)"
proof -
  have "Join (take i ((c # w) # ws)) [d] = c # Join (take i (w # ws)) [d]" if "1 \<le> i" for i
    using that Join_head [of c w "take (i - 1) ws"] by (cases i) simp_all
  then show ?thesis unfolding joins_def map_map by (intro map_cong) auto
qed

lemma superiors_iff: "x \<in> set (listSuperiors name [d]) \<longleftrightarrow> (\<exists>rest. name = x @ d # rest)"
proof (induction name arbitrary: x)
  case Nil
  then show ?case by (simp add: listSuperiors_joins joins_def)
next
  case (Cons c s)
  obtain w ws where ws: "split_byte s d = w # ws" by (cases "split_byte s d") auto
  show ?case
  proof (cases "c = d")
    case True
    then have "listSuperiors (c # s) [d] = [] # map ((#) d) (listSuperiors s [d])"
      by (simp add: listSuperiors_joins ws joins_Nil)
    with Cons True show ?thesis by (cases x) auto
  next
    case False
    then have "listSuperiors (c # s) [d] = map ((#) c) (listSuperiors s [d])"
      by (simp add: listSuperiors_joins ws joins_Cons)
    with Cons False show ?thesis by (cases x) auto
  qed
qed

lemma Join_split_byte [simp]: "Join (split_byte s d) [d] = s"
proof (induction s)
  case (Cons c s)
  obtain w ws where ws: "split_byte s d = w # ws" by (cases "split_byte s d") auto
  with Cons show ?case by (cases "c = d") (simp_all add: Join_head)
qed simp

text \<open>A pattern that ends in a percent sign still does in its canonical form.\<close>

lemma split_byte_snoc: "c \<noteq> d \<Longrightarrow> split_byte (s @ [c]) d = butlast (split_byte s d) @ [last (split_byte s d) @ [c]]"
proof (induction s)
  case (Cons x s)
  obtain w ws where ws: "split_byte s d = w # ws" by (cases "split_byte s d") auto
  with Cons show ?case by (cases ws) auto
qed simp

lemma Join_snoc: "\<exists>p. Join (ws @ [w]) sep = p @ w"
  by (induction ws) (auto simp: Join_Cons)

lemma canon_percent:
  assumes "d \<noteq> CHR ''%''"
  shows "\<exists>p. canon (s @ ''%'') [d] = p @ ''%''"
proof -
  let ?f = "\<lambda>name. if EqualFold name Inbox then Inbox else name"
  have "\<not> EqualFold (w @ ''%'') Inbox" for w
  proof
    assume "EqualFold (w @ ''%'') Inbox"
    then have "last (ToLower (w @ ''%'')) = last (ToLower Inbox)" by (simp only: EqualFold_def)
    moreover have "last (ToLower Inbox) = CHR ''x''" by code_simp
    ultimately show False by (simp add: lower_byte_def)
  qed
  then have "map ?f (split_byte (s @ ''%'') d) = map ?f (butlast (split_byte s d)) @ [last (split_byte s d) @ ''%'']"
    using assms by (simp add: split_byte_snoc)
  then obtain p where "canon (s @ ''%'') [d] = p @ (last (split_byte s d) @ ''%'')"
    unfolding canon_def Split_byte using Join_snoc [of "map ?f (butlast (split_byte s d))"] by auto
  then show ?thesis by (intro exI [of _ "p @ last (split_byte s d)"]) simp
qed

section \<open>Properties\<close>



text \<open>The pairs of a name and one of its superiors, in the order of the two loops.\<close>

definition level_pairs :: "string list \<Rightarrow> string \<Rightarrow> (string \<times> string) list" where
  "level_pairs order del = concat (map (\<lambda>n. map (Pair n) (listSuperiors n del @ [n])) order)"

lemma fold_outcome_append:
  "fold_outcome f (xs @ ys) acc = bind_outcome (fold_outcome f xs acc) (fold_outcome f ys)"
proof (induction xs arbitrary: acc)
  case (Cons x xs)
  then show ?case by (cases "f x acc") simp_all
qed simp

lemma fold_outcome_map: "fold_outcome f (map g xs) acc = fold_outcome (\<lambda>x. f (g x)) xs acc"
proof (induction xs arbitrary: acc)
  case (Cons x xs)
  then show ?case by (cases "f (g x) acc") simp_all
qed simp

lemma getMatches_pairs:
  "getMatches order all ref pattern del sub db =
     fold_outcome (\<lambda>(n, lvl). match_one (mailbox_map all) ref pattern del sub db n lvl) (level_pairs order del) []"
proof -
  have "fold_outcome (\<lambda>n. fold_outcome (f n) (g n)) ns acc
      = fold_outcome (\<lambda>(n, lvl). f n lvl) (concat (map (\<lambda>n. map (Pair n) (g n)) ns)) acc"
    for f :: "string \<Rightarrow> string \<Rightarrow> 'acc \<Rightarrow> ('e, 'acc) outcome" and g ns acc
  proof (induction ns arbitrary: acc)
    case (Cons n ns)
    have "fold_outcome (\<lambda>n. fold_outcome (f n) (g n)) (n # ns) acc
        = bind_outcome (fold_outcome (\<lambda>(n, lvl). f n lvl) (map (Pair n) (g n)) acc) (fold_outcome (\<lambda>n. fold_outcome (f n) (g n)) ns)"
      by (simp add: fold_outcome_map)
    then show ?case
      by (cases "fold_outcome (\<lambda>(n, lvl). f n lvl) (map (Pair n) (g n)) acc") (simp_all add: fold_outcome_append Cons)
  qed simp
  then show ?thesis unfolding getMatches_def level_pairs_def Let_def .
qed

definition lookup_mailbox :: "matchMailbox list \<Rightarrow> string \<Rightarrow> matchMailbox" where
  "lookup_mailbox all n = (case map_of (mailbox_map all) n of Some m \<Rightarrow> m | None \<Rightarrow> zero_mailbox)"

definition prepared :: "matchMailbox list \<Rightarrow> string \<Rightarrow> string \<Rightarrow> bool \<Rightarrow> database \<Rightarrow> bool \<Rightarrow> string \<Rightarrow> (state_error, Match option) outcome" where
  "prepared all pattern del sub db own n =
     prepareMatch n (lookup_mailbox all n) pattern del own (map_of (mailbox_map all) n \<noteq> None) sub db"

lemma mailbox_map_append: "mailbox_map (ms @ [m]) = AList.update (mm_Name m) m (mailbox_map ms)"
  by (simp add: mailbox_map_def)

lemma mailbox_map_Some: "map_of (mailbox_map all) n = Some m \<Longrightarrow> m \<in> set all \<and> mm_Name m = n"
proof (induction all rule: rev_induct)
  case (snoc x all)
  then show ?case by (auto simp: mailbox_map_append update_conv' split: if_splits)
qed (simp add: mailbox_map_def)

text \<open>The match of a name does not depend on the name it was found with, if there is one.\<close>

lemma prepared_own:
  "prepared all pattern del sub db own n = Ok (Some mt) \<Longrightarrow> prepared all pattern del sub db False n = Ok (Some mt) \<and> mt_Name mt = n"
  unfolding prepared_def prepareMatch_def lookup_mailbox_def
  by (auto simp: no_select_def split: if_splits option.splits dest: mailbox_map_Some)

definition tables_exist :: "matchMailbox list \<Rightarrow> database \<Rightarrow> bool" where
  "tables_exist all db \<longleftrightarrow>
     (\<forall>m \<in> set all. \<forall>ent. mm_EntMBox m = Some ent \<longrightarrow> map_of (t_mailbox_messages db) (mbx_ID (mwa_Mailbox ent)) \<noteq> None)"

lemma prepared_Ok:
  assumes "tables_exist all db"
  shows "\<exists>r. prepared all pattern del sub db own n = Ok r"
proof (cases "map_of (mailbox_map all) n")
  case None
  then show ?thesis by (simp add: prepared_def prepareMatch_def)
next
  case (Some m)
  with mailbox_map_Some have "m \<in> set all" by blast
  with assms have "\<exists>rows. map_of (t_mailbox_messages db) (mbx_ID (mwa_Mailbox ent)) = Some rows" if "mm_EntMBox m = Some ent" for ent
    using that by (auto simp: tables_exist_def)
  with Some show ?thesis
    by (cases "mm_EntMBox m")
      (auto simp: prepared_def prepareMatch_def lookup_mailbox_def GetMailboxRecentCount_def mailbox_rows_def)
qed

text \<open>The entries that a set of pairs leads to.\<close>

definition listed :: "matchMailbox list \<Rightarrow> string \<Rightarrow> string \<Rightarrow> string \<Rightarrow> bool \<Rightarrow> database \<Rightarrow> (string \<times> string) set \<Rightarrow> string \<Rightarrow> Match option" where
  "listed all ref pattern del sub db S n =
     (if \<exists>(k, lvl) \<in> S. match ref pattern del lvl = Some n \<and> prepared all pattern del sub db (k = n) n \<noteq> Ok None
      then (case prepared all pattern del sub db False n of Ok r \<Rightarrow> r | _ \<Rightarrow> None) else None)"

lemma match_one_listed:
  assumes ok: "tables_exist all db" and acc: "map_of acc = listed all ref pattern del sub db S"
  shows "\<exists>acc'. match_one (mailbox_map all) ref pattern del sub db k lvl acc = Ok acc'
    \<and> map_of acc' = listed all ref pattern del sub db (insert (k, lvl) S)"
proof (cases "match ref pattern del lvl")
  case None
  then show ?thesis using acc by (auto simp: match_one_def listed_def fun_eq_iff)
next
  case (Some n)
  have other: "listed all ref pattern del sub db (insert (k, lvl) S) n' = listed all ref pattern del sub db S n'" if "n' \<noteq> n" for n'
    using Some that by (simp add: listed_def)
  have same: "listed all ref pattern del sub db (insert (k, lvl) S) = listed all ref pattern del sub db S"
    if "listed all ref pattern del sub db (insert (k, lvl) S) n = listed all ref pattern del sub db S n"
    using that other by (metis (no_types, lifting) ext)
  obtain r where r: "prepared all pattern del sub db (k = n) n = Ok r" using prepared_Ok [OF ok] by blast
  show ?thesis
  proof (cases "listed all ref pattern del sub db S n")
    case (Some mt)
    then have "listed all ref pattern del sub db (insert (k, lvl) S) n = Some mt"
      unfolding listed_def by (auto split: if_splits)
    with Some have "listed all ref pattern del sub db (insert (k, lvl) S) = listed all ref pattern del sub db S"
      by (intro same) simp
    with Some \<open>match ref pattern del lvl = Some n\<close> acc show ?thesis by (simp add: match_one_def)
  next
    case None
    have one: "match_one (mailbox_map all) ref pattern del sub db k lvl acc
        = (case r of None \<Rightarrow> Ok acc | Some mt \<Rightarrow> Ok (AList.update (mt_Name mt) mt acc))"
      using Some None acc r unfolding prepared_def lookup_mailbox_def match_one_def by (simp add: Let_def)
    show ?thesis
    proof (cases r)
      case None
      then have "listed all ref pattern del sub db (insert (k, lvl) S) n = listed all ref pattern del sub db S n"
        using r by (simp add: listed_def)
      with one None acc same show ?thesis by simp
    next
      case (Some mt)
      with prepared_own r have mt: "prepared all pattern del sub db False n = Ok (Some mt)" "mt_Name mt = n" by blast+
      have "listed all ref pattern del sub db (insert (k, lvl) S) n = Some mt"
        using r Some mt(1) \<open>match ref pattern del lvl = Some n\<close> by (simp add: listed_def)
      with one Some mt(2) acc other show ?thesis by (auto simp: fun_eq_iff update_conv')
    qed
  qed
qed

lemma fold_listed:
  assumes "tables_exist all db" and "map_of acc = listed all ref pattern del sub db S"
  shows "\<exists>acc'. fold_outcome (\<lambda>(n, lvl). match_one (mailbox_map all) ref pattern del sub db n lvl) ps acc = Ok acc'
    \<and> map_of acc' = listed all ref pattern del sub db (S \<union> set ps)"
  using assms(2)
proof (induction ps arbitrary: acc S)
  case (Cons p ps)
  from match_one_listed [OF assms(1) Cons.prems, of "fst p" "snd p"] obtain acc1 where
    "match_one (mailbox_map all) ref pattern del sub db (fst p) (snd p) acc = Ok acc1"
    "map_of acc1 = listed all ref pattern del sub db (insert p S)" by auto
  with Cons.IH [of acc1 "insert p S"] show ?case by (auto simp: split_def)
qed simp

lemma getMatches_listed:
  assumes "tables_exist all db"
  shows "\<exists>ms. getMatches order all ref pattern del sub db = Ok ms
    \<and> map_of ms = listed all ref pattern del sub db (set (level_pairs order del))"
proof -
  have "map_of [] = listed all ref pattern del sub db {}" by (simp add: listed_def fun_eq_iff)
  from fold_listed [OF assms this] show ?thesis unfolding getMatches_pairs by fastforce
qed


definition example_names :: "matchMailbox list" where
  "example_names = map (\<lambda>n. \<lparr>mm_Name = n, mm_Subscribed = True, mm_EntMBox = None\<rparr>) [''a/b'', ''c'']"

lemma example_listing:
  "(case getMatches [''a/b'', ''c''] example_names [] ''%'' ''/'' False empty_database of Ok ms \<Rightarrow> map fst ms | _ \<Rightarrow> []) = [''a'', ''c'']"
  by code_simp


section \<open>Inferiors\<close>

lemma bytes_less_eq_linear: "bytes_less_eq s t \<or> bytes_less_eq t s"
  unfolding bytes_less_eq_def by (rule lexordp_eq_linear)

lemma bytes_less_eq_trans: "bytes_less_eq s t \<Longrightarrow> bytes_less_eq t u \<Longrightarrow> bytes_less_eq s u"
  unfolding bytes_less_eq_def by (rule lexordp_eq_trans)

lemma bytes_less_eq_antisym: "bytes_less_eq s t \<Longrightarrow> bytes_less_eq t s \<Longrightarrow> s = t"
  unfolding bytes_less_eq_def by (metis lexordp_eq_antisym list.inj_map_strong of_char_eq_iff)

lemma bytes_less_eq_prefix: "bytes_less_eq s (s @ t)"
  unfolding bytes_less_eq_def by (simp add: lexordp_eq_pref)

lemma set_insert_sorted [simp]: "set (insert_sorted s ts) = insert s (set ts)"
  by (induction ts) auto

lemma sorted_insert_sorted: "sorted_wrt bytes_less_eq ts \<Longrightarrow> sorted_wrt bytes_less_eq (insert_sorted s ts)"
  using bytes_less_eq_linear by (induction ts) (auto dest: bytes_less_eq_trans)

lemma slices_Sort_sorted: "sorted_wrt bytes_less_eq (slices_Sort ss)" and slices_Sort_set [simp]: "set (slices_Sort ss) = set ss"
  unfolding slices_Sort_def by (induction ss) (auto intro: sorted_insert_sorted)

text \<open>
  C12: The inferiors of a name are exactly the given names below it in the hierarchy, and each of them
  comes before the names above it, so that mailboxes are renamed and deleted from the leaves to the root.
\<close>

theorem listInferiors_spec:
  "set (listInferiors parent [d] names) = {n \<in> set names. \<exists>rest. n = parent @ d # rest}
   \<and> sorted_wrt (\<lambda>x y. \<not> (\<exists>rest. y = x @ d # rest)) (listInferiors parent [d] names)"
proof
  show "set (listInferiors parent [d] names) = {n \<in> set names. \<exists>rest. n = parent @ d # rest}"
    by (auto simp: listInferiors_def superiors_iff)
  have "sorted_wrt (\<lambda>x y. bytes_less_eq y x) (listInferiors parent [d] names)"
    unfolding listInferiors_def sorted_wrt_rev by (rule slices_Sort_sorted)
  then show "sorted_wrt (\<lambda>x y. \<not> (\<exists>rest. y = x @ d # rest)) (listInferiors parent [d] names)"
  proof (rule sorted_wrt_mono_rel [rotated])
    fix x y assume "bytes_less_eq y x"
    then show "\<not> (\<exists>rest. y = x @ d # rest)" using bytes_less_eq_antisym [OF bytes_less_eq_prefix] by fastforce
  qed
qed

end
