(* ===== verification/Backend_World.thy ===== *)
theory Backend_World
  imports State_Paths State_Queue
begin

text \<open>
  What the states and the updates of a user work on: the database, the store of the message literals, the map of
  the hashes of recovered messages and the states with their queues of updates. Code outside the repository and
  libraries are fields of \<open>env\<close>; answers that change from call to call are functions of the number of the call.

  The connector is a program that may only call the interface \<open>IMAPStateWrite\<close> it is given
  (\<open>internal/backend/connector_state_read.go\<close>, \<open>connector_state_write.go\<close>): it decides from the answers what
  to do next. The theory also has the operations that states and connector updates share
  (\<open>internal/state/updates_mailbox.go\<close>), the message hashes (\<open>internal/utils/message_hashmap.go\<close>), the adapter
  of the connector (\<open>internal/backend/state_connector_impl.go\<close>) and the distribution of updates
  (\<open>internal/backend/state_user_interface_impl.go\<close>).
\<close>

section \<open>The connector\<close>

datatype cache_call =
    Cc_GetSettings
  | Cc_GetMailboxCount
  | Cc_GetMailboxesWithoutAttrib
  | Cc_CreateMailbox imap_Mailbox
  | Cc_UpdateMessageFlags MessageID FlagSet
  | Cc_StoreSettings string
  | Cc_PatchMailboxHierarchyWithoutTransforms MailboxID "string list"
  | Cc_AddFlagsToAllMailboxes "string list"
  | Cc_AddPermFlagsToAllMailboxes "string list"

datatype cache_answer =
    Ca_unit
  | Ca_settings string bool
  | Ca_count nat
  | Ca_mailboxes "(MailboxID \<times> string list) list"

datatype 'a remote =
    Returned 'a
  | Failed state_error
  | Calls cache_call "state_error + cache_answer \<Rightarrow> 'a remote"

datatype MailboxVisibility = Hidden | Visible | HiddenIfEmpty

text \<open>The operations get the number of the call; a date is a number of seconds.\<close>

record connector =
  rc_CreateMailbox :: "nat \<Rightarrow> string list \<Rightarrow> imap_Mailbox remote"
  rc_UpdateMailboxName :: "nat \<Rightarrow> MailboxID \<Rightarrow> string list \<Rightarrow> unit remote"
  rc_DeleteMailbox :: "nat \<Rightarrow> MailboxID \<Rightarrow> unit remote"
  rc_CreateMessage :: "nat \<Rightarrow> MailboxID \<Rightarrow> string \<Rightarrow> FlagSet \<Rightarrow> int \<Rightarrow> (imap_Message \<times> string) remote"
  rc_GetMessageLiteral :: "nat \<Rightarrow> MessageID \<Rightarrow> (state_error, string) outcome"
  rc_AddMessagesToMailbox :: "nat \<Rightarrow> MessageID list \<Rightarrow> MailboxID \<Rightarrow> unit remote"
  rc_RemoveMessagesFromMailbox :: "nat \<Rightarrow> MessageID list \<Rightarrow> MailboxID \<Rightarrow> unit remote"
  rc_MoveMessages :: "nat \<Rightarrow> MessageID list \<Rightarrow> MailboxID \<Rightarrow> MailboxID \<Rightarrow> bool remote"
  rc_MarkMessagesSeen :: "nat \<Rightarrow> MessageID list \<Rightarrow> bool \<Rightarrow> unit remote"
  rc_MarkMessagesFlagged :: "nat \<Rightarrow> MessageID list \<Rightarrow> bool \<Rightarrow> unit remote"
  rc_MarkMessagesForwarded :: "nat \<Rightarrow> MessageID list \<Rightarrow> bool \<Rightarrow> unit remote"
  rc_GetMailboxVisibility :: "nat \<Rightarrow> MailboxID \<Rightarrow> MailboxVisibility"

section \<open>Environment and world\<close>

record ParsedMessage =
  pm_Body :: string
  pm_Structure :: string
  pm_Envelope :: string

text \<open>
  \<open>en_recovery\<close> is the ID of the recovery mailbox, \<open>en_extra\<close> what the database driver does with surplus
  arguments, \<open>en_commit\<close> the outcome of COMMIT, \<open>en_uuid\<close> and \<open>en_random\<close> the UUIDs drawn, \<open>en_store\<close> the
  failures of the store, \<open>en_true_first\<close> the order in which Go goes through a map with the keys true and false.
  \<open>en_set_header\<close> puts the internal ID into the header of a literal, \<open>en_get_header\<close> and
  \<open>en_erase_header\<close> read and remove it.
\<close>

record env =
  en_remote :: connector
  en_delimiter :: string
  en_limits :: IMAP
  en_recovery :: InternalMailboxID
  en_extra :: extra_args
  en_commit :: "nat \<Rightarrow> bool"
  en_uidValidity :: "nat \<Rightarrow> (state_error, UID) outcome"
  en_uuid :: "nat \<Rightarrow> InternalMessageID"
  en_random :: "nat \<Rightarrow> string"
  en_show_id :: "InternalMessageID \<Rightarrow> string"
  en_hash :: "string \<Rightarrow> (state_error, string) outcome"
  en_parse :: "string \<Rightarrow> (state_error, ParsedMessage) outcome"
  en_set_header :: "string \<Rightarrow> InternalMessageID \<Rightarrow> (state_error, string) outcome"
  en_get_header :: "string \<Rightarrow> (state_error, string) outcome"
  en_erase_header :: "string \<Rightarrow> (state_error, string) outcome"
  en_parse_id :: "string \<Rightarrow> (state_error, InternalMessageID) outcome"
  en_store :: "nat \<Rightarrow> state_error option"
  en_true_first :: "nat \<Rightarrow> bool"

record MessageHashesMap =
  hm_idToHash :: "(InternalMessageID \<times> string) list"
  hm_hashes :: "string list"

datatype StateUpdate = Upd Update | ExistsUpd ExistsStateUpdate

text \<open>
  A queued update of new messages is a pointer that the queues of all states share: \<open>Q_exists n\<close> is the
  \<open>n\<close>-th of them.
\<close>

datatype queued = Q_update Update | Q_exists nat

record user_state =
  us_state :: State
  us_updates :: "queued list"

record world =
  w_db :: database
  w_store :: "(InternalMessageID \<times> string) list"
  w_hashes :: MessageHashesMap
  w_states :: "user_state list"
  w_exists :: "ExistsStateUpdate list"
  w_calls :: nat

type_synonym 'a uact = "(world, 'a) act"

definition tick :: "nat uact" where
  "tick w = (Ok (w_calls w), w\<lparr>w_calls := w_calls w + 1\<rparr>)"

definition on_db :: "'a tx \<Rightarrow> 'a uact" where
  "on_db m w = (case m (w_db w) of (r, d) \<Rightarrow> (r, w\<lparr>w_db := d\<rparr>))"

text \<open>A read of the database and the checks of the limits.\<close>

definition rd :: "(database \<Rightarrow> (state_error, 'a) outcome) \<Rightarrow> 'a uact" where
  "rd f = on_db (reads f)"

definition check :: "limit_error option \<Rightarrow> ('s, unit) act" where
  "check r = (case r of None \<Rightarrow> ret () | Some e \<Rightarrow> fail (ErrLimit e))"

text \<open>
  A transaction of the database: an error undoes the changes of the database and nothing else.
\<close>

definition db_Write :: "env \<Rightarrow> 'a uact \<Rightarrow> 'a uact" where
  "db_Write env op w =
     (case op (w\<lparr>w_calls := w_calls w + 1\<rparr>) of
        (Ok x, w') \<Rightarrow>
          if en_commit env (w_calls w) then (Ok x, w')
          else (Err (ErrDB ErrTransactionFailed), w'\<lparr>w_db := w_db w\<rparr>)
      | (Err e, w') \<Rightarrow> (Err e, w'\<lparr>w_db := w_db w\<rparr>)
      | (Panic p, w') \<Rightarrow> (Panic p, w'\<lparr>w_db := w_db w\<rparr>))"

definition GenerateUIDValidity :: "env \<Rightarrow> UID uact" where
  "GenerateUIDValidity env = act_bind tick (\<lambda>n. lift (en_uidValidity env n))"

definition NewInternalMessageID :: "env \<Rightarrow> InternalMessageID uact" where
  "NewInternalMessageID env = act_bind tick (\<lambda>n. ret (en_uuid env n))"

section \<open>The store\<close>

definition store_call :: "env \<Rightarrow> unit uact" where
  "store_call env = act_bind tick (\<lambda>n. case en_store env n of None \<Rightarrow> ret () | Some e \<Rightarrow> fail e)"

definition store_Set :: "env \<Rightarrow> InternalMessageID \<Rightarrow> string \<Rightarrow> unit uact" where
  "store_Set env i literal =
     act_then (store_call env) (modify (\<lambda>w. w\<lparr>w_store := AList.update i literal (w_store w)\<rparr>))"

definition store_Get :: "env \<Rightarrow> InternalMessageID \<Rightarrow> string uact" where
  "store_Get env i =
     act_then (store_call env)
       (reads (\<lambda>w. case map_of (w_store w) i of Some l \<Rightarrow> Ok l | None \<Rightarrow> Err (ErrOther ''file does not exist'')))"

definition store_Delete :: "env \<Rightarrow> InternalMessageID list \<Rightarrow> unit uact" where
  "store_Delete env is =
     for_each (\<lambda>i. act_then (store_call env) (modify (\<lambda>w. w\<lparr>w_store := AList.delete i (w_store w)\<rparr>))) is"

section \<open>Hashes of recovered messages\<close>

definition NewMessageHashesMap :: MessageHashesMap where
  "NewMessageHashesMap = \<lparr>hm_idToHash = [], hm_hashes = []\<rparr>"

definition hashes_Insert ::
    "(string \<Rightarrow> (state_error, string) outcome) \<Rightarrow> InternalMessageID \<Rightarrow> string \<Rightarrow> (MessageHashesMap, bool) act" where
  "hashes_Insert hash i literal =
     act_bind (lift (hash literal)) (\<lambda>h.
       act_bind (reads (\<lambda>m. Ok (h \<in> set (hm_hashes m)))) (\<lambda>known.
         if known then ret True
         else act_then
           (modify (\<lambda>m. m\<lparr>hm_idToHash := AList.update i h (hm_idToHash m), hm_hashes := h # hm_hashes m\<rparr>))
           (ret False)))"

fun hashes_Erase :: "InternalMessageID list \<Rightarrow> MessageHashesMap \<Rightarrow> MessageHashesMap" where
  "hashes_Erase [] m = m"
| "hashes_Erase (i # is) m =
     hashes_Erase is
       (let m1 = (case map_of (hm_idToHash m) i of
                    Some h \<Rightarrow> m\<lparr>hm_hashes := filter (\<lambda>h'. h' \<noteq> h) (hm_hashes m)\<rparr>
                  | None \<Rightarrow> m)
        in m1\<lparr>hm_idToHash := AList.delete i (hm_idToHash m1)\<rparr>)"

definition on_hashes :: "(MessageHashesMap, 'a) act \<Rightarrow> 'a uact" where
  "on_hashes f w = (case f (w_hashes w) of (r, m) \<Rightarrow> (r, w\<lparr>w_hashes := m\<rparr>))"

definition erase_hashes :: "InternalMessageID list \<Rightarrow> unit uact" where
  "erase_hashes is = on_hashes (modify (hashes_Erase is))"

section \<open>IDs of recovered messages\<close>

definition GluonRecoveryMailboxName :: string where
  "GluonRecoveryMailboxName = ''Recovered Messages''"

definition GluonRecoveryMailboxNameLowerCase :: string where
  "GluonRecoveryMailboxNameLowerCase = ''recovered messages''"

definition GluonInternalRecoveryMailboxRemoteID :: MailboxID where
  "GluonInternalRecoveryMailboxRemoteID = ''GLUON-INTERNAL-RECOVERY-MBOX''"

definition recovered_prefix :: string where
  "recovered_prefix = ''GLUON-RECOVERED-MESSAGE''"

definition NewRecoveredRemoteMessageID :: "env \<Rightarrow> InternalMessageID \<Rightarrow> MessageID" where
  "NewRecoveredRemoteMessageID env i = recovered_prefix @ ''-'' @ en_show_id env i"

definition IsRecoveredRemoteMessageID :: "MessageID \<Rightarrow> bool" where
  "IsRecoveredRemoteMessageID i = prefix recovered_prefix i"

section \<open>Messages of a mailbox\<close>

definition uid_exists :: "SnapshotMessageResult \<Rightarrow> exists" where
  "uid_exists u = \<lparr>ex_messageID = \<lparr>InternalID = sr_InternalID u, RemoteID = sr_RemoteID u\<rparr>,
     ex_messageUID = sr_UID u, ex_flags = GetFlagSet u\<rparr>"

definition NewMessageIDAndMailboxIDResponderStateUpdate ::
    "InternalMessageID \<Rightarrow> InternalMailboxID \<Rightarrow> Responder list \<Rightarrow> StateUpdate" where
  "NewMessageIDAndMailboxIDResponderStateUpdate i b responders =
     Upd (responderStateUpdate (MessageAndMBoxIDStateFilter i b) responders)"

definition expunge_updates :: "InternalMailboxID \<Rightarrow> InternalMessageID list \<Rightarrow> StateUpdate list" where
  "expunge_updates b is = map (\<lambda>i. NewMessageIDAndMailboxIDResponderStateUpdate i b [Res_expunge i]) is"

definition check_room :: "env \<Rightarrow> InternalMailboxID \<Rightarrow> nat \<Rightarrow> unit tx" where
  "check_room env b n =
     act_bind (reads (GetMailboxMessageCountAndUID b)) (\<lambda>(messageCount, uid).
       act_then (check (CheckMailBoxMessageCount (en_limits env) (of_nat messageCount) (of_nat n)))
         (check (CheckUIDCount (en_limits env) uid (of_nat n))))"

definition MoveMessagesFromMailbox ::
    "env \<Rightarrow> InternalMailboxID \<Rightarrow> InternalMailboxID \<Rightarrow> MessageIDPair list \<Rightarrow> InternalMessageID list \<Rightarrow> StateID option \<Rightarrow> bool \<Rightarrow>
       (SnapshotMessageResult list \<times> StateUpdate list) tx" where
  "MoveMessagesFromMailbox env mboxFromID mboxToID messageIDPairs messageIDsInternal s removeOldMessages =
     act_then (check_room env mboxToID (length messageIDPairs))
       (act_then
         (if mboxFromID \<noteq> mboxToID \<and> removeOldMessages
          then RemoveMessagesFromMailbox_db (en_extra env) mboxFromID messageIDsInternal else ret ())
         (act_bind (AddMessagesToMailbox_db mboxToID messageIDPairs) (\<lambda>messageUIDs.
            ret (messageUIDs,
              ExistsUpd (newExistsStateUpdateWithExists mboxToID (map uid_exists messageUIDs) s)
              # (if removeOldMessages then expunge_updates mboxFromID messageIDsInternal else [])))))"

definition AddMessagesToMailbox ::
    "env \<Rightarrow> InternalMailboxID \<Rightarrow> MessageIDPair list \<Rightarrow> StateID option \<Rightarrow> (SnapshotMessageResult list \<times> StateUpdate) tx" where
  "AddMessagesToMailbox env mbox messageIDs s =
     act_then (check_room env mbox (length messageIDs))
       (act_bind (AddMessagesToMailbox_db mbox messageIDs) (\<lambda>messageUIDs.
          ret (messageUIDs, ExistsUpd (newExistsStateUpdateWithExists mbox (map uid_exists messageUIDs) s))))"

definition RemoveMessagesFromMailbox ::
    "env \<Rightarrow> InternalMailboxID \<Rightarrow> InternalMessageID list \<Rightarrow> StateUpdate list tx" where
  "RemoveMessagesFromMailbox env mbox messageIDs =
     act_then (if messageIDs \<noteq> [] then RemoveMessagesFromMailbox_db (en_extra env) mbox messageIDs else ret ())
       (ret (expunge_updates mbox messageIDs))"

section \<open>Flags of one message\<close>

definition removeMessageFlags :: "InternalMessageID \<Rightarrow> string \<Rightarrow> StateUpdate tx" where
  "removeMessageFlags i flag =
     act_then (RemoveFlagFromMessages [i] flag) (ret (Upd (RemoteRemoveMessageFlagsStateUpdate i flag)))"

definition addMessageFlags :: "InternalMessageID \<Rightarrow> string \<Rightarrow> StateUpdate tx" where
  "addMessageFlags i flag =
     act_then (AddFlagToMessages [i] flag) (ret (Upd (RemoteAddMessageFlagsStateUpdate i flag)))"

definition user_setMessageFlags :: "InternalMessageID \<Rightarrow> FlagSet \<Rightarrow> StateUpdate list tx" where
  "user_setMessageFlags i flags =
     act_bind (reads (GetMessagesFlags [i])) (\<lambda>curFlags.
       case curFlags of
         [] \<Rightarrow> act_panic ''index out of range''
       | cur # _ \<Rightarrow>
           act_bind (for_all (removeMessageFlags i) (filter (\<lambda>v. \<not> Contains flags v) (Values (mfs_FlagSet cur)))) (\<lambda>rem.
             act_bind (for_all (addMessageFlags i) (filter (\<lambda>v. \<not> Contains (mfs_FlagSet cur) v) (Values flags))) (\<lambda>add.
               ret (rem @ add))))"

text \<open>An error that means that there is no such message, and a missing message as an error of its own.\<close>

definition not_found_is :: "state_error \<Rightarrow> 'a uact \<Rightarrow> 'a uact" where
  "not_found_is e m = act_bind (attempt m) (\<lambda>r.
     case r of Inr x \<Rightarrow> ret x | Inl e' \<Rightarrow> fail (if IsErrNotFound e' then e else e'))"

section \<open>The interface of the connector\<close>

text \<open>\<open>strings.Split\<close>: with an empty separator the string is cut into its UTF-8 sequences.\<close>

definition rune_width :: "string \<Rightarrow> nat" where
  "rune_width s = (case decode_rune s of Some (_, n) \<Rightarrow> n | None \<Rightarrow> 1)"

function explode :: "string \<Rightarrow> string list" where
  "explode s = (if s = [] then [] else take (rune_width s) s # explode (drop (rune_width s) s))"
  by pat_completeness auto
termination
  by (relation "measure length") (auto simp: rune_width_def split: option.splits dest: decode_rune_width)

declare explode.simps [simp del]

definition strings_Split :: "string \<Rightarrow> string \<Rightarrow> string list" where
  "strings_Split s sep = (if sep = [] then explode s else Split s sep)"

definition create_checked :: "env \<Rightarrow> imap_Mailbox \<Rightarrow> UID \<Rightarrow> unit uact" where
  "create_checked env mailbox uidValidity =
     act_bind (rd GetMailboxCount) (\<lambda>n.
       act_then (check (CheckMailBoxCount (en_limits env) (of_nat n)))
         (act_then (on_db (CreateMailbox (im_ID mailbox) (Join (im_Name mailbox) (en_delimiter env))
             (im_Flags mailbox) (im_PermanentFlags mailbox) (im_Attributes mailbox) uidValidity))
           (ret ())))"

definition cache_CreateMailbox :: "env \<Rightarrow> imap_Mailbox \<Rightarrow> unit uact" where
  "cache_CreateMailbox env mailbox =
     (if im_ID mailbox = GluonInternalRecoveryMailboxRemoteID
      then fail (ErrOther ''attempting to create protected mailbox (recovery)'')
      else act_bind (rd (MailboxExistsWithRemoteID (im_ID mailbox))) (\<lambda>exists.
        if exists then ret ()
        else act_bind (GenerateUIDValidity env) (\<lambda>uidValidity.
          act_then (check (CheckUIDValidity (en_limits env) uidValidity)) (create_checked env mailbox uidValidity))))"

definition cache_UpdateMessageFlags :: "MessageID \<Rightarrow> FlagSet \<Rightarrow> StateUpdate list uact" where
  "cache_UpdateMessageFlags r flags =
     act_bind (rd (MessageExistsWithRemoteID r)) (\<lambda>exists.
       if \<not> exists then fail ErrNoSuchMessage
       else act_bind (not_found_is ErrNoSuchMessage (rd (GetMessageIDFromRemoteID r))) (\<lambda>i.
         on_db (user_setMessageFlags i flags)))"

definition cache_StoreSettings :: "string \<Rightarrow> unit uact" where
  "cache_StoreSettings settings = on_db (StoreConnectorSettings settings)"

definition cache_PatchMailboxHierarchyWithoutTransforms :: "string \<Rightarrow> MailboxID \<Rightarrow> string list \<Rightarrow> unit uact" where
  "cache_PatchMailboxHierarchyWithoutTransforms delimiter r newName =
     on_db (RenameMailboxWithRemoteID r (Join newName delimiter))"

definition cache_GetMailboxesWithoutAttrib :: "string \<Rightarrow> (MailboxID \<times> string list) list uact" where
  "cache_GetMailboxesWithoutAttrib delimiter =
     act_bind (rd GetAllMailboxesNameAndRemoteID) (\<lambda>mboxes.
       ret (map (\<lambda>(n, r). (r, strings_Split n delimiter)) mboxes))"

definition no_updates :: "cache_answer \<Rightarrow> (cache_answer \<times> StateUpdate list) uact" where
  "no_updates a = ret (a, [])"

fun cache_exec :: "env \<Rightarrow> string \<Rightarrow> cache_call \<Rightarrow> (cache_answer \<times> StateUpdate list) uact" where
  "cache_exec env del Cc_GetSettings = act_bind (rd GetConnectorSettings) (\<lambda>(s, b). no_updates (Ca_settings s b))"
| "cache_exec env del Cc_GetMailboxCount = act_bind (rd GetMailboxCount) (\<lambda>n. no_updates (Ca_count n))"
| "cache_exec env del Cc_GetMailboxesWithoutAttrib =
     act_bind (cache_GetMailboxesWithoutAttrib del) (\<lambda>ms. no_updates (Ca_mailboxes ms))"
| "cache_exec env del (Cc_CreateMailbox m) = act_then (cache_CreateMailbox env m) (no_updates Ca_unit)"
| "cache_exec env del (Cc_UpdateMessageFlags r flags) =
     act_bind (cache_UpdateMessageFlags r flags) (\<lambda>us. ret (Ca_unit, us))"
| "cache_exec env del (Cc_StoreSettings s) = act_then (cache_StoreSettings s) (no_updates Ca_unit)"
| "cache_exec env del (Cc_PatchMailboxHierarchyWithoutTransforms r n) =
     act_then (cache_PatchMailboxHierarchyWithoutTransforms del r n) (no_updates Ca_unit)"
| "cache_exec env del (Cc_AddFlagsToAllMailboxes fs) = act_then (on_db (AddFlagsToAllMailboxes fs)) (no_updates Ca_unit)"
| "cache_exec env del (Cc_AddPermFlagsToAllMailboxes fs) =
     act_then (on_db (AddPermFlagsToAllMailboxes fs)) (no_updates Ca_unit)"

text \<open>The connector runs with an interface that collects the updates for the states.\<close>

primrec run_remote :: "env \<Rightarrow> string \<Rightarrow> 'a remote \<Rightarrow> StateUpdate list \<Rightarrow> (StateUpdate list \<times> 'a) uact" where
  "run_remote env del (Returned x) = (\<lambda>updates. ret (updates, x))"
| "run_remote env del (Failed e) = (\<lambda>updates. fail e)"
| "run_remote env del (Calls c k) = (\<lambda>updates.
     act_bind (attempt (cache_exec env del c)) (\<lambda>r.
       case r of
         Inl e \<Rightarrow> run_remote env del (k (Inl e)) updates
       | Inr (a, us) \<Rightarrow> run_remote env del (k (Inr a)) (updates @ us)))"

section \<open>The connector as the states see it\<close>

text \<open>The interface that \<open>newDBIMAPWrite\<close> builds has no delimiter.\<close>

definition remote_call :: "env \<Rightarrow> (connector \<Rightarrow> nat \<Rightarrow> 'a remote) \<Rightarrow> (StateUpdate list \<times> 'a) uact" where
  "remote_call env f = act_bind tick (\<lambda>n. run_remote env [] (f (en_remote env) n) [])"

definition updates_only :: "(StateUpdate list \<times> unit) uact \<Rightarrow> StateUpdate list uact" where
  "updates_only m = act_bind m (\<lambda>(us, _). ret us)"

definition sc_CreateMailbox :: "env \<Rightarrow> string list \<Rightarrow> (StateUpdate list \<times> imap_Mailbox) uact" where
  "sc_CreateMailbox env name = remote_call env (\<lambda>rc n. rc_CreateMailbox rc n name)"

definition sc_UpdateMailbox :: "env \<Rightarrow> MailboxID \<Rightarrow> string list \<Rightarrow> StateUpdate list uact" where
  "sc_UpdateMailbox env r newName = updates_only (remote_call env (\<lambda>rc n. rc_UpdateMailboxName rc n r newName))"

definition sc_DeleteMailbox :: "env \<Rightarrow> MailboxID \<Rightarrow> StateUpdate list uact" where
  "sc_DeleteMailbox env r = updates_only (remote_call env (\<lambda>rc n. rc_DeleteMailbox rc n r))"

definition sc_CreateMessage ::
    "env \<Rightarrow> MailboxID \<Rightarrow> string \<Rightarrow> FlagSet \<Rightarrow> int \<Rightarrow> (StateUpdate list \<times> InternalMessageID \<times> imap_Message \<times> string) uact" where
  "sc_CreateMessage env r literal flags date =
     act_bind (remote_call env (\<lambda>rc n. rc_CreateMessage rc n r literal flags date)) (\<lambda>(us, msg, newLiteral).
       act_bind (NewInternalMessageID env) (\<lambda>i. ret (us, i, msg, newLiteral)))"

definition sc_GetMessageLiteral :: "env \<Rightarrow> MessageID \<Rightarrow> string uact" where
  "sc_GetMessageLiteral env r = act_bind tick (\<lambda>n. lift (rc_GetMessageLiteral (en_remote env) n r))"

definition sc_AddMessagesToMailbox :: "env \<Rightarrow> MessageID list \<Rightarrow> MailboxID \<Rightarrow> StateUpdate list uact" where
  "sc_AddMessagesToMailbox env ids r = updates_only (remote_call env (\<lambda>rc n. rc_AddMessagesToMailbox rc n ids r))"

definition sc_RemoveMessagesFromMailbox :: "env \<Rightarrow> MessageID list \<Rightarrow> MailboxID \<Rightarrow> StateUpdate list uact" where
  "sc_RemoveMessagesFromMailbox env ids r =
     updates_only (remote_call env (\<lambda>rc n. rc_RemoveMessagesFromMailbox rc n ids r))"

definition sc_MoveMessagesFromMailbox ::
    "env \<Rightarrow> MessageID list \<Rightarrow> MailboxID \<Rightarrow> MailboxID \<Rightarrow> (StateUpdate list \<times> bool) uact" where
  "sc_MoveMessagesFromMailbox env ids r r' = remote_call env (\<lambda>rc n. rc_MoveMessages rc n ids r r')"

definition sc_SetMessagesSeen :: "env \<Rightarrow> MessageID list \<Rightarrow> bool \<Rightarrow> StateUpdate list uact" where
  "sc_SetMessagesSeen env ids seen = updates_only (remote_call env (\<lambda>rc n. rc_MarkMessagesSeen rc n ids seen))"

definition sc_SetMessagesFlagged :: "env \<Rightarrow> MessageID list \<Rightarrow> bool \<Rightarrow> StateUpdate list uact" where
  "sc_SetMessagesFlagged env ids flagged = updates_only (remote_call env (\<lambda>rc n. rc_MarkMessagesFlagged rc n ids flagged))"

definition sc_SetMessagesForwarded :: "env \<Rightarrow> MessageID list \<Rightarrow> bool \<Rightarrow> StateUpdate list uact" where
  "sc_SetMessagesForwarded env ids forwarded =
     updates_only (remote_call env (\<lambda>rc n. rc_MarkMessagesForwarded rc n ids forwarded))"

section \<open>Updates of the states\<close>

text \<open>Updates of new messages get an address when they are queued.\<close>

fun publish :: "StateUpdate list \<Rightarrow> ExistsStateUpdate list \<Rightarrow> queued list \<times> ExistsStateUpdate list" where
  "publish [] es = ([], es)"
| "publish (Upd u # us) es = (let (qs, es') = publish us es in (Q_update u # qs, es'))"
| "publish (ExistsUpd e # us) es = (let (qs, es') = publish us (es @ [e]) in (Q_exists (length es) # qs, es'))"

definition QueueUpdates :: "queued list \<Rightarrow> user_state \<Rightarrow> user_state" where
  "QueueUpdates qs u = u\<lparr>us_updates := us_updates u @ qs\<rparr>"

text \<open>
  A state that executes a command is not idle, so that applying an update only queues responders and does not
  change the database.
\<close>

fun apply_own ::
    "cmd_ctx \<Rightarrow> queued list \<Rightarrow> State \<Rightarrow> ExistsStateUpdate list \<Rightarrow> (state_error, unit) outcome \<times> State \<times> ExistsStateUpdate list" where
  "apply_own ctx [] s es = (Ok (), s, es)"
| "apply_own ctx (Q_update u # qs) s es =
     (case ApplyUpdate (\<lambda>_. None) ctx u s of
        (Ok _, _, s') \<Rightarrow> apply_own ctx qs s' es
      | (out, _, s') \<Rightarrow> (out, s', es))"
| "apply_own ctx (Q_exists n # qs) s es =
     (case ApplyExistsUpdate (\<lambda>_. None) ctx (es ! n) s of
        ((Ok _, _, s'), e) \<Rightarrow> apply_own ctx qs s' (es[n := e])
      | ((out, _, s'), e) \<Rightarrow> (out, s', es[n := e]))"

fun distribute ::
    "cmd_ctx \<Rightarrow> StateID \<Rightarrow> queued list \<Rightarrow> user_state list \<Rightarrow> ExistsStateUpdate list \<Rightarrow>
       (state_error, unit) outcome \<times> user_state list \<times> ExistsStateUpdate list" where
  "distribute ctx sid qs [] es = (Ok (), [], es)"
| "distribute ctx sid qs (u # us) es =
     (if st_StateID (us_state u) \<noteq> sid
      then (let (r, us', es') = distribute ctx sid qs us es in (r, QueueUpdates qs u # us', es'))
      else (case apply_own ctx qs (us_state u) es of
              (Ok _, s', es') \<Rightarrow>
                (let (r, us', es'') = distribute ctx sid qs us es' in (r, u\<lparr>us_state := s'\<rparr> # us', es''))
            | (out, s', es') \<Rightarrow> (out, u\<lparr>us_state := s'\<rparr> # us, es')))"

definition QueueOrApplyStateUpdate :: "cmd_ctx \<Rightarrow> StateID \<Rightarrow> StateUpdate list \<Rightarrow> unit uact" where
  "QueueOrApplyStateUpdate ctx sid updates w =
     (let (qs, es) = publish updates (w_exists w);
          (r, us, es') = distribute ctx sid qs (w_states w) es
      in (r, w\<lparr>w_states := us, w_exists := es'\<rparr>))"

definition queueStateUpdate :: "StateUpdate list \<Rightarrow> unit uact" where
  "queueStateUpdate updates =
     modify (\<lambda>w. let (qs, es) = publish updates (w_exists w)
                 in w\<lparr>w_states := map (QueueUpdates qs) (w_states w), w_exists := es\<rparr>)"

text \<open>
  The states are told of a change in a second transaction, after the first has been written.
\<close>

definition stateDBWriteResult :: "env \<Rightarrow> cmd_ctx \<Rightarrow> StateID \<Rightarrow> (StateUpdate list \<times> 'a) uact \<Rightarrow> 'a uact" where
  "stateDBWriteResult env ctx sid fn =
     act_bind (db_Write env fn) (\<lambda>(updates, result).
       act_then (if updates \<noteq> [] then db_Write env (QueueOrApplyStateUpdate ctx sid updates) else ret ())
         (ret result))"

definition stateDBWrite :: "env \<Rightarrow> cmd_ctx \<Rightarrow> StateID \<Rightarrow> StateUpdate list uact \<Rightarrow> unit uact" where
  "stateDBWrite env ctx sid fn =
     act_bind (db_Write env fn) (\<lambda>updates.
       if updates \<noteq> [] then db_Write env (QueueOrApplyStateUpdate ctx sid updates) else ret ())"

definition userDBWrite :: "env \<Rightarrow> StateUpdate list uact \<Rightarrow> unit uact" where
  "userDBWrite env fn =
     act_bind (db_Write env fn) (\<lambda>updates. if updates \<noteq> [] then queueStateUpdate updates else ret ())"

end
