(* ===== verification/State_Actions.thy ===== *)
theory State_Actions
  imports Backend_World
begin

text \<open>
  The actions of a state inside a transaction (\<open>internal/state/actions.go\<close>) and the changes of flags
  (\<open>internal/state/updates.go\<close>). An action reads the state it belongs to and returns the updates that
  the states will apply. The context of an error that is passed on (\<open>fmt.Errorf\<close> with \<open>%w\<close>) is left out.
\<close>

section \<open>Flags\<close>

definition FlagFlaggedLowerCase :: string where
  "FlagFlaggedLowerCase = CHR 0x5C # ''flagged''"

definition ForwardFlagList :: "string list" where
  "ForwardFlagList = [''$Forwarded'', ''Forwarded'']"

definition ForwardFlagListLowerCase :: "string list" where
  "ForwardFlagListLowerCase = [''$forwarded'', ''forwarded'']"

definition is_seen :: "FlagSet \<Rightarrow> bool" where
  "is_seen fs = ContainsUnchecked fs FlagSeenLowerCase"

definition is_flagged :: "FlagSet \<Rightarrow> bool" where
  "is_flagged fs = ContainsUnchecked fs FlagFlaggedLowerCase"

definition is_forwarded :: "FlagSet \<Rightarrow> bool" where
  "is_forwarded fs = ContainsAnyUnchecked fs ForwardFlagListLowerCase"

text \<open>All known variations of the forward flag, if one of them is present.\<close>

definition with_forwards :: "FlagSet \<Rightarrow> FlagSet" where
  "with_forwards fs = (if is_forwarded fs then AddToSelf fs ForwardFlagList else fs)"

definition read_only_flag :: state_error where
  "read_only_flag = ErrOther ''the recent flag is read-only''"

text \<open>The field \<open>state.snap.mboxID\<close>.\<close>

definition snap_mboxID :: "State \<Rightarrow> ('s, MailboxIDPair) act" where
  "snap_mboxID st = (case st_snap st of None \<Rightarrow> act_panic ''nil pointer dereference'' | Some snap \<Rightarrow> ret (mboxID snap))"

definition flags_update :: "State \<Rightarrow> FlagSet \<Rightarrow> MailboxIDPair \<Rightarrow> InternalMessageID list \<Rightarrow> messageFlagsStateUpdate" where
  "flags_update st flags mbox ids =
     \<lparr>mf_messageIDs = ids, mf_flags = flags, mf_mboxID = mbox, mf_stateID = st_StateID st\<rparr>"

text \<open>
  The closures \<open>doFlagAdd\<close> and \<open>doRemoveFlags\<close>: the connector is told about the messages that the flag is not
  on yet (or is on), unless they are recovered messages.
\<close>

definition doFlags ::
    "bool \<Rightarrow> (FlagSet \<Rightarrow> bool) \<Rightarrow> FlagSet \<Rightarrow> MessageFlagSet list \<Rightarrow> (MessageID list \<Rightarrow> StateUpdate list uact) \<Rightarrow> StateUpdate list uact" where
  "doFlags present chk flags curFlags remoteDo =
     (let messagesToApply = map mfs_RemoteID (filter (\<lambda>msg. chk (mfs_FlagSet msg) = present
            \<and> \<not> IsRecoveredRemoteMessageID (mfs_RemoteID msg)) curFlags)
      in if chk flags \<and> messagesToApply \<noteq> [] then remoteDo messagesToApply else ret [])"

definition remote_flags :: "env \<Rightarrow> bool \<Rightarrow> FlagSet \<Rightarrow> MessageFlagSet list \<Rightarrow> StateUpdate list uact" where
  "remote_flags env add flags curFlags =
     act_bind (doFlags (\<not> add) is_seen flags curFlags (\<lambda>ids. sc_SetMessagesSeen env ids add)) (\<lambda>u1.
       act_bind (doFlags (\<not> add) is_flagged flags curFlags (\<lambda>ids. sc_SetMessagesFlagged env ids add)) (\<lambda>u2.
         act_bind (doFlags (\<not> add) is_forwarded flags curFlags (\<lambda>ids. sc_SetMessagesForwarded env ids add)) (\<lambda>u3.
           ret (u1 @ u2 @ u3))))"

text \<open>The part for the flag Deleted, which belongs to a message in a mailbox.\<close>

definition deleted_flag ::
    "State \<Rightarrow> fetchFlagOp \<Rightarrow> bool \<Rightarrow> InternalMessageID list \<Rightarrow> FlagSet \<Rightarrow> (fetchFlagOp \<times> messageFlagsStateUpdate) list uact" where
  "deleted_flag st op deleted ids flags =
     (if ContainsUnchecked flags FlagDeletedLowerCase
      then act_bind (snap_mboxID st) (\<lambda>mbox.
        act_then (on_db (SetMailboxMessagesDeletedFlag (mp_InternalID mbox) ids deleted))
          (ret [(op, flags_update st (NewFlagSet [FlagDeleted]) mbox ids)]))
      else ret [])"

definition messages_to_flag :: "bool \<Rightarrow> string \<Rightarrow> MessageFlagSet list \<Rightarrow> InternalMessageID list" where
  "messages_to_flag present flag curFlags =
     map mfs_ID (filter (\<lambda>v. ContainsUnchecked (mfs_FlagSet v) (ToLower flag) = present) curFlags)"

definition applyMessageFlagsAdded :: "env \<Rightarrow> State \<Rightarrow> InternalMessageID list \<Rightarrow> FlagSet \<Rightarrow> StateUpdate list uact" where
  "applyMessageFlagsAdded env st messageIDs addFlags =
     (if ContainsUnchecked addFlags FlagRecentLowerCase then fail read_only_flag
      else act_bind (rd (GetMessagesFlags messageIDs)) (\<lambda>curFlags.
        act_bind (remote_flags env True addFlags curFlags) (\<lambda>allUpdates.
          let addFlags = with_forwards addFlags; remainingFlags = Remove addFlags [FlagDeleted] in
          act_bind (deleted_flag st FetchFlagOpAdd True messageIDs addFlags) (\<lambda>combo1.
            act_bind (for_all (\<lambda>flag.
                let messagesToFlag = messages_to_flag False flag curFlags in
                act_then (on_db (AddFlagToMessages messagesToFlag flag))
                  (act_bind (snap_mboxID st) (\<lambda>mbox.
                     ret (FetchFlagOpAdd, flags_update st remainingFlags mbox messagesToFlag)))) (Values remainingFlags)) (\<lambda>combo2.
              ret (allUpdates @ [Upd (messageFlagsComboStateUpdate (combo1 @ combo2))]))))))"

definition applyMessageFlagsRemoved :: "env \<Rightarrow> State \<Rightarrow> InternalMessageID list \<Rightarrow> FlagSet \<Rightarrow> StateUpdate list uact" where
  "applyMessageFlagsRemoved env st messageIDs remFlags =
     (if ContainsUnchecked remFlags FlagRecentLowerCase then fail read_only_flag
      else act_bind (rd (GetMessagesFlags messageIDs)) (\<lambda>curFlags.
        act_bind (remote_flags env False remFlags curFlags) (\<lambda>allUpdates.
          let remFlags = with_forwards remFlags; remainingFlags = Remove remFlags [FlagDeleted] in
          act_bind (deleted_flag st FetchFlagOpRem False messageIDs remFlags) (\<lambda>combo1.
            act_bind (for_all (\<lambda>flag.
                let messagesToFlag = messages_to_flag True flag curFlags in
                act_then (on_db (RemoveFlagFromMessages messagesToFlag flag))
                  (act_bind (snap_mboxID st) (\<lambda>mbox.
                     ret (FetchFlagOpRem, flags_update st remainingFlags mbox messagesToFlag)))) (Values remainingFlags)) (\<lambda>combo2.
              ret (allUpdates @ [Upd (messageFlagsComboStateUpdate (combo1 @ combo2))]))))))"

text \<open>
  The closure \<open>doSetFlag\<close>: the connector is called for both values of the flag, with the messages whose flag
  changes to that value.
\<close>

definition doSetFlag ::
    "env \<Rightarrow> (FlagSet \<Rightarrow> bool) \<Rightarrow> FlagSet \<Rightarrow> MessageFlagSet list \<Rightarrow> (MessageID list \<Rightarrow> bool \<Rightarrow> StateUpdate list uact) \<Rightarrow> StateUpdate list uact" where
  "doSetFlag env chk setFlags curFlags remoteDo =
     (let changed = map mfs_RemoteID (filter (\<lambda>msg. chk setFlags \<noteq> chk (mfs_FlagSet msg)
            \<and> \<not> IsRecoveredRemoteMessageID (mfs_RemoteID msg)) curFlags);
          setList = (\<lambda>b. if b = chk setFlags then changed else [])
      in act_bind tick (\<lambda>n.
        let first = en_true_first env n in
        act_bind (remoteDo (setList first) first) (\<lambda>u1.
          act_bind (remoteDo (setList (\<not> first)) (\<not> first)) (\<lambda>u2. ret (u1 @ u2)))))"

definition applyMessageFlagsSet :: "env \<Rightarrow> State \<Rightarrow> InternalMessageID list \<Rightarrow> FlagSet \<Rightarrow> StateUpdate list uact" where
  "applyMessageFlagsSet env st messageIDs setFlags =
     (if ContainsUnchecked setFlags FlagRecentLowerCase then fail read_only_flag
      else (case st_snap st of
        None \<Rightarrow> ret []
      | Some snap \<Rightarrow>
          act_bind (rd (GetMessagesFlags messageIDs)) (\<lambda>curFlags.
            act_bind (doSetFlag env is_seen setFlags curFlags (sc_SetMessagesSeen env)) (\<lambda>u1.
            act_bind (doSetFlag env is_flagged setFlags curFlags (sc_SetMessagesFlagged env)) (\<lambda>u2.
            act_bind (doSetFlag env is_forwarded setFlags curFlags (sc_SetMessagesForwarded env)) (\<lambda>u3.
              let setFlags = with_forwards setFlags; remainingFlags = Remove setFlags [FlagDeleted] in
              act_then (on_db (SetMailboxMessagesDeletedFlag (mp_InternalID (mboxID snap)) messageIDs (Contains setFlags FlagDeleted)))
                (act_then (if Len remainingFlags \<noteq> 0 then on_db (SetFlagsOnMessages (en_extra env) messageIDs remainingFlags) else ret ())
                  (ret (u1 @ u2 @ u3 @ [Upd (messageFlagsSetStateUpdate (flags_update st setFlags (mboxID snap) messageIDs))])))))))))"

section \<open>Mailboxes\<close>

definition actionCreateAndGetMailbox :: "env \<Rightarrow> string \<Rightarrow> UID \<Rightarrow> (StateUpdate list \<times> Mailbox) uact" where
  "actionCreateAndGetMailbox env name uidValidity =
     act_bind (sc_CreateMailbox env (strings_Split name (en_delimiter env))) (\<lambda>(updates, res).
       act_bind (rd (MailboxExistsWithRemoteID (im_ID res))) (\<lambda>exists.
         if \<not> exists
         then act_bind (on_db (CreateMailbox (im_ID res) (Join (im_Name res) (en_delimiter env))
             (im_Flags res) (im_PermanentFlags res) (im_Attributes res) uidValidity)) (\<lambda>mbox. ret (updates, mbox))
         else act_bind (rd (GetMailboxByRemoteID (im_ID res))) (\<lambda>mbox. ret (updates, mbox))))"

definition actionCreateMailbox :: "env \<Rightarrow> string \<Rightarrow> UID \<Rightarrow> StateUpdate list uact" where
  "actionCreateMailbox env name uidValidity =
     act_bind (sc_CreateMailbox env (strings_Split name (en_delimiter env))) (\<lambda>(updates, res).
       act_then (on_db (CreateMailboxIfNotExists res (en_delimiter env) uidValidity)) (ret updates))"

definition actionDeleteMailbox :: "env \<Rightarrow> MailboxIDPair \<Rightarrow> StateUpdate list uact" where
  "actionDeleteMailbox env mbox =
     act_bind (sc_DeleteMailbox env (mp_RemoteID mbox)) (\<lambda>updates.
       act_then (on_db (DeleteMailboxWithRemoteID (mp_RemoteID mbox)))
         (ret (updates @ [Upd (mailboxDeletedStateUpdate (mp_InternalID mbox))])))"

definition actionUpdateMailbox :: "env \<Rightarrow> MailboxID \<Rightarrow> string \<Rightarrow> StateUpdate list uact" where
  "actionUpdateMailbox env mbox newName =
     act_bind (sc_UpdateMailbox env mbox (strings_Split newName (en_delimiter env))) (\<lambda>updates.
       act_then (on_db (RenameMailboxWithRemoteID mbox newName)) (ret updates))"

section \<open>Messages of mailboxes\<close>

definition actionRemoveMessagesFromMailboxUnchecked ::
    "env \<Rightarrow> MessageIDPair list \<Rightarrow> MailboxIDPair \<Rightarrow> StateUpdate list uact" where
  "actionRemoveMessagesFromMailboxUnchecked env messageIDs mbox =
     (let (internalIDs, remoteIDs) = SplitMessageIDPairSlice messageIDs in
      act_bind
        (if mp_InternalID mbox \<noteq> en_recovery env
         then sc_RemoveMessagesFromMailbox env remoteIDs (mp_RemoteID mbox)
         else act_then (erase_hashes internalIDs) (ret [])) (\<lambda>allUpdates.
          act_bind (on_db (RemoveMessagesFromMailbox env (mp_InternalID mbox) internalIDs)) (\<lambda>updates.
            ret (allUpdates @ updates))))"

definition among :: "InternalMessageID list \<Rightarrow> MessageIDPair list \<Rightarrow> MessageIDPair list" where
  "among have messageIDs = filter (\<lambda>m. InternalID m \<in> set have) messageIDs"

definition actionRemoveMessagesFromMailbox ::
    "env \<Rightarrow> MessageIDPair list \<Rightarrow> MailboxIDPair \<Rightarrow> StateUpdate list uact" where
  "actionRemoveMessagesFromMailbox env messageIDs mbox =
     act_bind (rd (MailboxFilterContains (mp_InternalID mbox) messageIDs)) (\<lambda>haveMessageIDs.
       let messageIDs = among haveMessageIDs messageIDs in
       if messageIDs = [] then ret [] else actionRemoveMessagesFromMailboxUnchecked env messageIDs mbox)"

text \<open>Messages that are already in the mailbox are removed first, so that they get new UIDs.\<close>

definition remove_present :: "env \<Rightarrow> MessageIDPair list \<Rightarrow> MailboxIDPair \<Rightarrow> StateUpdate list uact" where
  "remove_present env messageIDs mbox =
     act_bind (rd (MailboxFilterContains (mp_InternalID mbox) messageIDs)) (\<lambda>haveMessageIDs.
       let remMessageIDs = among haveMessageIDs messageIDs in
       if remMessageIDs \<noteq> [] then actionRemoveMessagesFromMailboxUnchecked env remMessageIDs mbox else ret [])"

definition actionAddMessagesToMailbox ::
    "env \<Rightarrow> State \<Rightarrow> MessageIDPair list \<Rightarrow> MailboxIDPair \<Rightarrow> bool \<Rightarrow> (StateUpdate list \<times> SnapshotMessageResult list) uact" where
  "actionAddMessagesToMailbox env st messageIDs mbox isMailboxSelected =
     act_bind (remove_present env messageIDs mbox) (\<lambda>allUpdates.
       act_bind (sc_AddMessagesToMailbox env (map RemoteID messageIDs) (mp_RemoteID mbox)) (\<lambda>addMsgUpdates.
         act_bind (on_db (AddMessagesToMailbox env (mp_InternalID mbox) messageIDs
             (if isMailboxSelected then Some (st_StateID st) else None))) (\<lambda>(messageUIDs, update).
           ret (allUpdates @ addMsgUpdates @ [update], messageUIDs))))"

definition actionAddRecoveredMessagesToMailbox ::
    "env \<Rightarrow> State \<Rightarrow> MessageIDPair list \<Rightarrow> MailboxIDPair \<Rightarrow> (StateUpdate list \<times> SnapshotMessageResult list) uact" where
  "actionAddRecoveredMessagesToMailbox env st messageIDs mbox =
     act_bind (rd (MailboxFilterContains (mp_InternalID mbox) messageIDs)) (\<lambda>have.
       let toAdd = filter (\<lambda>t. InternalID t \<notin> set have) messageIDs in
       act_bind (sc_AddMessagesToMailbox env (map RemoteID toAdd) (mp_RemoteID mbox)) (\<lambda>updates.
         act_bind (on_db (AddMessagesToMailbox env (mp_InternalID mbox) toAdd (Some (st_StateID st)))) (\<lambda>(uid, up).
           ret (updates @ [up], uid))))"

definition actionMoveMessages ::
    "env \<Rightarrow> State \<Rightarrow> MessageIDPair list \<Rightarrow> MailboxIDPair \<Rightarrow> MailboxIDPair \<Rightarrow> (StateUpdate list \<times> SnapshotMessageResult list) uact" where
  "actionMoveMessages env st messageIDs mboxFrom mboxTo =
     (if mp_InternalID mboxFrom = mp_InternalID mboxTo
      then act_bind (actionRemoveMessagesFromMailboxUnchecked env messageIDs mboxTo) (\<lambda>u1.
        act_bind (actionAddMessagesToMailbox env st messageIDs mboxTo False) (\<lambda>(u2, uid). ret (u1 @ u2, uid)))
      else act_bind (remove_present env messageIDs mboxTo) (\<lambda>u1.
        act_bind (rd (MailboxFilterContains (mp_InternalID mboxFrom) messageIDs)) (\<lambda>messageInFromMBox.
          let messagesIDsToMove = among messageInFromMBox messageIDs;
              (internalIDs, remoteIDs) = SplitMessageIDPairSlice messagesIDsToMove in
          act_bind (sc_MoveMessagesFromMailbox env remoteIDs (mp_RemoteID mboxFrom) (mp_RemoteID mboxTo)) (\<lambda>(u2, shouldRemoveOldMessages).
            act_bind (on_db (MoveMessagesFromMailbox env (mp_InternalID mboxFrom) (mp_InternalID mboxTo)
                messagesIDsToMove internalIDs (Some (st_StateID st)) shouldRemoveOldMessages)) (\<lambda>(messageUIDs, u3).
              ret (u1 @ u2 @ u3, messageUIDs))))))"

section \<open>New messages\<close>

definition create_request :: "imap_Message \<Rightarrow> InternalMessageID \<Rightarrow> string \<Rightarrow> ParsedMessage \<Rightarrow> CreateMessageReq" where
  "create_request msg i literal pm =
     \<lparr>cr_Message = msg, cr_InternalID = i, cr_LiteralSize = int (length literal),
      cr_Body = pm_Body pm, cr_Structure = pm_Structure pm, cr_Envelope = pm_Envelope pm\<rparr>"

text \<open>The message with a known remote ID, if there is one.\<close>

definition known_message :: "MessageID \<Rightarrow> InternalMessageID option uact" where
  "known_message r =
     act_bind (attempt (rd (GetMessageIDFromRemoteID r))) (\<lambda>res.
       case res of Inr i \<Rightarrow> ret (Some i) | Inl e \<Rightarrow> if IsErrNotFound e then ret None else fail e)"

definition store_new :: "env \<Rightarrow> imap_Message \<Rightarrow> InternalMessageID \<Rightarrow> string \<Rightarrow> CreateMessageReq uact" where
  "store_new env msg i literal =
     act_bind (lift (en_parse env literal)) (\<lambda>pm.
       act_bind (lift (en_set_header env literal i)) (\<lambda>literalWithHeader.
         act_then (store_Set env i literalWithHeader) (ret (create_request msg i literalWithHeader pm))))"

definition actionCreateMessage ::
    "env \<Rightarrow> State \<Rightarrow> MailboxIDPair \<Rightarrow> string \<Rightarrow> FlagSet \<Rightarrow> int \<Rightarrow> bool \<Rightarrow> bool \<Rightarrow> (StateUpdate list \<times> UID) uact" where
  "actionCreateMessage env st mbox literal flags date isSelectedMailbox cameFromDrafts =
     act_bind (sc_CreateMessage env (mp_RemoteID mbox) literal flags date) (\<lambda>(updates, internalID, res, newLiteral).
       act_bind (known_message (imsg_ID res)) (\<lambda>known.
         case known of
           Some knownInternalID \<Rightarrow>
             if cameFromDrafts then fail (ErrOther ''append to drafts returned an existing remote ID'')
             else act_bind (actionAddMessagesToMailbox env st [\<lparr>InternalID = knownInternalID, RemoteID = imsg_ID res\<rparr>] mbox isSelectedMailbox) (\<lambda>(u, result).
               case result of
                 [] \<Rightarrow> act_panic ''index out of range''
               | r # _ \<Rightarrow> ret (updates @ u, sr_UID r))
         | None \<Rightarrow>
             act_bind (store_new env res internalID newLiteral) (\<lambda>req.
               act_bind (on_db (CreateMessageAndAddToMailbox (mp_InternalID mbox) req)) (\<lambda>(messageUID, flagSet).
                 ret (updates @ [ExistsUpd (newExistsStateUpdateWithExists (mp_InternalID mbox)
                     [\<lparr>ex_messageID = \<lparr>InternalID = internalID, RemoteID = imsg_ID res\<rparr>, ex_messageUID = messageUID, ex_flags = flagSet\<rparr>]
                     (if isSelectedMailbox then Some (st_StateID st) else None))], messageUID)))))"

definition actionCreateRecoveredMessage :: "env \<Rightarrow> string \<Rightarrow> FlagSet \<Rightarrow> int \<Rightarrow> (StateUpdate list \<times> bool) uact" where
  "actionCreateRecoveredMessage env literal flags date =
     act_bind (NewInternalMessageID env) (\<lambda>internalID.
       let remoteID = NewRecoveredRemoteMessageID env internalID in
       act_bind (lift (en_parse env literal)) (\<lambda>pm.
         act_bind (attempt (on_hashes (hashes_Insert (en_hash env) internalID literal))) (\<lambda>alreadyKnown.
           if alreadyKnown = Inr True then ret ([], True)
           else act_then (store_Set env internalID literal)
             (act_bind (on_db (CreateMessageAndAddToMailbox (en_recovery env)
                 (create_request \<lparr>imsg_ID = remoteID, imsg_Flags = flags, imsg_Date = date\<rparr> internalID literal pm))) (\<lambda>(messageUID, flagSet).
               ret ([ExistsUpd (newExistsStateUpdateWithExists (en_recovery env)
                   [\<lparr>ex_messageID = \<lparr>InternalID = internalID, RemoteID = remoteID\<rparr>, ex_messageUID = messageUID, ex_flags = flagSet\<rparr>]
                   None)], False))))))"

section \<open>Messages that leave the recovery mailbox\<close>

definition actionImportRecoveredMessage ::
    "env \<Rightarrow> InternalMessageID \<Rightarrow> MailboxID \<Rightarrow> (StateUpdate list \<times> MessageIDPair \<times> bool) uact" where
  "actionImportRecoveredMessage env i mbox =
     act_bind (rd (GetImportedMessageData i)) (\<lambda>(message, msgFlags).
       act_bind (store_Get env i) (\<lambda>literal.
         act_bind (sc_CreateMessage env mbox literal msgFlags (msg_Date message)) (\<lambda>(updates, internalID, res, newLiteral).
           act_bind (known_message (imsg_ID res)) (\<lambda>known.
             case known of
               Some j \<Rightarrow> ret (updates, \<lparr>InternalID = j, RemoteID = imsg_ID res\<rparr>, True)
             | None \<Rightarrow>
                 act_bind (store_new env res internalID newLiteral) (\<lambda>req.
                   act_then (on_db (CreateMessages [req]))
                     (ret (updates, \<lparr>InternalID = internalID, RemoteID = imsg_ID res\<rparr>, False)))))))"

definition actionCopyMessagesOutOfRecoveryMailbox ::
    "env \<Rightarrow> State \<Rightarrow> MessageIDPair list \<Rightarrow> MailboxIDPair \<Rightarrow> (StateUpdate list \<times> SnapshotMessageResult list) uact" where
  "actionCopyMessagesOutOfRecoveryMailbox env st messageIDs mbox =
     act_bind (for_all (\<lambda>m. actionImportRecoveredMessage env (InternalID m) (mp_RemoteID mbox)) messageIDs) (\<lambda>imported.
       act_bind (actionAddRecoveredMessagesToMailbox env st (map (\<lambda>(us, m, d). m) imported) mbox) (\<lambda>(updates, uidWithFlags).
         ret (concat (map fst imported) @ updates, uidWithFlags)))"

definition actionMoveMessagesOutOfRecoveryMailbox ::
    "env \<Rightarrow> State \<Rightarrow> MessageIDPair list \<Rightarrow> MailboxIDPair \<Rightarrow> (StateUpdate list \<times> SnapshotMessageResult list) uact" where
  "actionMoveMessagesOutOfRecoveryMailbox env st messageIDs mbox =
     act_bind (for_all (\<lambda>m.
         act_bind (actionImportRecoveredMessage env (InternalID m) (mp_RemoteID mbox)) (\<lambda>(us, newID, deduped).
           act_then (if \<not> deduped then on_db (MarkMessageAsDeleted (InternalID m)) else ret ())
             (ret (us, newID)))) messageIDs) (\<lambda>imported.
       let oldInternalIDs = map InternalID messageIDs in
       act_bind (on_db (RemoveMessagesFromMailbox env (en_recovery env) oldInternalIDs)) (\<lambda>removeUpdates.
         act_then (erase_hashes oldInternalIDs)
           (act_bind (actionAddRecoveredMessagesToMailbox env st (map snd imported) mbox) (\<lambda>(addUpdates, uidWithFlags).
              ret (concat (map fst imported) @ removeUpdates @ addUpdates, uidWithFlags)))))"

section \<open>Flags of the messages of a snapshot\<close>

definition message_IDs :: "snapMsg list \<Rightarrow> InternalMessageID list" where
  "message_IDs msgs = map (\<lambda>sm. InternalID (sm_ID sm)) msgs"

definition actionAddMessageFlags :: "env \<Rightarrow> State \<Rightarrow> snapMsg list \<Rightarrow> FlagSet \<Rightarrow> StateUpdate list uact" where
  "actionAddMessageFlags env st msgs addFlags = applyMessageFlagsAdded env st (message_IDs msgs) addFlags"

definition actionRemoveMessageFlags :: "env \<Rightarrow> State \<Rightarrow> snapMsg list \<Rightarrow> FlagSet \<Rightarrow> StateUpdate list uact" where
  "actionRemoveMessageFlags env st msgs remFlags = applyMessageFlagsRemoved env st (message_IDs msgs) remFlags"

definition actionSetMessageFlags :: "env \<Rightarrow> State \<Rightarrow> snapMsg list \<Rightarrow> FlagSet \<Rightarrow> StateUpdate list uact" where
  "actionSetMessageFlags env st msgs setFlags =
     (if ContainsUnchecked setFlags FlagRecentLowerCase then fail (ErrOther ''recent flag is read-only'')
      else applyMessageFlagsSet env st (message_IDs msgs) setFlags)"

end
