(* ===== verification/State_Commands.thy ===== *)
theory State_Commands
  imports State_Actions Command_Parser
begin

text \<open>
  The commands of a session: those on the mailboxes of the user (\<open>internal/state/state.go\<close>) and those on
  the messages of one mailbox (\<open>internal/state/mailbox.go\<close>). A command runs on the state with the ID \<open>sid\<close> of
  the world. Where the source passes a mailbox to a callback, the model returns the handle of the mailbox.
\<close>

section \<open>The state of the session\<close>

definition own :: "StateID \<Rightarrow> State uact" where
  "own sid = reads (\<lambda>w. case find (\<lambda>u. st_StateID (us_state u) = sid) (w_states w) of
     Some u \<Rightarrow> Ok (us_state u) | None \<Rightarrow> Panic ''nil pointer dereference'')"

definition set_own :: "StateID \<Rightarrow> (State \<Rightarrow> State) \<Rightarrow> unit uact" where
  "set_own sid f = modify (\<lambda>w. w\<lparr>w_states :=
     map (\<lambda>u. if st_StateID (us_state u) = sid then u\<lparr>us_state := f (us_state u)\<rparr> else u) (w_states w)\<rparr>)"

text \<open>The handle of a mailbox; \<open>mh_private\<close> is its snapshot unless it is the snapshot of the state.\<close>

record MailboxHandle =
  mh_id :: MailboxIDPair
  mh_name :: string
  mh_uidValidity :: UID
  mh_private :: "snapshot option"
  mh_readOnly :: bool

definition newMailbox :: "Mailbox \<Rightarrow> State \<Rightarrow> snapshot option \<Rightarrow> MailboxHandle" where
  "newMailbox mbox st private =
     \<lparr>mh_id = NewMailboxIDPair mbox, mh_name = mbx_Name mbox, mh_uidValidity = mbx_UIDValidity mbox,
      mh_private = private, mh_readOnly = st_ro st\<rparr>"

definition find_mailbox :: "string \<Rightarrow> Mailbox uact" where
  "find_mailbox name = not_found_is ErrNoSuchMailbox (rd (GetMailboxByName name))"

definition load_snapshot :: "Mailbox \<Rightarrow> snapshot uact" where
  "load_snapshot mbox =
     rd (\<lambda>db. newSnapshot (GetMailboxMessageForNewSnapshot (mbx_ID mbox) db) (NewMailboxIDPair mbox))"

section \<open>LIST and LSUB\<close>

definition visible :: "env \<Rightarrow> nat \<Rightarrow> nat \<Rightarrow> database \<Rightarrow> MailboxWithAttr \<Rightarrow> bool" where
  "visible env n recoveryCount db mailbox =
     (let mbox = mwa_Mailbox mailbox in
      if mbx_ID mbox = en_recovery env \<and> recoveryCount = 0 then False
      else (case rc_GetMailboxVisibility (en_remote env) n (mbx_RemoteID mbox) of
              Hidden \<Rightarrow> False
            | Visible \<Rightarrow> True
            | HiddenIfEmpty \<Rightarrow> (case GetMailboxMessageCount (mbx_ID mbox) db of Ok count \<Rightarrow> count > 0 | _ \<Rightarrow> True)))"

definition match_mailboxes ::
    "env \<Rightarrow> nat \<Rightarrow> bool \<Rightarrow> MailboxWithAttr list \<Rightarrow> (MailboxID \<times> DeletedSubscription) list \<Rightarrow> matchMailbox list" where
  "match_mailboxes env n lsub mailboxes deletedSubscriptions =
     map (\<lambda>mbox. \<lparr>mm_Name = mbx_Name (mwa_Mailbox mbox), mm_Subscribed = lsub, mm_EntMBox = Some mbox\<rparr>)
       (filter (\<lambda>mbox. \<not> (lsub \<and> \<not> mbx_Subscribed (mwa_Mailbox mbox))) mailboxes)
     @ (if lsub
        then map (\<lambda>(r, s). \<lparr>mm_Name = ds_Name s, mm_Subscribed = True, mm_EntMBox = None\<rparr>)
          (filter (\<lambda>(r, s). rc_GetMailboxVisibility (en_remote env) n (ds_RemoteID s) = Visible)
            (filter (\<lambda>(r, s). r \<notin> (\<lambda>m. mbx_RemoteID (mwa_Mailbox m)) ` set mailboxes) deletedSubscriptions))
        else [])"

definition List :: "env \<Rightarrow> string \<Rightarrow> string \<Rightarrow> bool \<Rightarrow> (string \<times> Match) list uact" where
  "List env ref pattern lsub =
     act_bind (rd GetAllMailboxesWithAttr) (\<lambda>mailboxes.
       act_bind (rd (\<lambda>db. Ok (case GetMailboxMessageCount (en_recovery env) db of Ok n \<Rightarrow> n | _ \<Rightarrow> 0))) (\<lambda>recoveryCount.
         act_bind tick (\<lambda>n.
           act_bind (rd (\<lambda>db. Ok (filter (visible env n recoveryCount db) mailboxes))) (\<lambda>mailboxes.
             act_bind (if lsub then rd GetDeletedSubscriptionSet else ret []) (\<lambda>deletedSubscriptions.
               act_bind tick (\<lambda>n'.
                 let ms = match_mailboxes env n' lsub mailboxes deletedSubscriptions in
                 rd (getMatches (map mm_Name ms) ms ref pattern (en_delimiter env) lsub)))))))"

section \<open>SELECT and EXAMINE\<close>

definition close_selected :: "StateID \<Rightarrow> unit uact" where
  "close_selected sid =
     act_bind (own sid) (\<lambda>st. if st_snap st \<noteq> None then set_own sid state_close else ret ())"

definition Select :: "env \<Rightarrow> cmd_ctx \<Rightarrow> StateID \<Rightarrow> string \<Rightarrow> MailboxHandle uact" where
  "Select env ctx sid name =
     act_bind (find_mailbox name) (\<lambda>mbox.
       act_then (close_selected sid)
         (act_bind (load_snapshot mbox) (\<lambda>snap.
           act_then (stateDBWrite env ctx sid (act_then (on_db (ClearRecentFlagsInMailbox (mbx_ID mbox))) (ret [])))
             (act_then (set_own sid (\<lambda>s. s\<lparr>st_snap := Some snap, st_ro := False\<rparr>))
               (act_bind (own sid) (\<lambda>st. ret (newMailbox mbox st None)))))))"

definition Examine :: "StateID \<Rightarrow> string \<Rightarrow> MailboxHandle uact" where
  "Examine sid name =
     act_bind (find_mailbox name) (\<lambda>mbox.
       act_then (close_selected sid)
         (act_bind (load_snapshot mbox) (\<lambda>snap.
           act_then (set_own sid (\<lambda>s. s\<lparr>st_snap := Some snap, st_ro := True\<rparr>))
             (act_bind (own sid) (\<lambda>st. ret (newMailbox mbox st None))))))"

section \<open>CREATE, DELETE and RENAME\<close>

definition TrimRight :: "string \<Rightarrow> string \<Rightarrow> string" where
  "TrimRight s cutset = rev (dropWhile (\<lambda>c. c \<in> set cutset) (rev s))"

text \<open>The names that do not exist yet, in the order given.\<close>

definition missing_names :: "string list \<Rightarrow> string list uact" where
  "missing_names names =
     act_bind (for_all (\<lambda>n. rd (MailboxExistsWithName n)) names) (\<lambda>present.
       ret (map fst (filter (\<lambda>(n, e). \<not> e) (zip names present))))"

definition check_name :: "env \<Rightarrow> string \<Rightarrow> state_error option" where
  "check_name env name =
     (let d = en_delimiter env in
      if prefix GluonRecoveryMailboxNameLowerCase (ToLower name) then Some ErrOperationNotAllowed
      else if d \<noteq> [] \<and> prefix d name then Some ErrMailboxNameBeginsWithSeparator
      else if d \<noteq> [] \<and> sublist (d @ d) name then Some ErrMailboxNameAdjacentSeparator
      else None)"

definition create_body :: "env \<Rightarrow> string \<Rightarrow> UID \<Rightarrow> StateUpdate list uact" where
  "create_body env name uidValidity =
     act_bind (rd GetMailboxCount) (\<lambda>mailboxCount.
       act_then (check (CheckMailBoxCount (en_limits env) (of_nat mailboxCount)))
         (let name = (if HasSuffix name (en_delimiter env) then TrimRight name (en_delimiter env) else name) in
          act_bind (rd (MailboxExistsWithName name)) (\<lambda>exists.
            if exists then fail ErrExistingMailbox
            else act_bind (missing_names (listSuperiors name (en_delimiter env))) (\<lambda>superiors.
              act_bind (for_all (\<lambda>n. actionCreateMailbox env n uidValidity) (superiors @ [name])) (\<lambda>updates.
                ret (concat updates))))))"

definition Create :: "env \<Rightarrow> cmd_ctx \<Rightarrow> StateID \<Rightarrow> string \<Rightarrow> unit uact" where
  "Create env ctx sid name =
     act_bind (GenerateUIDValidity env) (\<lambda>uidValidity.
       act_then (check (CheckUIDValidity (en_limits env) uidValidity))
         (case check_name env name of
            Some e \<Rightarrow> fail e
          | None \<Rightarrow> stateDBWrite env ctx sid (create_body env name uidValidity)))"

definition Delete :: "env \<Rightarrow> cmd_ctx \<Rightarrow> StateID \<Rightarrow> string \<Rightarrow> bool uact" where
  "Delete env ctx sid name =
     (if EqualFold name GluonRecoveryMailboxName then fail ErrOperationNotAllowed
      else act_bind (stateDBWriteResult env ctx sid
          (act_bind (find_mailbox name) (\<lambda>mbox.
             act_bind (actionDeleteMailbox env (NewMailboxIDPair mbox)) (\<lambda>updates. ret (updates, mbx_ID mbox))))) (\<lambda>b.
        act_bind (own sid) (\<lambda>st.
          ret (case st_snap st of None \<Rightarrow> False | Some snap \<Rightarrow> mp_InternalID (mboxID snap) = b))))"

text \<open>INBOX is not renamed: its messages are moved to a new mailbox.\<close>

definition renameInbox :: "env \<Rightarrow> State \<Rightarrow> Mailbox \<Rightarrow> string \<Rightarrow> StateUpdate list uact" where
  "renameInbox env st inbox newName =
     act_bind (GenerateUIDValidity env) (\<lambda>uidValidity.
       act_bind (actionCreateAndGetMailbox env newName uidValidity) (\<lambda>(updates, mbox).
         act_bind (rd (GetMailboxMessageIDPairs (mbx_ID inbox))) (\<lambda>messageIDs.
           act_bind (actionMoveMessages env st messageIDs (NewMailboxIDPair inbox) (NewMailboxIDPair mbox)) (\<lambda>(updatesMove, _).
             ret (updates @ updatesMove)))))"

text \<open>The superiors to create; an existing superior must not be the mailbox that is renamed.\<close>

definition rename_superiors :: "env \<Rightarrow> string \<Rightarrow> string \<Rightarrow> string list uact" where
  "rename_superiors env oldName newName =
     act_bind (for_all (\<lambda>superior.
         act_bind (rd (MailboxExistsWithName superior)) (\<lambda>exists.
           if exists then (if superior = oldName then fail ErrExistingMailbox else ret [])
           else ret [superior])) (listSuperiors newName (en_delimiter env))) (\<lambda>ns. ret (concat ns))"

definition rename_create :: "env \<Rightarrow> string \<Rightarrow> StateUpdate list uact" where
  "rename_create env m =
     act_bind (GenerateUIDValidity env) (\<lambda>uidValidity.
       act_bind (sc_CreateMailbox env (strings_Split m (en_delimiter env))) (\<lambda>(updates, res).
         act_then (on_db (CreateMailboxIfNotExists res (en_delimiter env) uidValidity)) (ret updates)))"

definition rename_inferior :: "string \<Rightarrow> string \<Rightarrow> string \<Rightarrow> unit uact" where
  "rename_inferior oldName newName inferior =
     act_bind (find_mailbox inferior) (\<lambda>mbox.
       on_db (RenameMailboxWithRemoteID (mbx_RemoteID mbox)
         (newName @ (if prefix oldName inferior then drop (length oldName) inferior else inferior))))"

definition rename_body :: "env \<Rightarrow> State \<Rightarrow> string \<Rightarrow> string \<Rightarrow> StateUpdate list uact" where
  "rename_body env st oldName newName =
     act_bind (find_mailbox oldName) (\<lambda>mbox.
       act_bind (rd (MailboxExistsWithName newName)) (\<lambda>exists.
         if exists then fail ErrExistingMailbox
         else act_bind (rename_superiors env oldName newName) (\<lambda>mboxesToCreate.
           act_bind (for_all (rename_create env) mboxesToCreate) (\<lambda>created.
             if oldName = Inbox then renameInbox env st mbox newName
             else act_bind (actionUpdateMailbox env (mbx_RemoteID mbox) newName) (\<lambda>updates.
               act_bind (rd GetAllMailboxesWithAttr) (\<lambda>mailboxes.
                 act_then (for_each (rename_inferior oldName newName)
                     (listInferiors oldName (en_delimiter env) (map (\<lambda>m. mbx_Name (mwa_Mailbox m)) mailboxes)))
                   (ret (concat created @ updates))))))))"

definition Rename :: "env \<Rightarrow> cmd_ctx \<Rightarrow> StateID \<Rightarrow> string \<Rightarrow> string \<Rightarrow> unit uact" where
  "Rename env ctx sid oldName newName =
     (if EqualFold oldName GluonRecoveryMailboxName \<or> EqualFold newName GluonRecoveryMailboxName
      then fail ErrOperationNotAllowed
      else act_bind (own sid) (\<lambda>st. stateDBWrite env ctx sid (rename_body env st oldName newName)))"

section \<open>Subscriptions\<close>

definition Subscribe :: "env \<Rightarrow> cmd_ctx \<Rightarrow> StateID \<Rightarrow> string \<Rightarrow> unit uact" where
  "Subscribe env ctx sid name =
     stateDBWrite env ctx sid
       (act_bind (find_mailbox name) (\<lambda>mbox.
          if mbx_Subscribed mbox then fail ErrAlreadySubscribed
          else act_then (on_db (SetMailboxSubscribed (mbx_ID mbox) True)) (ret [])))"

definition Unsubscribe :: "env \<Rightarrow> cmd_ctx \<Rightarrow> StateID \<Rightarrow> string \<Rightarrow> unit uact" where
  "Unsubscribe env ctx sid name =
     stateDBWrite env ctx sid
       (act_bind (attempt (rd (GetMailboxByName name))) (\<lambda>r.
          case r of
            Inl _ \<Rightarrow> act_bind (on_db (RemoveDeletedSubscriptionWithName name)) (\<lambda>count.
              if count = 0 then fail ErrNoSuchMailbox else ret [])
          | Inr mbox \<Rightarrow>
              if \<not> mbx_Subscribed mbox then fail ErrAlreadyUnsubscribed
              else act_then (on_db (SetMailboxSubscribed (mbx_ID mbox) False)) (ret [])))"

section \<open>Handles of mailboxes\<close>

definition is_selected :: "State \<Rightarrow> Mailbox \<Rightarrow> bool" where
  "is_selected st mbox = (case st_snap st of None \<Rightarrow> False | Some snap \<Rightarrow> mp_InternalID (mboxID snap) = mbx_ID mbox)"

definition open_Mailbox :: "StateID \<Rightarrow> string \<Rightarrow> MailboxHandle uact" where
  "open_Mailbox sid name =
     act_bind (find_mailbox name) (\<lambda>mbox.
       act_bind (own sid) (\<lambda>st.
         if is_selected st mbox then ret (newMailbox mbox st None)
         else act_bind (load_snapshot mbox) (\<lambda>snap. ret (newMailbox mbox st (Some snap)))))"

definition AppendOnlyMailbox :: "StateID \<Rightarrow> string \<Rightarrow> (MailboxHandle \<times> bool) uact" where
  "AppendOnlyMailbox sid name =
     (if EqualFold name GluonRecoveryMailboxName then fail ErrOperationNotAllowed
      else act_bind (find_mailbox name) (\<lambda>mbox.
        act_bind (own sid) (\<lambda>st.
          if is_selected st mbox then ret (newMailbox mbox st None, True)
          else ret (newMailbox mbox st (Some (newEmptySnapshot (NewMailboxIDPair mbox))), False))))"

definition Selected :: "StateID \<Rightarrow> MailboxHandle uact" where
  "Selected sid =
     act_bind (own sid) (\<lambda>st.
       case st_snap st of
         None \<Rightarrow> fail ErrSessionNotSelected
       | Some snap \<Rightarrow>
           act_bind (not_found_is ErrNoSuchMailbox (rd (GetMailboxByID (mp_InternalID (mboxID snap))))) (\<lambda>mbox.
             ret (newMailbox mbox st None)))"

section \<open>Literals\<close>

text \<open>A literal that is not in the store is fetched from the connector, unless it is of a recovered message.\<close>

definition getLiteral :: "env \<Rightarrow> MessageIDPair \<Rightarrow> string uact" where
  "getLiteral env messageID =
     act_bind (attempt (store_Get env (InternalID messageID))) (\<lambda>r.
       case r of
         Inr literal \<Rightarrow> ret literal
       | Inl firstErr \<Rightarrow>
           if IsRecoveredRemoteMessageID (RemoteID messageID) then fail firstErr
           else act_bind (sc_GetMessageLiteral env (RemoteID messageID)) (\<lambda>connectorLiteral.
             act_bind (lift (en_set_header env connectorLiteral (InternalID messageID))) (\<lambda>literalWithHeader.
               act_then (store_Set env (InternalID messageID) literalWithHeader) (ret literalWithHeader))))"

section \<open>Commands on a mailbox\<close>

text \<open>The snapshot of a handle, and whether it is the one of the state.\<close>

definition handle_snap :: "StateID \<Rightarrow> MailboxHandle \<Rightarrow> snapshot uact" where
  "handle_snap sid m =
     (case mh_private m of
        Some snap \<Rightarrow> ret snap
      | None \<Rightarrow> act_bind (own sid) (\<lambda>st.
          case st_snap st of Some snap \<Rightarrow> ret snap | None \<Rightarrow> act_panic ''nil pointer dereference''))"

definition shares_snap :: "MailboxHandle \<Rightarrow> bool" where
  "shares_snap m \<longleftrightarrow> mh_private m = None"

definition messages_in :: "cmd_ctx \<Rightarrow> SeqRange list \<Rightarrow> snapshot \<Rightarrow> snapMsg list uact" where
  "messages_in ctx seq snap =
     act_bind (lift (getMessagesInRange (IsUID ctx) seq snap)) (\<lambda>ms. ret (map (deref snap) ms))"

definition AttrDrafts :: string where
  "AttrDrafts = CHR 0x5C # ''Drafts''"

definition ErrMessageSizeExceedsLimits :: state_error where
  "ErrMessageSizeExceedsLimits = ErrOther ''message size exceeds limits''"

definition ErrKnownRecoveredMessage :: state_error where
  "ErrKnownRecoveredMessage = ErrOther ''known recovered message, possible duplication''"

text \<open>The message that a literal names in its header, if the database has it and it is not deleted.\<close>

definition known_literal :: "env \<Rightarrow> string \<Rightarrow> InternalMessageID option uact" where
  "known_literal env literal =
     act_bind (lift (en_get_header env literal)) (\<lambda>internalIDString.
       if internalIDString = [] then ret None
       else act_bind (lift (en_parse_id env internalIDString)) (\<lambda>msgID.
         act_bind (attempt (rd (GetMessageDeletedFlag msgID))) (\<lambda>r.
           case r of
             Inl e \<Rightarrow> if IsErrNotFound e then ret None else fail e
           | Inr messageDeleted \<Rightarrow> ret (if messageDeleted then None else Some msgID))))"

definition AppendRegular :: "env \<Rightarrow> cmd_ctx \<Rightarrow> StateID \<Rightarrow> MailboxHandle \<Rightarrow> string \<Rightarrow> FlagSet \<Rightarrow> int \<Rightarrow> UID uact" where
  "AppendRegular env ctx sid m literal flags date =
     act_bind (handle_snap sid m) (\<lambda>snap.
       act_then (on_db (check_room env (mp_InternalID (mboxID snap)) 1))
         (act_bind (rd (GetMailboxAttributes (mp_InternalID (mh_id m)))) (\<lambda>attr.
           let drafts = Contains attr AttrDrafts in
           act_bind (if drafts then ret None else known_literal env literal) (\<lambda>known.
             act_bind (own sid) (\<lambda>st.
               case known of
                 Some msgID \<Rightarrow>
                   act_bind (stateDBWriteResult env ctx sid
                       (act_bind (rd (GetMessageRemoteID msgID)) (\<lambda>remoteID.
                          actionAddMessagesToMailbox env st [\<lparr>InternalID = msgID, RemoteID = remoteID\<rparr>] (mh_id m) (shares_snap m)))) (\<lambda>res.
                     case res of [] \<Rightarrow> act_panic ''index out of range'' | r # _ \<Rightarrow> ret (sr_UID r))
               | None \<Rightarrow>
                   let literal = (if drafts then (case en_erase_header env literal of Ok l \<Rightarrow> l | _ \<Rightarrow> literal) else literal) in
                   stateDBWriteResult env ctx sid
                     (actionCreateMessage env st (mboxID snap) literal flags date (shares_snap m) drafts))))))"

text \<open>A message that could not be appended goes to the recovery mailbox; the error is returned all the same.\<close>

definition Append :: "env \<Rightarrow> cmd_ctx \<Rightarrow> StateID \<Rightarrow> MailboxHandle \<Rightarrow> string \<Rightarrow> FlagSet \<Rightarrow> int \<Rightarrow> UID uact" where
  "Append env ctx sid m literal flags date =
     act_bind (attempt (AppendRegular env ctx sid m literal flags date)) (\<lambda>r.
       case r of
         Inr uid \<Rightarrow> ret uid
       | Inl e \<Rightarrow>
           if e = ErrMessageSizeExceedsLimits then fail e
           else act_bind (attempt (stateDBWriteResult env ctx sid (actionCreateRecoveredMessage env literal flags date))) (\<lambda>known.
             fail (if known = Inr True then ErrKnownRecoveredMessage else e)))"

definition IsDrafts :: "MailboxHandle \<Rightarrow> bool uact" where
  "IsDrafts m = act_bind (rd (GetMailboxAttributes (mp_InternalID (mh_id m)))) (\<lambda>attrs. ret (Contains attrs AttrDrafts))"

text \<open>COPYUID: the UIDs of the messages and the UIDs of their copies.\<close>

definition copy_uid :: "UID \<Rightarrow> snapMsg list \<Rightarrow> SnapshotMessageResult list \<Rightarrow> Item option" where
  "copy_uid v msgs destUIDs =
     (if destUIDs = [] then None
      else Some (itemCopyUID v (NewSeqSetFromUID (map sm_UID msgs)) (NewSeqSetFromUID (map sr_UID destUIDs))))"

definition Copy :: "env \<Rightarrow> cmd_ctx \<Rightarrow> StateID \<Rightarrow> MailboxHandle \<Rightarrow> SeqRange list \<Rightarrow> string \<Rightarrow> Item option uact" where
  "Copy env ctx sid m seq name =
     (if EqualFold name GluonRecoveryMailboxName then fail ErrOperationNotAllowed
      else act_bind (find_mailbox name) (\<lambda>mbox.
        act_bind (handle_snap sid m) (\<lambda>snap.
          act_bind (messages_in ctx seq snap) (\<lambda>msgs.
            act_bind (own sid) (\<lambda>st.
              act_bind (stateDBWriteResult env ctx sid
                  (if en_recovery env = mp_InternalID (mboxID snap)
                   then actionCopyMessagesOutOfRecoveryMailbox env st (map sm_ID msgs) (NewMailboxIDPair mbox)
                   else actionAddMessagesToMailbox env st (map sm_ID msgs) (NewMailboxIDPair mbox) (shares_snap m))) (\<lambda>destUIDs.
                ret (copy_uid (mbx_UIDValidity mbox) msgs destUIDs)))))))"

definition Move :: "env \<Rightarrow> cmd_ctx \<Rightarrow> StateID \<Rightarrow> MailboxHandle \<Rightarrow> SeqRange list \<Rightarrow> string \<Rightarrow> Item option uact" where
  "Move env ctx sid m seq name =
     (if EqualFold name GluonRecoveryMailboxName then fail ErrOperationNotAllowed
      else act_bind (find_mailbox name) (\<lambda>mbox.
        act_bind (handle_snap sid m) (\<lambda>snap.
          act_bind (messages_in ctx seq snap) (\<lambda>msgs.
            act_bind (own sid) (\<lambda>st.
              act_bind (stateDBWriteResult env ctx sid
                  (if en_recovery env = mp_InternalID (mboxID snap)
                   then actionMoveMessagesOutOfRecoveryMailbox env st (map sm_ID msgs) (NewMailboxIDPair mbox)
                   else actionMoveMessages env st (map sm_ID msgs) (mboxID snap) (NewMailboxIDPair mbox))) (\<lambda>destUIDs.
                ret (copy_uid (mbx_UIDValidity mbox) msgs destUIDs)))))))"

definition Store :: "env \<Rightarrow> cmd_ctx \<Rightarrow> StateID \<Rightarrow> MailboxHandle \<Rightarrow> SeqRange list \<Rightarrow> StoreAction \<Rightarrow> FlagSet \<Rightarrow> unit uact" where
  "Store env ctx sid m seqSet action flags =
     act_bind (handle_snap sid m) (\<lambda>snap.
       act_bind (messages_in ctx seqSet snap) (\<lambda>msgs.
         act_bind (own sid) (\<lambda>st.
           stateDBWrite env ctx sid
             (case action of
                StoreActionAddFlags \<Rightarrow> actionAddMessageFlags env st msgs flags
              | StoreActionRemFlags \<Rightarrow> actionRemoveMessageFlags env st msgs flags
              | StoreActionSetFlags \<Rightarrow> actionSetMessageFlags env st msgs flags))))"

definition Expunge :: "env \<Rightarrow> cmd_ctx \<Rightarrow> StateID \<Rightarrow> MailboxHandle \<Rightarrow> SeqRange list option \<Rightarrow> unit uact" where
  "Expunge env ctx sid m seq =
     act_bind (handle_snap sid m) (\<lambda>snap.
       act_bind
         (case seq of
            Some rs \<Rightarrow> act_bind (messages_in ctx rs snap) (\<lambda>msgs. ret (map sm_ID (filter toExpunge msgs)))
          | None \<Rightarrow> ret (getAllMessagesIDsMarkedDelete snap)) (\<lambda>msgIDs.
           stateDBWrite env ctx sid (actionRemoveMessagesFromMailbox env msgIDs (mboxID snap))))"

definition clear_recent :: "clearRecentFlagRespUpdate \<Rightarrow> unit uact" where
  "clear_recent u = on_db (ClearRecentFlagInMailboxOnMessage (cr_mboxID u) (cr_messageID u))"

definition Flush :: "env \<Rightarrow> cmd_ctx \<Rightarrow> StateID \<Rightarrow> bool \<Rightarrow> Response list uact" where
  "Flush env ctx sid permitExpunge =
     act_bind (own sid) (\<lambda>st.
       let (pop, st1) = popResponders permitExpunge st; (out, st2) = handle_on ctx st1 pop in
       act_then (set_own sid (\<lambda>_. st2))
         (act_bind (lift out) (\<lambda>(responses, dbUpdates).
            act_then (db_Write env (for_each clear_recent dbUpdates))
              (lift (lift_merge (Merge responses))))))"

definition mailbox_Close :: "StateID \<Rightarrow> unit uact" where
  "mailbox_Close sid = set_own sid state_close"

end
