(* ===== verification/Backend_Updates.thy ===== *)
theory Backend_Updates
  imports State_Commands
begin

text \<open>
  A user of the backend: start-up, removal of states and clean-up (\<open>internal/backend/user.go\<close>), the interface
  the connector gets at start-up (\<open>internal/backend/connector_state.go\<close>) and the updates that come from the
  connector (\<open>internal/backend/connector_updates.go\<close>).
\<close>

section \<open>Updates of the connector\<close>

record MessageCreated =
  mc_Message :: imap_Message
  mc_Literal :: string
  mc_MailboxIDs :: "MailboxID list"
  mc_ParsedMessage :: ParsedMessage

datatype imap_Update =
    MailboxCreated imap_Mailbox
  | MailboxDeleted MailboxID
  | MailboxDeletedSilent MailboxID
  | MailboxUpdated MailboxID "string list"
  | MailboxIDChanged InternalMailboxID MailboxID
  | MailboxUpdatedOrCreated imap_Mailbox
  | MessagesCreated "MessageCreated list" bool
  | MessageMailboxesUpdated MessageID "MailboxID list" FlagSet
  | MessageFlagsUpdated MessageID FlagSet
  | MessageIDChanged InternalMessageID MessageID
  | MessageDeleted MessageID
  | MessageUpdated MessageCreated bool bool
  | UIDValidityBumped
  | Noop

definition protected :: "string \<Rightarrow> state_error" where
  "protected what = ErrOther (''attempting to '' @ what @ '' (recovery)'')"

section \<open>Mailboxes\<close>

definition applyMailboxCreated :: "env \<Rightarrow> imap_Mailbox \<Rightarrow> unit uact" where
  "applyMailboxCreated env mailbox =
     (if im_ID mailbox = GluonInternalRecoveryMailboxRemoteID then fail (protected ''create protected mailbox'')
      else act_bind (rd (MailboxExistsWithRemoteID (im_ID mailbox))) (\<lambda>exists.
        if exists then ret ()
        else act_bind (GenerateUIDValidity env) (\<lambda>uidValidity.
          act_then (check (CheckUIDValidity (en_limits env) uidValidity))
            (db_Write env (create_checked env mailbox uidValidity)))))"

text \<open>The mailbox of an update; without it the rest is skipped.\<close>

definition if_found :: "'a uact \<Rightarrow> ('a \<Rightarrow> 'b uact) \<Rightarrow> 'b \<Rightarrow> 'b uact" where
  "if_found m f y = act_bind (attempt m) (\<lambda>r.
     case r of Inr x \<Rightarrow> f x | Inl e \<Rightarrow> if IsErrNotFound e then ret y else fail e)"

definition applyMailboxDeleted :: "env \<Rightarrow> MailboxID \<Rightarrow> unit uact" where
  "applyMailboxDeleted env r =
     (if r = GluonInternalRecoveryMailboxRemoteID then fail (protected ''delete protected mailbox'')
      else userDBWrite env
        (if_found (rd (GetMailboxByRemoteID r)) (\<lambda>mailbox.
           act_then (on_db (DeleteMailboxWithRemoteID r))
             (act_then (on_db (RemoveDeletedSubscriptionWithName (mbx_Name mailbox)))
               (ret [Upd (mailboxDeletedStateUpdate (mbx_ID mailbox))]))) []))"

text \<open>The silent variant ignores the errors of its steps, whose effects the transaction keeps.\<close>

definition ignored :: "'a uact \<Rightarrow> unit uact" where
  "ignored m = act_then (attempt m) (ret ())"

definition applyMailboxDeletedSilent :: "env \<Rightarrow> MailboxID \<Rightarrow> unit uact" where
  "applyMailboxDeletedSilent env r =
     (if r = GluonInternalRecoveryMailboxRemoteID then fail (protected ''delete protected mailbox'')
      else ignored (userDBWrite env
        (if_found (rd (GetMailboxByRemoteID r)) (\<lambda>mailbox.
           act_then (ignored (on_db (DeleteMailboxWithRemoteIDSilent r)))
             (act_then (ignored (on_db (RemoveDeletedSubscriptionWithName (mbx_Name mailbox))))
               (ret [Upd (mailboxDeletedStateUpdate (mbx_ID mailbox))]))) [])))"

definition applyMailboxUpdated :: "env \<Rightarrow> MailboxID \<Rightarrow> string list \<Rightarrow> unit uact" where
  "applyMailboxUpdated env r mailboxName =
     (if r = GluonInternalRecoveryMailboxRemoteID then fail (protected ''rename protected mailbox'')
      else db_Write env
        (act_bind (rd (MailboxExistsWithRemoteID r)) (\<lambda>exists.
           if \<not> exists then ret ()
           else act_bind (rd (GetMailboxNameWithRemoteID r)) (\<lambda>currentName.
             let name = Join mailboxName (en_delimiter env);
                 remoteName = (if EqualFold name ''inbox'' then ''INBOX'' else name) in
             if currentName = remoteName then ret () else on_db (RenameMailboxWithRemoteID r name)))))"

definition applyMailboxIDChanged :: "env \<Rightarrow> InternalMailboxID \<Rightarrow> MailboxID \<Rightarrow> unit uact" where
  "applyMailboxIDChanged env b r =
     (if b = en_recovery env then fail (ErrOther ''attempting to change protected mailbox (recovery) remote ID'')
      else userDBWrite env
        (act_then (on_db (UpdateRemoteMailboxID b r)) (ret [Upd (mailboxRemoteIDUpdateStateUpdate b r)])))"

definition applyMailboxUpdatedOrCreated :: "env \<Rightarrow> imap_Mailbox \<Rightarrow> unit uact" where
  "applyMailboxUpdatedOrCreated env mailbox =
     act_then (applyMailboxCreated env mailbox) (applyMailboxUpdated env (im_ID mailbox) (im_Name mailbox))"

section \<open>Mailboxes of a message\<close>

definition applyMessagesAddedToMailbox ::
    "env \<Rightarrow> InternalMailboxID \<Rightarrow> MessageIDPair list \<Rightarrow> (SnapshotMessageResult list \<times> StateUpdate) tx" where
  "applyMessagesAddedToMailbox env b messageIDs = AddMessagesToMailbox env b messageIDs None"

definition applyMessagesRemovedFromMailbox :: "env \<Rightarrow> InternalMailboxID \<Rightarrow> InternalMessageID list \<Rightarrow> StateUpdate list tx" where
  "applyMessagesRemovedFromMailbox env b messageIDs = RemoveMessagesFromMailbox env b messageIDs"

definition setMessageMailboxes :: "env \<Rightarrow> MessageIDPair \<Rightarrow> InternalMailboxID list \<Rightarrow> StateUpdate list tx" where
  "setMessageMailboxes env messageID mboxIDs =
     act_bind (reads (GetMessageMailboxIDs (InternalID messageID))) (\<lambda>curMailboxIDs.
       act_bind (for_all (\<lambda>b. applyMessagesAddedToMailbox env b [messageID])
           (filter (\<lambda>b. b \<notin> set curMailboxIDs) mboxIDs)) (\<lambda>added.
         act_bind (for_all (\<lambda>b. applyMessagesRemovedFromMailbox env b [InternalID messageID])
             (filter (\<lambda>b. b \<notin> set mboxIDs) curMailboxIDs)) (\<lambda>removed.
           ret (map snd added @ concat removed))))"

definition applyMessageMailboxesUpdated :: "env \<Rightarrow> MessageID \<Rightarrow> MailboxID list \<Rightarrow> FlagSet \<Rightarrow> unit uact" where
  "applyMessageMailboxesUpdated env r mailboxIDs flags =
     (if GluonInternalRecoveryMailboxRemoteID \<in> set mailboxIDs
      then fail (protected ''move messages into protected mailbox'')
      else act_bind (rd (MessageExistsWithRemoteID r)) (\<lambda>exists.
        if \<not> exists then fail ErrNoSuchMessage
        else userDBWrite env
          (act_bind (not_found_is ErrNoSuchMessage (rd (GetMessageIDFromRemoteID r))) (\<lambda>i.
             act_bind (rd (MailboxTranslateRemoteIDs mailboxIDs)) (\<lambda>internalMBoxIDs.
               act_bind (on_db (setMessageMailboxes env \<lparr>InternalID = i, RemoteID = r\<rparr> internalMBoxIDs)) (\<lambda>mboxUpdates.
                 act_bind (on_db (user_setMessageFlags i flags)) (\<lambda>flagUpdates.
                   ret (mboxUpdates @ flagUpdates))))))))"

definition applyMessageFlagsUpdated :: "env \<Rightarrow> MessageID \<Rightarrow> FlagSet \<Rightarrow> unit uact" where
  "applyMessageFlagsUpdated env r flags =
     act_bind (rd (MessageExistsWithRemoteID r)) (\<lambda>exists.
       if \<not> exists then fail ErrNoSuchMessage
       else userDBWrite env
         (act_bind (not_found_is ErrNoSuchMessage (rd (GetMessageIDFromRemoteID r))) (\<lambda>i.
            on_db (user_setMessageFlags i flags))))"

definition applyMessageIDChanged :: "env \<Rightarrow> InternalMessageID \<Rightarrow> MessageID \<Rightarrow> unit uact" where
  "applyMessageIDChanged env i r =
     act_then (db_Write env (on_db (UpdateRemoteMessageID i r)))
       (\<lambda>w. for_each (\<lambda>sid. act_bind (own sid) (\<lambda>st. act_bind (lift (UpdateMessageRemoteID i r st)) (\<lambda>st'. set_own sid (\<lambda>_. st'))))
          (map (\<lambda>u. st_StateID (us_state u)) (w_states w)) w)"

definition remove_everywhere :: "env \<Rightarrow> InternalMessageID \<Rightarrow> StateUpdate list uact" where
  "remove_everywhere env i =
     act_bind (rd (GetMessageMailboxIDs i)) (\<lambda>mailboxes.
       act_bind (for_all (\<lambda>b. on_db (RemoveMessagesFromMailbox env b [i])) mailboxes) (\<lambda>updates.
         ret (concat updates)))"

definition applyMessageDeleted :: "env \<Rightarrow> MessageID \<Rightarrow> unit uact" where
  "applyMessageDeleted env r =
     userDBWrite env
       (if_found (on_db (MarkMessageAsDeletedWithRemoteID r)) (\<lambda>_.
          if_found (rd (GetMessageIDFromRemoteID r)) (remove_everywhere env) []) [])"

section \<open>Changed messages\<close>

text \<open>The internal IDs of mailboxes; unknown ones are skipped if the update allows it.\<close>

definition known_mailbox :: "bool \<Rightarrow> MailboxID \<Rightarrow> InternalMailboxID list uact" where
  "known_mailbox ignoreUnknown r =
     act_bind (attempt (rd (GetMailboxIDFromRemoteID r))) (\<lambda>res.
       case res of Inr b \<Rightarrow> ret [b] | Inl e \<Rightarrow> if ignoreUnknown then ret [] else fail e)"

definition with_id :: "env \<Rightarrow> string \<Rightarrow> InternalMessageID \<Rightarrow> string" where
  "with_id env literal i =
     (case en_get_header env literal of
        Ok [] \<Rightarrow> (case en_set_header env literal i of Ok l \<Rightarrow> l | _ \<Rightarrow> literal)
      | _ \<Rightarrow> literal)"

definition replace_message :: "env \<Rightarrow> MessageCreated \<Rightarrow> bool \<Rightarrow> InternalMessageID \<Rightarrow> StateUpdate list uact" where
  "replace_message env m ignoreUnknown i =
     act_bind (remove_everywhere env i) (\<lambda>removed.
       act_bind tick (\<lambda>n.
         act_then (on_db (MarkMessageAsDeletedAndAssignRandomRemoteID (en_random env n) i))
           (act_bind (NewInternalMessageID env) (\<lambda>new.
             act_bind (lift (en_set_header env (mc_Literal m) new)) (\<lambda>literal.
               act_then (on_db (CreateMessages [create_request (mc_Message m) new literal (mc_ParsedMessage m)]))
                 (act_then (store_Set env new literal)
                   (act_bind (for_all (\<lambda>r.
                       act_bind (known_mailbox ignoreUnknown r) (\<lambda>bs.
                         for_all (\<lambda>b. on_db (AddMessagesToMailbox env b [\<lparr>InternalID = new, RemoteID = imsg_ID (mc_Message m)\<rparr>] None)) bs))
                       (mc_MailboxIDs m)) (\<lambda>added.
                     ret (removed @ map snd (concat added))))))))))"

definition update_message :: "env \<Rightarrow> MessageCreated \<Rightarrow> bool \<Rightarrow> InternalMessageID \<Rightarrow> StateUpdate list uact" where
  "update_message env m ignoreUnknown i =
     act_bind (attempt (store_Get env i)) (\<lambda>r.
       let onDiskLiteral = (case r of Inr l \<Rightarrow> l | Inl _ \<Rightarrow> []) in
       if onDiskLiteral = with_id env (mc_Literal m) i
       then act_bind (for_all (known_mailbox ignoreUnknown) (mc_MailboxIDs m)) (\<lambda>targets.
         act_bind (on_db (user_setMessageFlags i (imsg_Flags (mc_Message m)))) (\<lambda>flagUpdates.
           act_bind (on_db (setMessageMailboxes env \<lparr>InternalID = i, RemoteID = imsg_ID (mc_Message m)\<rparr> (concat targets))) (\<lambda>mboxUpdates.
             ret (flagUpdates @ mboxUpdates))))
       else replace_message env m ignoreUnknown i)"

text \<open>\<open>missing\<close> is what happens when there is no such message.\<close>

definition message_updated :: "env \<Rightarrow> MessageCreated \<Rightarrow> bool \<Rightarrow> unit uact \<Rightarrow> unit uact" where
  "message_updated env m ignoreUnknown missing =
     act_bind (attempt (rd (GetMessageIDFromRemoteID (imsg_ID (mc_Message m))))) (\<lambda>r.
       case r of
         Inl e \<Rightarrow> if IsErrNotFound e then missing else fail e
       | Inr i \<Rightarrow> userDBWrite env (update_message env m ignoreUnknown i))"

section \<open>New messages\<close>

text \<open>
  What the loop over the messages of the update collects: messages to create with their literals, the messages
  of each mailbox, and messages that exist already.
\<close>

record collected =
  cl_create :: "(CreateMessageReq \<times> string) list"
  cl_filter :: "(MessageID \<times> InternalMessageID) list"
  cl_mailboxes :: "(InternalMailboxID \<times> MessageIDPair list) list"
  cl_mbox_ids :: "(MailboxID \<times> InternalMailboxID) list"
  cl_update :: "MessageCreated list"

fun fold_act :: "('x \<Rightarrow> 'b \<Rightarrow> ('s, 'b) act) \<Rightarrow> 'x list \<Rightarrow> 'b \<Rightarrow> ('s, 'b) act" where
  "fold_act f [] b = ret b"
| "fold_act f (x # xs) b = act_bind (f x b) (fold_act f xs)"

definition put_message :: "InternalMailboxID \<Rightarrow> MessageIDPair \<Rightarrow> collected \<Rightarrow> collected" where
  "put_message b p c =
     (let messageList = (case map_of (cl_mailboxes c) b of None \<Rightarrow> [] | Some l \<Rightarrow> l) in
      c\<lparr>cl_mailboxes := AList.update b
          (if list_ex (\<lambda>q. InternalID q = InternalID p) messageList then messageList else messageList @ [p]) (cl_mailboxes c)\<rparr>)"

definition assign_mailbox :: "bool \<Rightarrow> MessageIDPair \<Rightarrow> MailboxID \<Rightarrow> collected \<Rightarrow> collected uact" where
  "assign_mailbox ignoreUnknown p r c =
     (case map_of (cl_mbox_ids c) r of
        Some b \<Rightarrow> ret (put_message b p c)
      | None \<Rightarrow>
          act_bind (known_mailbox ignoreUnknown r) (\<lambda>bs.
            case bs of
              [] \<Rightarrow> ret c
            | b # _ \<Rightarrow> ret (put_message b p (c\<lparr>cl_mbox_ids := AList.update r b (cl_mbox_ids c)\<rparr>))))"

definition collect_new :: "env \<Rightarrow> MessageCreated \<Rightarrow> collected \<Rightarrow> (InternalMessageID option \<times> collected) uact" where
  "collect_new env m c =
     (case map_of (cl_filter c) (imsg_ID (mc_Message m)) of
        Some i \<Rightarrow> ret (Some i, c)
      | None \<Rightarrow>
          act_bind (known_message (imsg_ID (mc_Message m))) (\<lambda>known.
            case known of
              Some _ \<Rightarrow> ret (None, c\<lparr>cl_update := cl_update c @ [m]\<rparr>)
            | None \<Rightarrow>
                act_bind (NewInternalMessageID env) (\<lambda>i.
                  act_bind (lift (en_set_header env (mc_Literal m) i)) (\<lambda>literal.
                    ret (Some i, c\<lparr>cl_create := cl_create c @ [(create_request (mc_Message m) i literal (mc_ParsedMessage m), literal)],
                      cl_filter := AList.update (imsg_ID (mc_Message m)) i (cl_filter c)\<rparr>)))))"

definition collect_message :: "env \<Rightarrow> bool \<Rightarrow> MessageCreated \<Rightarrow> collected \<Rightarrow> collected uact" where
  "collect_message env ignoreUnknown m c =
     (if GluonInternalRecoveryMailboxRemoteID \<in> set (mc_MailboxIDs m) then ret c
      else act_bind (collect_new env m c) (\<lambda>(oi, c).
        case oi of
          None \<Rightarrow> ret c
        | Some i \<Rightarrow> fold_act (assign_mailbox ignoreUnknown \<lparr>InternalID = i, RemoteID = imsg_ID (mc_Message m)\<rparr>) (mc_MailboxIDs m) c))"

definition nothing_collected :: collected where
  "nothing_collected = \<lparr>cl_create = [], cl_filter = [], cl_mailboxes = [], cl_mbox_ids = [], cl_update = []\<rparr>"

definition create_collected :: "env \<Rightarrow> (CreateMessageReq \<times> string) list \<Rightarrow> unit uact" where
  "create_collected env msgs =
     for_each (\<lambda>chunk.
         act_then (for_each (\<lambda>(req, literal). store_Set env (cr_InternalID req) literal) chunk)
           (on_db (CreateMessages (map fst chunk))))
       (chunk ChunkLimit msgs)"

definition add_to_mailbox :: "env \<Rightarrow> InternalMailboxID \<times> MessageIDPair list \<Rightarrow> StateUpdate list uact" where
  "add_to_mailbox env bl =
     (let (b, msgList) = bl in
      act_bind (rd (MailboxFilterContains b msgList)) (\<lambda>inMailbox.
        let toAdd = filter (\<lambda>p. InternalID p \<notin> set inMailbox) msgList in
        if toAdd = [] then ret []
        else act_bind (on_db (applyMessagesAddedToMailbox env b toAdd)) (\<lambda>(_, update). ret [update])))"

definition create_and_assign :: "env \<Rightarrow> collected \<Rightarrow> StateUpdate list uact" where
  "create_and_assign env c =
     (if cl_create c = [] \<and> cl_mailboxes c = [] then ret []
      else act_then (create_collected env (cl_create c))
        (act_bind (for_all (add_to_mailbox env) (cl_mailboxes c)) (\<lambda>us. ret (concat us))))"

definition failed_update :: state_error where
  "failed_update = ErrOther ''failed to update previously existing message during creation''"

text \<open>
  The first loop only reads the database; the transactions of a client do not overlap, so that it may as well
  run before the writes of its transaction. When the transaction fails, the literals are deleted again.
\<close>

definition applyMessagesCreated :: "env \<Rightarrow> MessageCreated list \<Rightarrow> bool \<Rightarrow> unit uact" where
  "applyMessagesCreated env msgs ignoreUnknown =
     act_bind (fold_act (collect_message env ignoreUnknown) msgs nothing_collected) (\<lambda>c.
       act_bind (attempt (userDBWrite env (create_and_assign env c))) (\<lambda>r.
         case r of
           Inl e \<Rightarrow>
             act_then (for_each (\<lambda>(req, _). ignored (store_Delete env [cr_InternalID req])) (cl_create c)) (fail e)
         | Inr _ \<Rightarrow>
             for_each (\<lambda>m. act_bind (attempt (message_updated env m ignoreUnknown (ret ()))) (\<lambda>r.
                 case r of Inl _ \<Rightarrow> fail failed_update | Inr _ \<Rightarrow> ret ()))
               (cl_update c)))"

definition applyMessageUpdated :: "env \<Rightarrow> MessageCreated \<Rightarrow> bool \<Rightarrow> bool \<Rightarrow> unit uact" where
  "applyMessageUpdated env m allowCreate ignoreUnknown =
     message_updated env m ignoreUnknown (if allowCreate then applyMessagesCreated env [m] True else ret ())"

section \<open>UIDVALIDITY\<close>

definition applyUIDValidityBumped :: "env \<Rightarrow> unit uact" where
  "applyUIDValidityBumped env =
     act_then
       (db_Write env
         (act_bind (rd GetAllMailboxesWithAttr) (\<lambda>mailboxes.
            for_each (\<lambda>mailbox.
              act_bind (GenerateUIDValidity env) (\<lambda>uidValidity.
                on_db (SetMailboxUIDValidity (mbx_ID (mwa_Mailbox mailbox)) uidValidity))) mailboxes)))
       (queueStateUpdate [Upd uidValidityBumpedStateUpdate])"

fun apply_update :: "env \<Rightarrow> imap_Update \<Rightarrow> unit uact" where
  "apply_update env (MailboxCreated m) = applyMailboxCreated env m"
| "apply_update env (MailboxDeleted r) = applyMailboxDeleted env r"
| "apply_update env (MailboxDeletedSilent r) = applyMailboxDeletedSilent env r"
| "apply_update env (MailboxUpdated r n) = applyMailboxUpdated env r n"
| "apply_update env (MailboxIDChanged b r) = applyMailboxIDChanged env b r"
| "apply_update env (MailboxUpdatedOrCreated m) = applyMailboxUpdatedOrCreated env m"
| "apply_update env (MessagesCreated ms i) = applyMessagesCreated env ms i"
| "apply_update env (MessageMailboxesUpdated r ms fl) = applyMessageMailboxesUpdated env r ms fl"
| "apply_update env (MessageFlagsUpdated r fl) = applyMessageFlagsUpdated env r fl"
| "apply_update env (MessageIDChanged i r) = applyMessageIDChanged env i r"
| "apply_update env (MessageDeleted r) = applyMessageDeleted env r"
| "apply_update env (MessageUpdated m c i) = applyMessageUpdated env m c i"
| "apply_update env UIDValidityBumped = applyUIDValidityBumped env"
| "apply_update env Noop = ret ()"

section \<open>The user\<close>

text \<open>
  The connector starts with an interface to the database of its own: it runs transactions and decides from
  their outcomes what to do next.
\<close>

datatype init_program =
    Init_done
  | Init_failed state_error
  | Init_write "unit remote" "state_error option \<Rightarrow> init_program"

definition DBIMAPState_Write :: "env \<Rightarrow> unit remote \<Rightarrow> unit uact" where
  "DBIMAPState_Write env f =
     act_bind (db_Write env (run_remote env (en_delimiter env) f [])) (\<lambda>(stateUpdates, _). queueStateUpdate stateUpdates)"

primrec run_init :: "env \<Rightarrow> init_program \<Rightarrow> unit uact" where
  "run_init env Init_done = ret ()"
| "run_init env (Init_failed e) = fail e"
| "run_init env (Init_write f k) =
     act_bind (attempt (DBIMAPState_Write env f)) (\<lambda>r.
       case r of Inl e \<Rightarrow> run_init env (k (Some e)) | Inr _ \<Rightarrow> run_init env (k None))"

definition AttrNoInferiors :: string where
  "AttrNoInferiors = CHR 0x5C # ''Noinferiors''"

definition recovery_mailbox :: imap_Mailbox where
  "recovery_mailbox =
     (let mboxFlags = NewFlagSet [FlagSeen, FlagFlagged, FlagDeleted] in
      \<lparr>im_ID = GluonInternalRecoveryMailboxRemoteID, im_Name = [GluonRecoveryMailboxName],
       im_Flags = mboxFlags, im_PermanentFlags = mboxFlags, im_Attributes = NewFlagSet [AttrNoInferiors]\<rparr>)"

definition prefill_hash :: "env \<Rightarrow> MessageIDPair \<Rightarrow> unit uact" where
  "prefill_hash env m =
     act_bind (attempt (store_Get env (InternalID m))) (\<lambda>r.
       case r of
         Inl _ \<Rightarrow> ret ()
       | Inr literal \<Rightarrow> ignored (on_hashes (hashes_Insert (en_hash env) (InternalID m) literal)))"

definition open_recovery :: "env \<Rightarrow> Mailbox uact" where
  "open_recovery env =
     db_Write env
       (act_bind (GenerateUIDValidity env) (\<lambda>uidValidity.
          act_bind (on_db (GetOrCreateMailboxAlt recovery_mailbox (en_delimiter env) uidValidity)) (\<lambda>recoveryMBox.
            act_bind (rd (GetMailboxMessageIDPairs (mbx_ID recoveryMBox))) (\<lambda>msgs.
              act_then (for_each (prefill_hash env) msgs) (ret recoveryMBox)))))"

definition deleteAllMessagesMarkedDeleted :: "env \<Rightarrow> unit uact" where
  "deleteAllMessagesMarkedDeleted env =
     act_bind (db_Write env
         (act_bind (rd GetMessageIDsMarkedAsDelete) (\<lambda>ids. act_then (on_db (DeleteMessages ids)) (ret ids)))) (\<lambda>ids.
       store_Delete env ids)"

definition cleanupStaleStoreData :: "env \<Rightarrow> unit uact" where
  "cleanupStaleStoreData env =
     act_bind (act_then (store_call env) (reads (\<lambda>w. Ok (map fst (w_store w))))) (\<lambda>storeIds.
       act_bind (rd GetAllMessagesIDsAsMap) (\<lambda>dbIds.
         store_Delete env (filter (\<lambda>i. i \<notin> set dbIds) storeIds)))"

text \<open>The environment of the user that is created has the ID of the recovery mailbox.\<close>

definition newUser :: "env \<Rightarrow> init_program \<Rightarrow> env uact" where
  "newUser env init =
     act_bind (open_recovery env) (\<lambda>recoveryMBox.
       let env' = env\<lparr>en_recovery := mbx_ID recoveryMBox\<rparr> in
       act_then (run_init env' init)
         (act_then (ignored (deleteAllMessagesMarkedDeleted env'))
           (act_then (ignored (cleanupStaleStoreData env')) (ret env'))))"

definition new_state :: "StateID \<Rightarrow> State" where
  "new_state sid = \<lparr>st_StateID = sid, st_idle = False, st_res = [], st_snap = None, st_ro = False, st_invalid = False\<rparr>"

definition newState :: "StateID \<Rightarrow> unit uact" where
  "newState sid = modify (\<lambda>w. w\<lparr>w_states := w_states w @ [\<lparr>us_state = new_state sid, us_updates = []\<rparr>]\<rparr>)"

text \<open>Messages that are marked as deleted go when the last state that shows them does.\<close>

definition shown_elsewhere :: "StateID \<Rightarrow> InternalMessageID \<Rightarrow> user_state list \<Rightarrow> bool" where
  "shown_elsewhere sid i us \<longleftrightarrow> list_ex (\<lambda>u. st_StateID (us_state u) \<noteq> sid \<and> HasMessage i (us_state u)) us"

definition removeState :: "env \<Rightarrow> StateID \<Rightarrow> unit uact" where
  "removeState env sid =
     act_bind (rd GetMessageIDsMarkedAsDelete) (\<lambda>messageIDs.
       act_bind (reads (\<lambda>w.
           if list_ex (\<lambda>u. st_StateID (us_state u) = sid) (w_states w)
           then Ok (filter (\<lambda>i. \<not> shown_elsewhere sid i (w_states w)) messageIDs)
           else Err (ErrOther ''no such state''))) (\<lambda>messageIDs.
         act_then (modify (\<lambda>w. w\<lparr>w_states := filter (\<lambda>u. st_StateID (us_state u) \<noteq> sid) (w_states w)\<rparr>))
           (act_then (db_Write env (on_db (DeleteMessages messageIDs)))
             (ignored (store_Delete env messageIDs)))))"

end
