(* ===== verification/Db_Mailbox.thy ===== *)
theory Db_Mailbox
  imports Db_Client
begin

text \<open>
  What the operations of the database do to mailboxes and messages: what is inserted is found, added
  messages get the next UIDs in order, and the operations on more messages or flags than one statement takes.
\<close>

section \<open>Adding messages\<close>

lemma new_rows_append: "new_rows n (xs @ ys) = new_rows n xs @ new_rows (n + length xs) ys"
proof -
  have "enumerate (length xs) ys = map (\<lambda>(k, i). (k + length xs, i)) (enumerate 0 ys)" for xs ys :: "MessageIDPair list"
    by (rule nth_equalityI) (auto simp: nth_enumerate_eq add.commute)
  then show ?thesis unfolding new_rows_def by (auto simp: enumerate_append_eq add.assoc)
qed

lemma update_twice: "AList.update k y (AList.update k x al) = AList.update k y al"
  by (induction al) auto

lemma uid_seq_with_messages [simp]: "uid_seq b (with_messages b rows ids db) = uid_seq b db + length ids"
  by (simp add: with_messages_def uid_seq_def update_conv')

lemma with_messages_append:
  "with_messages b (rows @ new_rows (uid_seq b db) xs) ys (with_messages b rows xs db) = with_messages b rows (xs @ ys) db"
proof -
  have "uid_seq b (with_messages b rows xs db) = uid_seq b db + length xs" by simp
  then show ?thesis
    unfolding with_messages_def [of b _ ys] with_messages_def [of b rows "xs @ ys"]
    by (simp add: with_messages_def [of b rows xs] new_rows_append update_twice add.assoc)
qed

lemma add_chunks_result:
  assumes "db_ok db" and "for_each (add_chunk b) chunks db = (Ok u, db')" and "chunks \<noteq> []"
  shows "\<exists>rows. map_of (t_mailbox_messages db) b = Some rows \<and> db' = with_messages b rows (concat chunks) db"
  using assms
proof (induction chunks arbitrary: db)
  case (Cons c cs)
  from Cons.prems(2) obtain db1 where c: "add_chunk b c db = (Ok (), db1)" and cs: "for_each (add_chunk b) cs db1 = (Ok u, db')"
    by (auto simp: then_Ok_iff)
  obtain rows where rows: "map_of (t_mailbox_messages db) b = Some rows" and db1: "db1 = with_messages b rows c db"
    by (rule add_chunk_cases [OF Cons.prems(1), of b c]) (use c in auto)
  show ?case
  proof (cases cs)
    case Nil
    with cs rows db1 show ?thesis by (simp add: act_simps)
  next
    case (Cons c' cs')
    have ok1: "db_ok db1" by (rule keeps_state [OF keeps_add_chunk c Cons.prems(1)])
    from Cons.IH [OF ok1 cs] Cons obtain rows1 where rows1: "map_of (t_mailbox_messages db1) b = Some rows1"
      and db': "db' = with_messages b rows1 (concat cs) db1" by auto
    from rows1 have "rows1 = rows @ new_rows (uid_seq b db) c" by (simp add: db1 with_messages_def update_conv')
    with db' have "db' = with_messages b rows (c @ concat cs) db" by (simp add: db1 with_messages_append)
    with rows show ?thesis by simp
  qed
qed simp

lemma bind_outcome_assoc: "bind_outcome (bind_outcome r f) g = bind_outcome r (\<lambda>x. bind_outcome (f x) g)"
  by (cases r) simp_all

lemma bind_outcome_unit: "bind_outcome r Ok = r"
  by (cases r) simp_all

lemma scan_rows_append: "scan_rows db (xs @ ys) = bind_outcome (scan_rows db xs) (\<lambda>as. bind_outcome (scan_rows db ys) (\<lambda>bs. Ok (as @ bs)))"
  by (induction xs) (simp_all add: bind_outcome_assoc bind_outcome_unit)

lemma scan_rows_columns:
  "scan_rows db rows = Ok res \<Longrightarrow>
     map sr_InternalID res = map mm_message_id rows \<and> map sr_RemoteID res = map mm_message_remote_id rows
     \<and> map (\<lambda>x. unat (sr_UID x)) res = map mm_uid rows"
proof (induction rows arbitrary: res)
  case (Cons r rows)
  then obtain x xs where x: "scan_row db r = Ok x" and xs: "scan_rows db rows = Ok xs" "res = x # xs"
    by (auto)
  from x have "mm_uid r < 4294967296" and "x = \<lparr>sr_InternalID = mm_message_id r, sr_RemoteID = mm_message_remote_id r,
      sr_UID = of_nat (mm_uid r), sr_Recent = mm_recent r, sr_Deleted = mm_deleted r,
      sr_Flags = group_concat (message_flags (mm_message_id r) db)\<rparr>"
    by (auto simp: scan_row_def scan_uid_def split: if_splits)
  moreover from \<open>mm_uid r < 4294967296\<close> have "unat (of_nat (mm_uid r) :: 32 word) = mm_uid r"
    by (simp only: unat_of_nat) simp
  ultimately show ?case using Cons.IH [OF xs(1)] xs(2) by simp
qed simp

lemma for_append_scan:
  assumes "for_append f cs acc = Ok out" and "\<And>c. c \<in> set cs \<Longrightarrow> f c = scan_rows db (g c)"
  shows "\<exists>res. scan_rows db (concat (map g cs)) = Ok res \<and> out = acc @ res"
  using assms
proof (induction cs arbitrary: acc)
  case (Cons c cs)
  then obtain xs where xs: "scan_rows db (g c) = Ok xs" and "for_append f cs (acc @ xs) = Ok out"
    by (auto)
  with Cons obtain res where "scan_rows db (concat (map g cs)) = Ok res" "out = (acc @ xs) @ res" by fastforce
  with xs show ?case by (simp add: scan_rows_append)
qed simp

lemma filter_new_rows:
  assumes "distinct (map mm_message_id rows @ map InternalID (pre @ c @ post))"
  shows "filter (\<lambda>r. mm_message_id r \<in> set (map InternalID c)) (rows @ new_rows n (pre @ c @ post)) = new_rows (n + length pre) c"
proof -
  have none: "filter (\<lambda>r. mm_message_id r \<in> S) xs = []" if "set (map mm_message_id xs) \<inter> S = {}" for xs S
    using that by (auto simp: filter_empty_conv)
  have all: "filter (\<lambda>r. mm_message_id r \<in> set (map mm_message_id xs)) xs = xs" for xs by simp
  have "filter (\<lambda>r. mm_message_id r \<in> set (map InternalID c)) (new_rows m c) = new_rows m c" for m
    using all [of "new_rows m c"] by (simp only: new_rows_columns)
  moreover have "set (map mm_message_id rows) \<inter> set (map InternalID c) = {}"
    "set (map mm_message_id (new_rows n pre)) \<inter> set (map InternalID c) = {}"
    "set (map mm_message_id (new_rows (n + length pre + length c) post)) \<inter> set (map InternalID c) = {}"
    unfolding new_rows_columns using assms by auto
  ultimately show ?thesis by (simp only: new_rows_append filter_append none append_Nil append_Nil2)
qed

lemma chunks_of_new_rows:
  assumes "0 < k" and "distinct (map mm_message_id rows @ map InternalID (pre @ ids))"
  shows "concat (map (\<lambda>c. sort_key mm_uid (filter (\<lambda>r. mm_message_id r \<in> set c) (rows @ new_rows n (pre @ ids))))
      (chunk k (map InternalID ids))) = new_rows (n + length pre) ids"
  using assms
proof (induction k ids arbitrary: pre rule: chunk.induct)
  case (1 k ids)
  show ?case
  proof (cases "ids = []")
    case True
    then show ?thesis by (simp add: new_rows_def)
  next
    case False
    let ?c = "take k ids" and ?rest = "drop k ids" and ?rows = "rows @ new_rows n (pre @ ids)"
    let ?g = "\<lambda>c. sort_key mm_uid (filter (\<lambda>r. mm_message_id r \<in> set c) ?rows)"
    have split: "ids = ?c @ ?rest" by simp
    have "filter (\<lambda>r. mm_message_id r \<in> set (map InternalID ?c)) ?rows = new_rows (n + length pre) ?c"
      using filter_new_rows [of rows pre ?c ?rest n] "1.prems" by simp
    moreover have "sorted (map mm_uid (new_rows (n + length pre) ?c))" by (simp only: new_rows_columns sorted_upt)
    ultimately have g: "?g (map InternalID ?c) = new_rows (n + length pre) ?c" by (simp add: sort_key_id_if_sorted)
    have "concat (map ?g (chunk k (map InternalID ?rest))) = new_rows (n + length (pre @ ?c)) ?rest"
      using "1.IH" [of "pre @ ?c"] False "1.prems" by simp
    moreover have "chunk k (map InternalID ids) = map InternalID ?c # chunk k (map InternalID ?rest)"
      using False "1.prems"(1) by (simp add: chunk.simps [of k "map InternalID ids"] take_map drop_map)
    moreover have "new_rows (n + length pre) ids = new_rows (n + length pre) ?c @ new_rows (n + length (pre @ ?c)) ?rest"
      using new_rows_append [of "n + length pre" ?c ?rest] by (simp add: add.assoc)
    ultimately show ?thesis using g by simp
  qed
qed

lemma mailbox_rows_with_messages: "mailbox_rows b (with_messages b rows ids db) = Ok (rows @ new_rows (uid_seq b db) ids)"
  by (simp add: mailbox_rows_def with_messages_def update_conv')

lemma AddMessagesToMailbox_result:
  assumes ok: "db_ok db" and add: "AddMessagesToMailbox_db b ids db = (Ok res, db')" and ne: "ids \<noteq> []"
  shows "\<exists>rows. map_of (t_mailbox_messages db) b = Some rows \<and> db' = with_messages b rows ids db
    \<and> distinct (map mm_message_id rows @ map InternalID ids)
    \<and> scan_rows db' (new_rows (uid_seq b db) ids) = Ok res"
proof -
  have k: "0 < ChunkLimit div 2" "0 < ChunkLimit" by (simp_all add: ChunkLimit_def)
  from add ne have loop: "for_each (add_chunk b) (chunk (ChunkLimit div 2) ids) db = (Ok (), db')"
    and get: "GetMailboxMessageUIDsWithFlagsAfterAddOrUIDBump b (map InternalID ids) db' = Ok res"
    unfolding AddMessagesToMailbox_chunks by (auto simp: then_Ok_iff reads_apply)
  have "chunk (ChunkLimit div 2) ids \<noteq> []" using concat_chunk [OF k(1), of ids] ne by auto
  from add_chunks_result [OF ok loop this] obtain rows where rows: "map_of (t_mailbox_messages db) b = Some rows"
    and db': "db' = with_messages b rows ids db" by (auto simp: concat_chunk [OF k(1)])
  have ok': "db_ok db'" by (rule keeps_state [OF keeps_AddMessagesToMailbox add ok])
  have "map_of (t_mailbox_messages db') b = Some (rows @ new_rows (uid_seq b db) ids)"
    by (simp add: db' with_messages_def update_conv')
  with contentsD(3) [OF ok'] have "distinct (map mm_message_id (rows @ new_rows (uid_seq b db) ids))"
    unfolding contents_def rows_ok_def by blast
  then have d: "distinct (map mm_message_id rows @ map InternalID ids)" by (simp only: map_append new_rows_columns)
  let ?g = "\<lambda>c. sort_key mm_uid (filter (\<lambda>r. mm_message_id r \<in> set c) (rows @ new_rows (uid_seq b db) ids))"
  have "mailbox_rows b db' = Ok (rows @ new_rows (uid_seq b db) ids)" unfolding db' by (rule mailbox_rows_with_messages)
  with get have "for_append (\<lambda>c. scan_rows db' (?g c)) (chunk ChunkLimit (map InternalID ids)) [] = Ok res"
    by (simp add: GetMailboxMessageUIDsWithFlagsAfterAddOrUIDBump_def)
  from for_append_scan [OF this, of db' ?g] chunks_of_new_rows [OF k(2), of rows "[]" ids "uid_seq b db"] d
  have "scan_rows db' (new_rows (uid_seq b db) ids) = Ok res" by auto
  with rows db' d show ?thesis by blast
qed

section \<open>Creating mailboxes\<close>

lemma insert_texts_result:
  "for_each (\<lambda>f. stmt (insert_text t b f)) vs db = (Ok u, db') \<Longrightarrow> db' = set_texts t (get_texts t db @ map (\<lambda>f. (b, f)) vs) db"
proof (induction vs arbitrary: db)
  case Nil
  then show ?case by (cases t) (simp_all add: act_simps)
next
  case (Cons v vs)
  then obtain db1 where i: "insert_text t b v db = Ok db1"
    and r: "for_each (\<lambda>f. stmt (insert_text t b f)) vs db1 = (Ok u, db')"
    by (auto simp: then_Ok_iff stmt_Ok)
  from i have "db1 = set_texts t (get_texts t db @ [(b, v)]) db" by (auto simp: insert_text_def split: if_splits)
  with Cons.IH [OF r] show ?case by (cases t) simp_all
qed

lemma CreateMailbox_result:
  assumes ok: "db_ok db" and c: "CreateMailbox r n fl pf at v db = (Ok m, db')"
  shows "m = new_mailbox r n v db
    \<and> db' = set_texts Mailbox_attrs (t_mailbox_attrs db @ map (\<lambda>f. (mbx_ID m, f)) (Values at))
        (set_texts Mailbox_perm_flags (t_mailbox_perm_flags db @ map (\<lambda>f. (mbx_ID m, f)) (Values pf))
          (set_texts Mailbox_flags (t_mailbox_flags db @ map (\<lambda>f. (mbx_ID m, f)) (Values fl)) (with_mailbox m db)))
    \<and> r \<notin> mbx_RemoteID ` set (t_mailboxes db) \<and> n \<notin> mbx_Name ` set (t_mailboxes db)
    \<and> t_mailbox_seq db < max_rowid"
proof -
  let ?m = "new_mailbox r n v db"
  let ?texts = "\<lambda>t vs. for_each (\<lambda>f. stmt (insert_text t (mbx_ID ?m) f)) (Values vs)"
  let ?start = "act_then (MapLabelsUniqueConstraintError r n (stmt (insert_mailbox r n v))) (stmt (create_mailbox_table (mbx_ID ?m)))"
  have "act_then ?start (act_then (?texts Mailbox_flags fl) (act_then (?texts Mailbox_perm_flags pf)
      (act_then (?texts Mailbox_attrs at) (ret ?m)))) db = (Ok m, db')"
    using c by (simp add: CreateMailbox_def bind_apply reads_apply then_assoc)
  then obtain db1 db2 db3 where 1: "?start db = (Ok (), db1)" and 2: "?texts Mailbox_flags fl db1 = (Ok (), db2)"
    and 3: "?texts Mailbox_perm_flags pf db2 = (Ok (), db3)" and 4: "?texts Mailbox_attrs at db3 = (Ok (), db')" and m: "m = ?m"
    by (auto simp: then_Ok_iff [of "act_then _ _"] then_Ok_iff [of "for_each _ _"] ret_apply)
  from 1 have pre: "t_mailbox_seq db < max_rowid" "r \<notin> mbx_RemoteID ` set (t_mailboxes db)" "n \<notin> mbx_Name ` set (t_mailboxes db)"
    by (auto simp: then_Ok_iff map_labels_Ok stmt_Ok insert_mailbox_def list_ex_iff split: if_splits)
  from create_mailbox_start [OF ok 1] have "db1 = with_mailbox ?m db" ..
  with insert_texts_result [OF 2] insert_texts_result [OF 3] insert_texts_result [OF 4] m pre
  show ?thesis by (simp add: with_mailbox_def)
qed

section \<open>Setting flags\<close>

lemma pair_args_flags [simp]: "pair_args (concat (map (\<lambda>f. [Arg_message i, Arg_text f]) fs)) = map (\<lambda>f. (i, f)) fs"
  by (induction fs) simp_all

lemma flag_args_one: "flag_args [i] fs = concat (map (\<lambda>f. [Arg_message i, Arg_text f]) fs)"
  by (simp add: flag_args_def)

lemma length_flag_args [simp]: "length (flag_args ids fs) = length ids * (2 * length fs)"
  by (induction ids) (simp_all add: flag_args_def length_concat comp_def sum_list_triv)

lemma take_flag_args: "take (2 * length fs) (flag_args (i # ids) fs) = flag_args [i] fs"
proof -
  have "flag_args (i # ids) fs = flag_args [i] fs @ flag_args ids fs" by (simp add: flag_args_def)
  then show ?thesis by simp
qed

definition set_flags_chunk :: "extra_args \<Rightarrow> string list \<Rightarrow> InternalMessageID list \<Rightarrow> unit tx" where
  "set_flags_chunk p fs c =
     act_then (stmt (delete_message_flags (\<lambda>(i, v). i \<in> set c \<and> v \<notin> set fs)))
       (case bind_args p (2 * length fs) (flag_args c fs) of
          None \<Rightarrow> fail (ErrDB DB_arguments)
        | Some args \<Rightarrow> stmt (insert_or_ignore_message_flags (pair_args args)))"

lemma SetFlagsOnMessages_one_chunk:
  assumes "Values flags \<noteq> []" and "ids \<noteq> []" and "length ids \<le> ChunkLimit div 2"
  shows "SetFlagsOnMessages p ids flags = set_flags_chunk p (Values flags) ids"
proof -
  have "chunk (ChunkLimit div 2) ids = [ids]" by (rule chunk_short) (use assms in simp_all)
  then show ?thesis using assms(1)
    by (auto simp: fun_eq_iff SetFlagsOnMessages_def Let_def GenSQLIn_def set_flags_chunk_def act_simps
        split: prod.splits outcome.splits)
qed

text \<open>With the first message only, or with the arguments for the others ignored.\<close>

lemma set_flags_chunk_result:
  assumes "i \<in> message_ids db" and "p = Ignored \<or> ids = []"
  shows "\<exists>db'. set_flags_chunk p fs (i # ids) db = (Ok (), db')
    \<and> set (message_flags i db') = set fs
    \<and> (\<forall>j \<in> set ids - {i}. set (message_flags j db') = set (message_flags j db) \<inter> set fs)
    \<and> (\<forall>j. j \<notin> set (i # ids) \<longrightarrow> set (message_flags j db') = set (message_flags j db))"
proof -
  let ?db1 = "db\<lparr>t_message_flags := filter (\<lambda>r. \<not> (case r of (k, v) \<Rightarrow> k \<in> set (i # ids) \<and> v \<notin> set fs)) (t_message_flags db)\<rparr>"
  let ?db' = "?db1\<lparr>t_message_flags := add_missing (t_message_flags ?db1) (map (\<lambda>f. (i, f)) fs)\<rparr>"
  have "bind_args p (2 * length fs) (flag_args (i # ids) fs) = Some (flag_args [i] fs)"
    using assms(2) take_flag_args [of fs i ids] by (auto simp: bind_args_def)
  moreover have "insert_or_ignore_message_flags (map (\<lambda>f. (i, f)) fs) ?db1 = Ok ?db'"
    using assms(1) by (simp add: insert_or_ignore_message_flags_def list_all_iff list_ex_message message_ids_def)
  ultimately have run: "set_flags_chunk p fs (i # ids) db = (Ok (), ?db')"
    by (simp add: set_flags_chunk_def act_simps stmt_def delete_message_flags_def flag_args_one)
  have flags: "set (message_flags j ?db') = {v. (j, v) \<in> set (t_message_flags db) \<and> (j \<in> set (i # ids) \<longrightarrow> v \<in> set fs)}
      \<union> (if j = i then set fs else {})" for j
    by (auto simp: message_flags_def values_of_def image_iff)
  have old: "set (message_flags j db) = {v. (j, v) \<in> set (t_message_flags db)}" for j
    by (auto simp: message_flags_def values_of_def image_iff)
  show ?thesis using run flags old by (intro exI [of _ ?db']) auto
qed

section \<open>Removing many messages\<close>

lemma ChunkLimit_pos: "0 < ChunkLimit"
  by (simp add: ChunkLimit_def)

lemma chunk_step: "xs \<noteq> [] \<Longrightarrow> 0 < n \<Longrightarrow> chunk n xs = take n xs # chunk n (drop n xs)"
  by (subst chunk.simps) simp

lemma take_link_args: "n < length ids \<Longrightarrow> last (take (n + 1) (map Arg_message ids @ [Arg_mailbox b])) \<noteq> Arg_mailbox b'"
  by (auto simp: take_Suc_conv_app_nth nth_append)

definition remove_chunk :: "extra_args \<Rightarrow> InternalMailboxID \<Rightarrow> InternalMessageID list \<Rightarrow> nat \<Rightarrow> unit tx" where
  "remove_chunk p b ids n =
     act_then
       (case bind_args p n (map Arg_message ids) of
          None \<Rightarrow> fail (ErrDB DB_arguments)
        | Some args \<Rightarrow> stmt (delete_rows b (\<lambda>r. Arg_message (mm_message_id r) \<in> set args)))
       (case bind_args p (n + 1) (map Arg_message ids @ [Arg_mailbox b]) of
          None \<Rightarrow> fail (ErrDB DB_arguments)
        | Some args \<Rightarrow> stmt (delete_links (\<lambda>(i, b). Arg_message i \<in> set (butlast args) \<and> Arg_mailbox b = last args)))"

lemma RemoveMessagesFromMailbox_chunks:
  "RemoveMessagesFromMailbox_db p b ids = for_each (\<lambda>c. remove_chunk p b ids (length c)) (chunk ChunkLimit ids)"
  unfolding RemoveMessagesFromMailbox_db_def remove_chunk_def ..

lemma remove_chunk_ignored:
  assumes "n < length ids" and "map_of (t_mailbox_messages db) b = Some rows"
  shows "remove_chunk Ignored b ids n db = (Ok (), db\<lparr>t_mailbox_messages :=
     AList.update b (filter (\<lambda>r. mm_message_id r \<notin> set (take n ids)) rows) (t_mailbox_messages db)\<rparr>)"
proof -
  have "Arg_message i \<in> set (take n (map Arg_message ids)) \<longleftrightarrow> i \<in> set (take n ids)" for i
    by (auto simp: take_map)
  moreover have "(\<lambda>(i, b'). Arg_message i \<in> set (butlast as) \<and> Arg_mailbox b' = last as) = (\<lambda>_. False)"
    if "as = take (n + 1) (map Arg_message ids @ [Arg_mailbox b])" for as
    using take_link_args [OF assms(1), of b] unfolding that by (auto simp: fun_eq_iff) metis
  ultimately show ?thesis using assms
    by (simp add: remove_chunk_def act_simps stmt_def bind_args_def delete_rows_def delete_links_def Let_def)
qed

lemma remove_chunks_ignored:
  assumes "\<forall>c \<in> set cs. length c < length ids" and "map_of (t_mailbox_messages db) b = Some rows"
  shows "\<exists>db'. for_each (\<lambda>c. remove_chunk Ignored b ids (length c)) cs db = (Ok (), db')
    \<and> t_message_to_mailbox db' = t_message_to_mailbox db
    \<and> map_of (t_mailbox_messages db') b = Some (filter (\<lambda>r. \<forall>c \<in> set cs. mm_message_id r \<notin> set (take (length c) ids)) rows)"
  using assms
proof (induction cs arbitrary: db rows)
  case (Cons c cs)
  let ?rows = "filter (\<lambda>r. mm_message_id r \<notin> set (take (length c) ids)) rows"
  let ?db = "db\<lparr>t_mailbox_messages := AList.update b ?rows (t_mailbox_messages db)\<rparr>"
  have "map_of (t_mailbox_messages ?db) b = Some ?rows" by (simp add: update_conv')
  from Cons.IH [OF _ this] Cons.prems remove_chunk_ignored [OF _ Cons.prems(2), of "length c" ids] show ?case
    by (auto simp: act_simps conj_commute)
qed (simp add: act_simps)

lemma chunks_prefixes:
  assumes "ids \<noteq> []" and "ChunkLimit \<le> length ids"
  shows "(\<forall>c \<in> set (chunk ChunkLimit ids). x \<notin> set (take (length c) ids)) \<longleftrightarrow> x \<notin> set (take ChunkLimit ids)"
proof
  assume all: "\<forall>c \<in> set (chunk ChunkLimit ids). x \<notin> set (take (length c) ids)"
  have "take ChunkLimit ids \<in> set (chunk ChunkLimit ids)"
    unfolding chunk_step [OF assms(1) ChunkLimit_pos] by (rule list.set_intros(1))
  from all [rule_format, OF this] assms(2) show "x \<notin> set (take ChunkLimit ids)" by (simp add: min_absorb2)
next
  assume x: "x \<notin> set (take ChunkLimit ids)"
  show "\<forall>c \<in> set (chunk ChunkLimit ids). x \<notin> set (take (length c) ids)"
  proof
    fix c assume "c \<in> set (chunk ChunkLimit ids)"
    then have "length c \<le> ChunkLimit" using chunk_parts by blast
    with x show "x \<notin> set (take (length c) ids)" using set_take_subset_set_take [of "length c" ChunkLimit ids] by blast
  qed
qed

lemma remove_many_refused:
  assumes "ChunkLimit < length ids"
  shows "RemoveMessagesFromMailbox_db Refused b ids db = (Err (ErrDB DB_arguments), db)"
proof -
  have "ids \<noteq> []" using assms by auto
  moreover have "length (take ChunkLimit ids) = ChunkLimit" using assms by simp
  ultimately show ?thesis using assms
    unfolding RemoveMessagesFromMailbox_chunks chunk_step [OF \<open>ids \<noteq> []\<close> ChunkLimit_pos] for_each.simps
    by (simp add: remove_chunk_def bind_args_def act_simps)
qed

lemma remove_many_ignored:
  assumes "map_of (t_mailbox_messages db) b = Some rows" and many: "ChunkLimit < length ids"
  shows "\<exists>db'. RemoveMessagesFromMailbox_db Ignored b ids db = (Ok (), db')
    \<and> t_message_to_mailbox db' = t_message_to_mailbox db
    \<and> map_of (t_mailbox_messages db') b = Some (filter (\<lambda>r. mm_message_id r \<notin> set (take ChunkLimit ids)) rows)"
proof -
  have ne: "ids \<noteq> []" using many by auto
  have "\<forall>c \<in> set (chunk ChunkLimit ids). length c < length ids"
  proof
    fix c assume "c \<in> set (chunk ChunkLimit ids)"
    from chunk_parts [OF this] many show "length c < length ids" by simp
  qed
  from remove_chunks_ignored [OF this assms(1)] show ?thesis
    unfolding RemoveMessagesFromMailbox_chunks chunks_prefixes [OF ne less_imp_le [OF many]] .
qed

section \<open>Properties\<close>

text \<open>
  C10: A successful AddMessagesToMailbox appends the messages, in the order given, to the table of the
  mailbox with the next UIDs of the mailbox, and returns them in that order with those UIDs, however many
  statements it takes. The messages were not in the mailbox.
\<close>

theorem add_messages_next_uids:
  assumes "db_ok db" and "AddMessagesToMailbox_db b ids db = (Ok res, db')" and "ids \<noteq> []"
  shows "\<exists>rows. mailbox_rows b db = Ok rows \<and> mailbox_rows b db' = Ok (rows @ new_rows (uid_seq b db) ids)
    \<and> map sr_InternalID res = map InternalID ids \<and> map sr_RemoteID res = map RemoteID ids
    \<and> map (\<lambda>r. unat (sr_UID r)) res = [uid_seq b db + 1..<uid_seq b db + 1 + length ids]
    \<and> uid_seq b db' = uid_seq b db + length ids
    \<and> set (map mm_message_id rows) \<inter> set (map InternalID ids) = {}"
proof -
  from AddMessagesToMailbox_result [OF assms] obtain rows where rows: "map_of (t_mailbox_messages db) b = Some rows"
    and db': "db' = with_messages b rows ids db" and d: "distinct (map mm_message_id rows @ map InternalID ids)"
    and res: "scan_rows db' (new_rows (uid_seq b db) ids) = Ok res" by blast
  have "mailbox_rows b db = Ok rows" using rows by (simp add: mailbox_rows_def)
  moreover have "mailbox_rows b db' = Ok (rows @ new_rows (uid_seq b db) ids)"
    unfolding db' by (rule mailbox_rows_with_messages)
  moreover have "set (map mm_message_id rows) \<inter> set (map InternalID ids) = {}" using d by simp
  ultimately show ?thesis
    using scan_rows_columns [OF res] unfolding new_rows_columns by (intro exI [of _ rows]) (simp add: db')
qed

definition example_box :: database where
  "example_box = empty_database\<lparr>t_mailboxes := [\<lparr>mbx_ID = 1, mbx_RemoteID = ''r1'', mbx_Name = ''INBOX'',
       mbx_UIDValidity = 7, mbx_Subscribed = True\<rparr>], t_mailbox_seq := 1, t_mailbox_messages := [(1, [])],
     t_messages := map (\<lambda>i. \<lparr>msg_ID = i, msg_RemoteID = (if i = 8 then ''a'' else ''b''), msg_Date = 0, msg_Size = 3,
       msg_Body = [], msg_BodyStructure = [], msg_Envelope = [], msg_Deleted = False\<rparr>) [8, 9]\<rparr>"

lemma example_box_ok: "db_ok example_box"
  by (simp add: db_ok_defs example_box_def empty_database_def mailbox_ids_def message_ids_def refers_def contents_def
      rows_ok_def max_rowid_def)

theorem add_messages_next_uids_witness:
  "\<exists>res. fst (AddMessagesToMailbox_db 1 [\<lparr>InternalID = 9, RemoteID = ''b''\<rparr>, \<lparr>InternalID = 8, RemoteID = ''a''\<rparr>] example_box)
      = Ok res \<and> map (\<lambda>r. unat (sr_UID r)) res = [1, 2]"
proof -
  let ?ids = "[\<lparr>InternalID = 9, RemoteID = ''b''\<rparr>, \<lparr>InternalID = 8, RemoteID = ''a''\<rparr>]"
  obtain r db' where r: "AddMessagesToMailbox_db 1 ?ids example_box = (r, db')" by fastforce
  have "\<exists>res. r = Ok res"
    using r by (auto simp: example_box_def AddMessagesToMailbox_db_def insert_rows_of_mailbox_def insert_links_def new_rows_def
        uid_seq_def empty_database_def max_rowid_def ChunkLimit_def chunk.simps stmt_def
        GetMailboxMessageUIDsWithFlagsAfterAddOrUIDBump_def mailbox_rows_def scan_row_def scan_uid_def act_simps
        update_conv' distinct_update)
  then obtain res where res: "r = Ok res" ..
  have "uid_seq 1 example_box = 0" by (simp add: uid_seq_def example_box_def empty_database_def)
  with add_messages_next_uids [OF example_box_ok, of 1 ?ids res db'] r res show ?thesis by (auto simp: upt_rec numeral_2_eq_2)
qed

text \<open>
  C21: A mailbox that CreateMailbox created is found by its name, its remote ID and its ID, is subscribed and
  empty and has the flags, permanent flags and attributes it was created with; its ID is new, and the
  other mailboxes are as before.
\<close>

lemma values_of_fresh:
  "b \<notin> fst ` set rows \<Longrightarrow> values_of b (rows @ map (\<lambda>f. (b, f)) vs) = vs"
  by (auto simp: values_of_def filter_empty_conv image_iff comp_def)

lemma query_row_snoc: "filter P xs = [] \<Longrightarrow> P x \<Longrightarrow> query_row (filter P (xs @ [x])) = Ok x"
  by (simp add: query_row_def)

theorem create_mailbox_found:
  assumes ok: "db_ok db" and c: "CreateMailbox r n fl pf at v db = (Ok m, db')"
  shows "GetMailboxByName n db' = Ok m \<and> GetMailboxByRemoteID r db' = Ok m \<and> GetMailboxByID (mbx_ID m) db' = Ok m
    \<and> mbx_Subscribed m \<and> mbx_UIDValidity m = v \<and> mailbox_rows (mbx_ID m) db' = Ok []
    \<and> GetMailboxFlags (mbx_ID m) db' = Ok (NewFlagSet (Values fl))
    \<and> GetMailboxPermanentFlags (mbx_ID m) db' = Ok (NewFlagSet (Values pf))
    \<and> GetMailboxAttributes (mbx_ID m) db' = Ok (NewFlagSet (Values at))
    \<and> mbx_ID m \<notin> mailbox_ids db \<and> t_mailboxes db' = t_mailboxes db @ [m]"
proof -
  note R = CreateMailbox_result [OF ok c]
  have fresh: "mbx_ID m \<notin> mailbox_ids db" using R new_id_fresh(1) [OF ok] by (simp add: new_mailbox_def)
  then have texts: "mbx_ID m \<notin> fst ` set (get_texts t db)" for t
    using refers_get_texts [OF ok, of t] by (auto simp: refers_def)
  have T: "map_of (t_mailbox_messages db) (mbx_ID m) = None"
    using contentsD(3) [OF ok] fresh unfolding contents_def by (auto simp: domIff)
  have "filter (\<lambda>m. mbx_Name m = n) (t_mailboxes db) = []" "filter (\<lambda>m. mbx_RemoteID m = r) (t_mailboxes db) = []"
    "filter (\<lambda>m'. mbx_ID m' = mbx_ID m) (t_mailboxes db) = []"
    using R fresh unfolding filter_empty_conv mailbox_ids_def by (blast, blast, metis imageI)
  moreover have "mbx_Name m = n" "mbx_RemoteID m = r" "mbx_Subscribed m" "mbx_UIDValidity m = v"
    using R by (simp_all add: new_mailbox_def)
  ultimately show ?thesis
    using R fresh texts [of Mailbox_flags] texts [of Mailbox_perm_flags] texts [of Mailbox_attrs] T
    by (simp add: GetMailboxByName_def GetMailboxByRemoteID_def GetMailboxByID_def query_row_def mailbox_rows_def
        GetMailboxFlags_def GetMailboxPermanentFlags_def GetMailboxAttributes_def with_mailbox_def values_of_fresh map_add_def)
qed

theorem create_mailbox_found_witness:
  "\<exists>m db'. CreateMailbox ''r'' ''Sent'' (NewFlagSet [''a'']) [] [] 3 empty_database = (Ok m, db') \<and> GetMailboxByName ''Sent'' db' = Ok m"
proof -
  obtain x db' where x: "CreateMailbox ''r'' ''Sent'' (NewFlagSet [''a'']) [] [] 3 empty_database = (x, db')" by fastforce
  have "Values (NewFlagSet [''a'']) = [''a'']" by code_simp
  then have "\<exists>m. x = Ok m"
    using x by (auto simp: CreateMailbox_def MapLabelsUniqueConstraintError_def insert_mailbox_def create_mailbox_table_def
        insert_text_def empty_database_def Values_def [of "[]"] max_rowid_def new_mailbox_def stmt_def act_simps)
  with create_mailbox_found [OF db_ok_empty] x show ?thesis by blast
qed

text \<open>
  C22: SetFlagsOnMessages on one message gives it exactly the flags, and leaves the other messages alone. On
  two or more messages of one chunk it does not: a driver that refuses surplus arguments fails, and one that ignores
  them sets the flags on the first message only and merely removes flags from the others.
\<close>

theorem set_flags_on_messages:
  assumes "i \<in> message_ids db" and "Values flags \<noteq> []"
  shows "(\<exists>db'. SetFlagsOnMessages p [i] flags db = (Ok (), db') \<and> set (message_flags i db') = set (Values flags)
      \<and> (\<forall>j. j \<noteq> i \<longrightarrow> set (message_flags j db') = set (message_flags j db)))
    \<and> (ids \<noteq> [] \<and> length ids < ChunkLimit div 2 \<longrightarrow>
        (\<exists>db'. SetFlagsOnMessages Refused (i # ids) flags db = (Err (ErrDB DB_arguments), db'))
      \<and> (\<exists>db'. SetFlagsOnMessages Ignored (i # ids) flags db = (Ok (), db') \<and> set (message_flags i db') = set (Values flags)
          \<and> (\<forall>j \<in> set ids - {i}. set (message_flags j db') = set (message_flags j db) \<inter> set (Values flags))))"
proof (intro conjI impI)
  have "SetFlagsOnMessages p [i] flags = set_flags_chunk p (Values flags) [i]"
    by (rule SetFlagsOnMessages_one_chunk) (use assms in \<open>simp_all add: ChunkLimit_def\<close>)
  with set_flags_chunk_result [OF assms(1), of p "[]" "Values flags"]
  show "\<exists>db'. SetFlagsOnMessages p [i] flags db = (Ok (), db') \<and> set (message_flags i db') = set (Values flags)
      \<and> (\<forall>j. j \<noteq> i \<longrightarrow> set (message_flags j db') = set (message_flags j db))" by auto
next
  assume ids: "ids \<noteq> [] \<and> length ids < ChunkLimit div 2"
  have one: "SetFlagsOnMessages p (i # ids) flags = set_flags_chunk p (Values flags) (i # ids)" for p
    by (rule SetFlagsOnMessages_one_chunk) (use assms ids in simp_all)
  have "bind_args Refused (2 * length (Values flags)) (flag_args (i # ids) (Values flags)) = None"
    using ids assms(2) by (cases ids) (simp_all add: bind_args_def)
  then show "\<exists>db'. SetFlagsOnMessages Refused (i # ids) flags db = (Err (ErrDB DB_arguments), db')"
    unfolding one by (simp add: set_flags_chunk_def act_simps stmt_def delete_message_flags_def)
  from set_flags_chunk_result [OF assms(1), of Ignored ids "Values flags"]
  show "\<exists>db'. SetFlagsOnMessages Ignored (i # ids) flags db = (Ok (), db') \<and> set (message_flags i db') = set (Values flags)
      \<and> (\<forall>j \<in> set ids - {i}. set (message_flags j db') = set (message_flags j db) \<inter> set (Values flags))"
    unfolding one by blast
qed

theorem set_flags_on_messages_witness:
  "\<exists>db'. SetFlagsOnMessages Ignored [8, 9] (NewFlagSet [''a'']) example_box = (Ok (), db')
     \<and> set (message_flags 8 db') = {''a''} \<and> set (message_flags 9 db') = {}"
proof -
  have v: "Values (NewFlagSet [''a'']) = [''a'']" by code_simp
  have "(8 :: 128 word) \<in> message_ids example_box" by (simp add: example_box_def message_ids_def)
  moreover have "message_flags 9 example_box = []" by (simp add: example_box_def message_flags_def values_of_def empty_database_def)
  ultimately show ?thesis
    using set_flags_on_messages [of 8 example_box "NewFlagSet [''a'']" Ignored "[9]"] v by (auto simp: ChunkLimit_def)
qed

text \<open>
  C23: RemoveMessagesFromMailbox with at most \<open>ChunkLimit\<close> messages removes exactly their rows from the
  table of the mailbox and their links. With more messages it does not: a driver that refuses surplus
  arguments fails; one that ignores them removes the rows of the first \<open>ChunkLimit\<close> messages and no links.
\<close>

theorem remove_messages_from_mailbox:
  assumes "map_of (t_mailbox_messages db) b = Some rows" and "ids \<noteq> []"
  shows "(length ids \<le> ChunkLimit \<longrightarrow>
      RemoveMessagesFromMailbox_db p b ids db = (Ok (), without_messages b rows (set ids) db))
    \<and> (ChunkLimit < length ids \<longrightarrow>
        RemoveMessagesFromMailbox_db Refused b ids db = (Err (ErrDB DB_arguments), db)
      \<and> (\<exists>db'. RemoveMessagesFromMailbox_db Ignored b ids db = (Ok (), db')
          \<and> t_message_to_mailbox db' = t_message_to_mailbox db
          \<and> map_of (t_mailbox_messages db') b = Some (filter (\<lambda>r. mm_message_id r \<notin> set (take ChunkLimit ids)) rows)))"
  using RemoveMessagesFromMailbox_result [OF assms(2)] remove_many_refused remove_many_ignored assms(1) by simp

theorem remove_messages_from_mailbox_witness:
  "RemoveMessagesFromMailbox_db Refused 1 (replicate (ChunkLimit + 1) 5) example_box = (Err (ErrDB DB_arguments), example_box)
   \<and> RemoveMessagesFromMailbox_db Refused 1 [5] example_box = (Ok (), without_messages 1 [] {5} example_box)"
  using remove_messages_from_mailbox [of example_box 1 "[]" "replicate (ChunkLimit + 1) 5" Refused]
    remove_messages_from_mailbox [of example_box 1 "[]" "[5]" Refused]
  by (simp add: example_box_def Suc_le_eq ChunkLimit_pos)

end
