(* ===== verification/Backend_Props.thy ===== *)
theory Backend_Props
  imports Backend_Updates Db_Mailbox
begin

text \<open>
  Invariants of the database under everything a user does. The locale \<open>db_invariant\<close> is the contract of an
  invariant with the operations of \<open>db.Transaction\<close>: a write that succeeds keeps it, and the writes after which
  the caller may go on in spite of an error keep it in any case. From that contract alone every action, command
  and connector update keeps the invariant, whatever the connector does with its interface. The consistency of
  the tables and the permanence of the UIDs are two such invariants.
\<close>

section \<open>From the database to the world\<close>

lemma commits_list [commits_intros]:
  "commits P m \<Longrightarrow> (\<And>y ys. commits P (f y ys)) \<Longrightarrow> commits P (case l of [] \<Rightarrow> m | y # ys \<Rightarrow> f y ys)"
  by (cases l) simp_all

lemma keeps_list [keeps_intros]:
  "keeps P m \<Longrightarrow> (\<And>y ys. keeps P (f y ys)) \<Longrightarrow> keeps P (case l of [] \<Rightarrow> m | y # ys \<Rightarrow> f y ys)"
  by (cases l) simp_all

lemma commits_on_db: "commits P m \<Longrightarrow> commits (\<lambda>w. P (w_db w)) (on_db m)"
  unfolding commits_def on_db_def by (auto split: prod.splits)

lemma keeps_on_db: "keeps P m \<Longrightarrow> keeps (\<lambda>w. P (w_db w)) (on_db m)"
  unfolding keeps_def on_db_def by (auto split: prod.splits)

text \<open>Operations that leave the database alone.\<close>

definition same_db :: "'a uact \<Rightarrow> bool" where
  "same_db m \<longleftrightarrow> (\<forall>w. w_db (snd (m w)) = w_db w)"

named_theorems same_db_intros \<open>operations that leave the database alone\<close>

lemma same_db_keeps: "same_db m \<Longrightarrow> keeps (\<lambda>w. P (w_db w)) m"
  unfolding same_db_def keeps_def by simp

lemma same_db_bind [same_db_intros]: "same_db m \<Longrightarrow> (\<And>x. same_db (f x)) \<Longrightarrow> same_db (act_bind m f)"
  unfolding same_db_def act_simps by (auto split: prod.splits outcome.splits) (metis snd_conv)+

lemma same_db_then [same_db_intros]: "same_db m \<Longrightarrow> same_db m' \<Longrightarrow> same_db (act_then m m')"
  unfolding act_then_def by (rule same_db_bind)

lemma same_db_pure [same_db_intros]:
  "same_db (ret x)" "same_db (fail e)" "same_db (act_panic p)" "same_db (reads f)" "same_db (lift r)"
  "same_db tick" "same_db (rd g)" "same_db (check c)"
  by (simp_all add: same_db_def act_simps tick_def rd_def on_db_def check_def split: option.splits)

lemma same_db_modify: "(\<And>w. w_db (g w) = w_db w) \<Longrightarrow> same_db (modify g)"
  by (simp add: same_db_def act_simps)

lemma same_db_attempt [same_db_intros]: "same_db m \<Longrightarrow> same_db (attempt m)"
  unfolding same_db_def act_simps by (auto split: prod.splits outcome.splits) (metis snd_conv)+

lemma same_db_if [same_db_intros]: "(b \<Longrightarrow> same_db m) \<Longrightarrow> (\<not> b \<Longrightarrow> same_db m') \<Longrightarrow> same_db (if b then m else m')"
  by simp

lemma same_db_cases [same_db_intros]:
  "same_db m \<Longrightarrow> (\<And>y. same_db (f y)) \<Longrightarrow> same_db (case x of None \<Rightarrow> m | Some y \<Rightarrow> f y)"
  "(\<And>e. same_db (g e)) \<Longrightarrow> (\<And>y. same_db (f' y)) \<Longrightarrow> same_db (case s of Inl e \<Rightarrow> g e | Inr y \<Rightarrow> f' y)"
  "(\<And>a b. same_db (h a b)) \<Longrightarrow> same_db (case z of (a, b) \<Rightarrow> h a b)"
  "same_db m \<Longrightarrow> (\<And>y ys. same_db (k y ys)) \<Longrightarrow> same_db (case l of [] \<Rightarrow> m | y # ys \<Rightarrow> k y ys)"
  by (simp_all split: option.splits sum.splits prod.splits list.splits)

lemma same_db_for_each: "(\<And>x. same_db (f x)) \<Longrightarrow> same_db (for_each f xs)"
  by (induction xs) (auto intro!: same_db_intros)

lemma same_db_for_all: "(\<And>x. same_db (f x)) \<Longrightarrow> same_db (for_all f xs)"
  by (induction xs) (auto intro!: same_db_intros)

lemma same_db_fold_act: "(\<And>x b. same_db (f x b)) \<Longrightarrow> same_db (fold_act f xs b)"
  by (induction xs arbitrary: b) (auto intro!: same_db_intros)

lemma same_db_store [same_db_intros]:
  "same_db (store_call env)" "same_db (store_Set env i l)" "same_db (store_Get env i)" "same_db (store_Delete env is)"
  unfolding store_Set_def store_Get_def store_Delete_def store_call_def
  by (intro same_db_intros same_db_modify same_db_for_each; simp)+

lemma same_db_on_hashes [same_db_intros]: "same_db (on_hashes f)"
  by (auto simp: same_db_def on_hashes_def split: prod.splits)

lemma same_db_states [same_db_intros]:
  "same_db (own sid)" "same_db (set_own sid g)" "same_db (queueStateUpdate us)"
  "same_db (QueueOrApplyStateUpdate ctx sid us)" "same_db (newState sid)"
  by (simp_all add: same_db_def act_simps own_def set_own_def queueStateUpdate_def newState_def
      QueueOrApplyStateUpdate_def Let_def split: prod.splits)

lemma same_db_helpers [same_db_intros]:
  "same_db (GenerateUIDValidity env)" "same_db (NewInternalMessageID env)" "same_db (erase_hashes is)"
  "same_db (not_found_is e (rd g))" "same_db (find_mailbox name)" "same_db (load_snapshot mbox)"
  "same_db (handle_snap sid h)" "same_db (messages_in ctx seq snap)" "same_db (known_literal env l)"
  "same_db (known_message r)" "same_db (known_mailbox ign r)" "same_db (store_new env msg i l)" "same_db (snap_mboxID st)"
  "same_db (missing_names ns)" "same_db (close_selected sid)" "same_db (sc_GetMessageLiteral env r)"
  unfolding GenerateUIDValidity_def NewInternalMessageID_def erase_hashes_def not_found_is_def find_mailbox_def
    load_snapshot_def handle_snap_def messages_in_def known_literal_def known_message_def known_mailbox_def
    store_new_def snap_mboxID_def missing_names_def close_selected_def sc_GetMessageLiteral_def
  by (intro same_db_intros same_db_for_all | assumption)+

text \<open>A transaction keeps what success keeps.\<close>

lemma keeps_db_Write:
  assumes "commits (\<lambda>w. P (w_db w)) op"
  shows "keeps (\<lambda>w. P (w_db w)) (db_Write env op)"
proof (rule keepsI)
  fix w :: world assume "P (w_db w)"
  with assms show "P (w_db (snd (db_Write env op w)))"
    by (auto simp: db_Write_def commits_def split: prod.splits outcome.splits)
      (metis (no_types, lifting) world.select_convs(1) world.surjective world.update_convs(6))
qed

lemma commits_db_Write: "commits (\<lambda>w. P (w_db w)) op \<Longrightarrow> commits (\<lambda>w. P (w_db w)) (db_Write env op)"
  by (rule keeps_commits) (rule keeps_db_Write)

section \<open>The contract of an invariant\<close>

text \<open>Writes after which a caller may go on although they failed.\<close>

fun error_safe :: "write_op \<Rightarrow> bool" where
  "error_safe (W_CreateMailbox r n fl pf at v) \<longleftrightarrow> True"
| "error_safe (W_RenameMailboxWithRemoteID r n) \<longleftrightarrow> True"
| "error_safe (W_DeleteMailboxWithRemoteIDSilent r) \<longleftrightarrow> True"
| "error_safe (W_AddFlagsToAllMailboxes fs) \<longleftrightarrow> True"
| "error_safe (W_AddPermFlagsToAllMailboxes fs) \<longleftrightarrow> True"
| "error_safe (W_AddFlagToMessages ids fl) \<longleftrightarrow> True"
| "error_safe (W_RemoveFlagFromMessages ids fl) \<longleftrightarrow> True"
| "error_safe (W_MarkMessageAsDeletedWithRemoteID r) \<longleftrightarrow> True"
| "error_safe (W_RemoveDeletedSubscriptionWithName n) \<longleftrightarrow> True"
| "error_safe (W_StoreConnectorSettings s) \<longleftrightarrow> True"
| "error_safe _ \<longleftrightarrow> False"

text \<open>Removals that the database performs (\<open>Db_Mailbox.remove_messages_from_mailbox\<close>) or refuses.\<close>

definition removable :: "extra_args \<Rightarrow> 'a list \<Rightarrow> bool" where
  "removable p ids \<longleftrightarrow> p = Refused \<or> length ids \<le> ChunkLimit"

fun writable :: "extra_args \<Rightarrow> write_op \<Rightarrow> bool" where
  "writable p (W_RemoveMessagesFromMailbox b ids) \<longleftrightarrow> removable p ids"
| "writable p _ \<longleftrightarrow> True"

lemma removable_filter: "removable p ids \<Longrightarrow> removable p (filter f ids)"
  unfolding removable_def by (meson length_filter_le le_trans)

lemma removable_map [simp]: "removable p (map f ids) = removable p ids"
  by (simp add: removable_def)

lemma removable_single [simp]: "removable p [i]"
  by (simp add: removable_def ChunkLimit_def)

lemma commits_no_result_iff: "commits P (no_result m) \<Longrightarrow> commits P m"
  unfolding no_result_def commits_def by (auto simp: then_Ok_iff act_simps)

lemma snd_no_result: "snd (no_result m s) = snd (m s)"
  by (auto simp: no_result_def act_simps split: prod.split outcome.split)

lemma keeps_no_result_iff: "keeps P (no_result m) \<Longrightarrow> keeps P m"
  by (simp add: keeps_def snd_no_result)

text \<open>What a command reads before it writes.\<close>

lemma find_mailbox_reads: "snd (find_mailbox name w) = w"
  by (auto simp: find_mailbox_def not_found_is_def rd_def on_db_def act_simps split: outcome.split sum.split)

lemma handle_snap_reads: "snd (handle_snap sid m w) = w"
  by (auto simp: handle_snap_def own_def act_simps split: option.split outcome.split)

lemma messages_in_reads: "snd (messages_in ctx seq snap w) = w"
  by (auto simp: messages_in_def act_simps split: outcome.split)

definition named_messages :: "cmd_ctx \<Rightarrow> StateID \<Rightarrow> MailboxHandle \<Rightarrow> SeqRange list \<Rightarrow> world \<Rightarrow> snapMsg list" where
  "named_messages ctx sid m seq w =
     (case fst (act_bind (handle_snap sid m) (messages_in ctx seq) w) of Ok msgs \<Rightarrow> msgs | _ \<Rightarrow> [])"

abbreviation to_expunge :: "cmd_ctx \<Rightarrow> SeqRange list option \<Rightarrow> snapshot \<Rightarrow> MessageIDPair list uact" where
  "to_expunge ctx seq snap \<equiv>
     (case seq of
        Some rs \<Rightarrow> act_bind (messages_in ctx rs snap) (\<lambda>msgs. ret (map sm_ID (filter toExpunge msgs)))
      | None \<Rightarrow> ret (getAllMessagesIDsMarkedDelete snap))"

lemma to_expunge_reads: "snd (to_expunge ctx seq snap w) = w"
  by (auto simp: messages_in_def act_simps split: option.split outcome.split)

definition expunged_messages :: "cmd_ctx \<Rightarrow> StateID \<Rightarrow> MailboxHandle \<Rightarrow> SeqRange list option \<Rightarrow> world \<Rightarrow> MessageIDPair list" where
  "expunged_messages ctx sid m seq w =
     (case fst (act_bind (handle_snap sid m) (to_expunge ctx seq) w) of Ok ids \<Rightarrow> ids | _ \<Rightarrow> [])"

locale db_invariant =
  fixes P :: "database \<Rightarrow> bool"
  assumes committed: "writable p op \<Longrightarrow> commits P (exec_write p op)"
    and go_on: "error_safe op \<Longrightarrow> keeps P (exec_write p op)"
begin

abbreviation inv :: "world \<Rightarrow> bool" where
  "inv w \<equiv> P (w_db w)"

lemma keeps_safe [keeps_intros]:
  "keeps P (CreateMailbox r n fl pf at v)" "keeps P (RenameMailboxWithRemoteID r n)"
  "keeps P (DeleteMailboxWithRemoteIDSilent r)" "keeps P (AddFlagsToAllMailboxes fs)"
  "keeps P (AddPermFlagsToAllMailboxes fs)" "keeps P (AddFlagToMessages ids f)"
  "keeps P (RemoveFlagFromMessages ids f)" "keeps P (RemoveDeletedSubscriptionWithName n)"
  "keeps P (MarkMessageAsDeletedWithRemoteID r)" "keeps P (StoreConnectorSettings s)"
  using go_on [of "W_CreateMailbox r n fl pf at v"] go_on [of "W_RenameMailboxWithRemoteID r n"]
    go_on [of "W_DeleteMailboxWithRemoteIDSilent r"] go_on [of "W_AddFlagsToAllMailboxes fs"]
    go_on [of "W_AddPermFlagsToAllMailboxes fs"] go_on [of "W_AddFlagToMessages ids f"]
    go_on [of "W_RemoveFlagFromMessages ids f"] go_on [of "W_RemoveDeletedSubscriptionWithName n"]
    go_on [of "W_MarkMessageAsDeletedWithRemoteID r"] go_on [of "W_StoreConnectorSettings s"]
  by (auto intro: keeps_no_result_iff)

lemma commits_write [commits_intros]:
  "commits P (CreateMailboxIfNotExists m d v)" "commits P (GetOrCreateMailboxAlt m d v)"
  "commits P (DeleteMailboxWithRemoteID r)" "commits P (AddMessagesToMailbox_db b ids)"
  "commits P (ClearRecentFlagInMailboxOnMessage b i)" "commits P (ClearRecentFlagsInMailbox b)"
  "commits P (SetMailboxMessagesDeletedFlag b is del)" "commits P (SetMailboxSubscribed b sub)"
  "commits P (UpdateRemoteMailboxID b r)" "commits P (SetMailboxUIDValidity b v)"
  "commits P (CreateMessages reqs)" "commits P (CreateMessageAndAddToMailbox b req)"
  "commits P (MarkMessageAsDeleted i)" "commits P (MarkMessageAsDeletedAndAssignRandomRemoteID u i)"
  "commits P (DeleteMessages is)" "commits P (UpdateRemoteMessageID i mr)" "commits P (SetFlagsOnMessages p is fs)"
  using committed [of p "W_CreateMailboxIfNotExists m d v"] committed [of p "W_GetOrCreateMailboxAlt m d v"]
    committed [of p "W_DeleteMailboxWithRemoteID r"] committed [of p "W_AddMessagesToMailbox b ids"]
    committed [of p "W_ClearRecentFlagInMailboxOnMessage b i"] committed [of p "W_ClearRecentFlagsInMailbox b"]
    committed [of p "W_SetMailboxMessagesDeletedFlag b is del"] committed [of p "W_SetMailboxSubscribed b sub"]
    committed [of p "W_UpdateRemoteMailboxID b r"] committed [of p "W_SetMailboxUIDValidity b v"]
    committed [of p "W_CreateMessages reqs"] committed [of p "W_CreateMessageAndAddToMailbox b req"]
    committed [of p "W_MarkMessageAsDeleted i"] committed [of p "W_MarkMessageAsDeletedAndAssignRandomRemoteID u i"]
    committed [of p "W_DeleteMessages is"] committed [of p "W_UpdateRemoteMessageID i mr"] committed [of p "W_SetFlagsOnMessages is fs"]
  by (auto intro: commits_no_result_iff)

lemma commits_remove: "removable p ids \<Longrightarrow> commits P (RemoveMessagesFromMailbox_db p b ids)"
  using committed [of p "W_RemoveMessagesFromMailbox b ids"] by simp

lemmas commits_safe [commits_intros] = keeps_safe [THEN keeps_commits]

text \<open>The same on the world.\<close>

lemma world_same: "same_db m \<Longrightarrow> keeps inv m"
  by (rule same_db_keeps)

lemmas world_leaves [keeps_intros] =
  same_db_pure(6-8) [THEN world_same] same_db_store [THEN world_same] same_db_on_hashes [THEN world_same]
  same_db_states [THEN world_same] same_db_helpers [THEN world_same]

lemmas world_leaves_commits [commits_intros] = world_leaves [THEN keeps_commits]

lemma world_keeps [keeps_intros]: "keeps P m \<Longrightarrow> keeps inv (on_db m)"
  by (rule keeps_on_db)

lemma world_commits [commits_intros]: "commits P m \<Longrightarrow> commits inv (on_db m)"
  by (rule commits_on_db)

lemma world_write [keeps_intros]: "commits inv m \<Longrightarrow> keeps inv (db_Write env m)"
  by (rule keeps_db_Write)

text \<open>Messages of a mailbox.\<close>

lemma commits_check [commits_intros]: "commits P (check c)" "commits P (check_room env b n)"
  unfolding check_def check_room_def by (auto intro!: commits_intros split: option.splits)

lemma commits_mailbox_messages:
  "commits P (AddMessagesToMailbox env b ids s)"
  "removable (en_extra env) is \<Longrightarrow> commits P (RemoveMessagesFromMailbox env b is)"
  "removable (en_extra env) is \<Longrightarrow> commits P (MoveMessagesFromMailbox env b b' ids is s rem)"
  unfolding AddMessagesToMailbox_def RemoveMessagesFromMailbox_def MoveMessagesFromMailbox_def
  by (intro commits_intros commits_remove | assumption)+

lemma keeps_setMessageFlags [keeps_intros]: "keeps P (user_setMessageFlags i fs)"
proof -
  have "keeps P (removeMessageFlags i f)" "keeps P (addMessageFlags i f)" for f
    unfolding removeMessageFlags_def addMessageFlags_def by (intro keeps_intros)+
  then show ?thesis
    unfolding user_setMessageFlags_def by (auto intro!: keeps_intros keeps_for_all split: list.splits)
qed

text \<open>The connector.\<close>

lemma keeps_cache [keeps_intros]: "keeps inv (cache_exec env del c)"
proof -
  have c: "keeps inv (create_checked env m v)" for m v
    unfolding create_checked_def by (intro keeps_intros)
  then have "keeps inv (cache_CreateMailbox env m)" for m
    unfolding cache_CreateMailbox_def by (intro keeps_intros)
  moreover have "keeps inv (cache_UpdateMessageFlags r fl)" for r fl
    unfolding cache_UpdateMessageFlags_def by (intro keeps_intros)
  ultimately show ?thesis
    by (cases c) (auto simp: no_updates_def cache_StoreSettings_def cache_PatchMailboxHierarchyWithoutTransforms_def
      cache_GetMailboxesWithoutAttrib_def intro!: keeps_intros)
qed

lemma keeps_run_remote [keeps_intros]: "keeps inv (run_remote env del prog us)"
  by (induction prog arbitrary: us) (auto intro!: keeps_intros)

lemma keeps_remote [keeps_intros]:
  "keeps inv (remote_call env f)" "keeps inv m \<Longrightarrow> keeps inv (updates_only m)"
  unfolding remote_call_def updates_only_def by (intro keeps_intros | assumption)+

lemma keeps_connector [keeps_intros]:
  "keeps inv (sc_CreateMailbox env name)" "keeps inv (sc_UpdateMailbox env r name)" "keeps inv (sc_DeleteMailbox env r)"
  "keeps inv (sc_CreateMessage env r l fl d)" "keeps inv (sc_AddMessagesToMailbox env mids r)"
  "keeps inv (sc_RemoveMessagesFromMailbox env mids r)" "keeps inv (sc_MoveMessagesFromMailbox env mids r r')"
  "keeps inv (sc_SetMessagesSeen env mids b)" "keeps inv (sc_SetMessagesFlagged env mids b)"
  "keeps inv (sc_SetMessagesForwarded env mids b)"
  unfolding sc_CreateMailbox_def sc_UpdateMailbox_def sc_DeleteMailbox_def sc_CreateMessage_def sc_AddMessagesToMailbox_def
    sc_RemoveMessagesFromMailbox_def sc_MoveMessagesFromMailbox_def sc_SetMessagesSeen_def sc_SetMessagesFlagged_def
    sc_SetMessagesForwarded_def
  by (intro keeps_intros)+

lemmas commits_connector [commits_intros] = keeps_connector [THEN keeps_commits]

text \<open>The actions.\<close>

lemma commits_flags [commits_intros]:
  "commits inv (applyMessageFlagsAdded env st is fs)" "commits inv (applyMessageFlagsRemoved env st is fs)"
  "commits inv (applyMessageFlagsSet env st is fs)"
  unfolding applyMessageFlagsAdded_def applyMessageFlagsRemoved_def applyMessageFlagsSet_def remote_flags_def doFlags_def
    doSetFlag_def deleted_flag_def Let_def
  by (intro commits_intros commits_for_all)+

lemma commits_mailbox_actions [commits_intros]:
  "commits inv (actionCreateAndGetMailbox env name v)" "commits inv (actionCreateMailbox env name v)"
  "commits inv (actionDeleteMailbox env mb)" "commits inv (actionUpdateMailbox env r name)"
  unfolding actionCreateAndGetMailbox_def actionCreateMailbox_def actionDeleteMailbox_def actionUpdateMailbox_def
  by (intro commits_intros)+

lemma commits_RemoveUnchecked:
  "removable (en_extra env) ids \<Longrightarrow> commits inv (actionRemoveMessagesFromMailboxUnchecked env ids mb)"
  unfolding actionRemoveMessagesFromMailboxUnchecked_def SplitMessageIDPairSlice_def Let_def prod.case
  by (intro commits_intros commits_mailbox_messages) simp

lemma removable_among: "removable p ids \<Longrightarrow> removable p (among have ids)"
  unfolding among_def by (rule removable_filter)

lemma commits_remove_actions:
  assumes "removable (en_extra env) ids"
  shows "commits inv (actionRemoveMessagesFromMailbox env ids mb)" "commits inv (remove_present env ids mb)"
  unfolding actionRemoveMessagesFromMailbox_def remove_present_def Let_def
  by (intro commits_intros commits_RemoveUnchecked removable_among assms)+

lemma commits_message_actions:
  assumes "removable (en_extra env) ids"
  shows "commits inv (actionAddMessagesToMailbox env st ids mb sel)" "commits inv (actionMoveMessages env st ids mb mb')"
  unfolding actionAddMessagesToMailbox_def actionMoveMessages_def SplitMessageIDPairSlice_def Let_def prod.case
  by (intro commits_intros commits_remove_actions commits_RemoveUnchecked commits_mailbox_messages; simp add: removable_among assms)+

lemma commits_create_actions [commits_intros]:
  "commits inv (actionCreateMessage env st mb l fl d sel dr)" "commits inv (actionCreateRecoveredMessage env l fl d)"
  "commits inv (actionImportRecoveredMessage env i r)"
  unfolding actionCreateMessage_def actionCreateRecoveredMessage_def actionImportRecoveredMessage_def Let_def
  by (intro commits_intros commits_message_actions keeps_intros removable_single)+

lemma commits_recovered_actions [commits_intros]:
  "commits inv (actionAddRecoveredMessagesToMailbox env st ids mb)"
  "commits inv (actionCopyMessagesOutOfRecoveryMailbox env st ids mb)"
  "removable (en_extra env) ids \<Longrightarrow> commits inv (actionMoveMessagesOutOfRecoveryMailbox env st ids mb)"
  unfolding actionAddRecoveredMessagesToMailbox_def actionCopyMessagesOutOfRecoveryMailbox_def
    actionMoveMessagesOutOfRecoveryMailbox_def Let_def
  by (intro commits_intros commits_mailbox_messages commits_for_all; simp)+

lemma commits_snapshot_flags [commits_intros]:
  "commits inv (actionAddMessageFlags env st ms fs)" "commits inv (actionRemoveMessageFlags env st ms fs)"
  "commits inv (actionSetMessageFlags env st ms fs)"
  unfolding actionAddMessageFlags_def actionRemoveMessageFlags_def actionSetMessageFlags_def by (intro commits_intros)+

text \<open>The commands.\<close>

lemma keeps_state_write [keeps_intros]:
  "commits inv m \<Longrightarrow> keeps inv (stateDBWrite env ctx sid m)"
  "commits inv m' \<Longrightarrow> keeps inv (stateDBWriteResult env ctx sid m')"
  "commits inv m \<Longrightarrow> keeps inv (userDBWrite env m)"
  unfolding stateDBWrite_def stateDBWriteResult_def userDBWrite_def
  by (intro keeps_intros world_leaves_commits; assumption)+

lemma keeps_mailbox_commands [keeps_intros]:
  "keeps inv (State_Commands.List env ref pat lsub)" "keeps inv (Select env ctx sid name)" "keeps inv (Examine sid name)"
  "keeps inv (Create env ctx sid name)" "keeps inv (Delete env ctx sid name)"
  "keeps inv (Subscribe env ctx sid name)" "keeps inv (Unsubscribe env ctx sid name)"
  "keeps inv (open_Mailbox sid name)" "keeps inv (AppendOnlyMailbox sid name)" "keeps inv (Selected sid)"
  "keeps inv (getLiteral env mid)" "keeps inv (IsDrafts m)" "keeps inv (Flush env ctx sid ex)" "keeps inv (mailbox_Close sid)"
  unfolding List_def Select_def Examine_def Create_def create_body_def Delete_def Subscribe_def Unsubscribe_def
    open_Mailbox_def AppendOnlyMailbox_def Selected_def getLiteral_def IsDrafts_def Flush_def mailbox_Close_def clear_recent_def Let_def
  by (intro keeps_intros commits_intros commits_for_all commits_for_each)+

lemma keeps_Rename:
  assumes "old = Inbox \<Longrightarrow> en_extra env = Refused"
  shows "keeps inv (Rename env ctx sid old new)"
proof -
  have "commits inv (renameInbox env st mb name)" if "en_extra env = Refused" for st mb name
    unfolding renameInbox_def using that by (intro commits_intros commits_message_actions) (simp add: removable_def)
  with assms show ?thesis
    unfolding Rename_def rename_body_def rename_superiors_def rename_create_def rename_inferior_def
    by (intro keeps_intros commits_intros commits_for_all commits_for_each) simp
qed

lemma keeps_append [keeps_intros]: "keeps inv (Append env ctx sid m l fl d)"
proof -
  have "keeps P (check_room env b n)" for b n
    unfolding check_room_def check_def by (intro keeps_intros)
  then show ?thesis
    unfolding Append_def AppendRegular_def Let_def
    by (intro keeps_intros commits_intros commits_message_actions removable_single)
qed

lemma keeps_store [keeps_intros]: "keeps inv (Store env ctx sid m seq act fl)"
  unfolding Store_def by (intro keeps_intros commits_intros) (auto intro: commits_intros split: StoreAction.split)

text \<open>The commands on several messages, when the database can remove them.\<close>

lemma inv_after_read:
  assumes "snd (m w) = w" and "inv w" and "\<And>x. m w = (Ok x, w) \<Longrightarrow> inv (snd (f x w))"
  shows "inv (snd (act_bind m f w))"
  using assms by (cases "m w"; cases "fst (m w)") (auto simp: act_simps)

lemma inv_named:
  assumes "inv w" and "removable (en_extra env) (named_messages ctx sid m seq w)"
    and k: "\<And>mbox snap msgs. removable (en_extra env) msgs \<Longrightarrow> keeps inv (k mbox snap msgs)"
  shows "inv (snd (act_bind (find_mailbox name) (\<lambda>mbox. act_bind (handle_snap sid m) (\<lambda>snap.
      act_bind (messages_in ctx seq snap) (k mbox snap))) w))"
proof (rule inv_after_read, rule find_mailbox_reads, rule assms(1), rule inv_after_read, rule handle_snap_reads, rule assms(1),
    rule inv_after_read, rule messages_in_reads, rule assms(1))
  fix mbox snap msgs
  assume "handle_snap sid m w = (Ok snap, w)" "messages_in ctx seq snap w = (Ok msgs, w)"
  then have "removable (en_extra env) msgs" using assms(2) by (simp add: named_messages_def bind_apply)
  then show "inv (snd (k mbox snap msgs w))" using keepsD [OF k assms(1)] by blast
qed

lemma inv_unless: "inv w \<Longrightarrow> inv (snd (m w)) \<Longrightarrow> inv (snd ((if b then fail e else m) w))"
  by (simp add: act_simps)

lemma inv_Copy_Move:
  assumes "inv w" and "removable (en_extra env) (named_messages ctx sid m seq w)"
  shows "inv (snd (Copy env ctx sid m seq name w))" "inv (snd (Move env ctx sid m seq name w))"
  unfolding Copy_def Move_def
  by (rule inv_unless [OF assms(1)], rule inv_named [OF assms],
      intro keeps_intros commits_intros commits_message_actions; simp)+

lemma inv_Expunge:
  assumes "inv w" and "removable (en_extra env) (expunged_messages ctx sid m seq w)"
  shows "inv (snd (Expunge env ctx sid m seq w))"
  unfolding Expunge_def
proof (rule inv_after_read, rule handle_snap_reads, rule assms(1), rule inv_after_read, rule to_expunge_reads, rule assms(1))
  fix snap ids
  assume "handle_snap sid m w = (Ok snap, w)" "to_expunge ctx seq snap w = (Ok ids, w)"
  then have "removable (en_extra env) ids" using assms(2) by (simp add: expunged_messages_def bind_apply)
  then have "keeps inv (stateDBWrite env ctx sid (actionRemoveMessagesFromMailbox env ids (mboxID snap)))"
    by (intro keeps_intros commits_remove_actions)
  from keepsD [OF this assms(1)]
  show "inv (snd (stateDBWrite env ctx sid (actionRemoveMessagesFromMailbox env ids (mboxID snap)) w))" .
qed

text \<open>The updates of the connector and the life of a user.\<close>

lemma commits_message_mailboxes [commits_intros]:
  "commits P (setMessageMailboxes env mp bs)" "commits inv (remove_everywhere env i)"
  unfolding setMessageMailboxes_def remove_everywhere_def applyMessagesAddedToMailbox_def applyMessagesRemovedFromMailbox_def
  by (intro commits_intros commits_for_all commits_mailbox_messages removable_single)+

lemmas commits_setMessageFlags [commits_intros] = keeps_setMessageFlags [THEN keeps_commits]

lemma commits_if_found [commits_intros]:
  "keeps inv m \<Longrightarrow> (\<And>x. commits inv (f x)) \<Longrightarrow> commits inv (if_found m f y)"
  unfolding if_found_def by (intro commits_intros)

lemma keeps_ignored [keeps_intros]: "keeps inv m \<Longrightarrow> keeps inv (ignored m)"
  unfolding ignored_def by (intro keeps_intros)

lemma keeps_mailbox_updates [keeps_intros]:
  "keeps inv (applyMailboxCreated env mb)" "keeps inv (applyMailboxDeleted env r)"
  "keeps inv (applyMailboxDeletedSilent env r)" "keeps inv (applyMailboxUpdated env r ns)"
  "keeps inv (applyMailboxIDChanged env b r)" "keeps inv (applyMailboxUpdatedOrCreated env mb)"
  unfolding applyMailboxCreated_def create_checked_def applyMailboxDeleted_def applyMailboxDeletedSilent_def applyMailboxUpdated_def
    applyMailboxIDChanged_def applyMailboxUpdatedOrCreated_def Let_def
  by (intro keeps_intros commits_intros keeps_commits)+

lemma keeps_flag_updates [keeps_intros]:
  "keeps inv (applyMessageMailboxesUpdated env r rs fl)" "keeps inv (applyMessageFlagsUpdated env r fl)"
  "keeps inv (applyMessageDeleted env r)" "keeps inv (applyUIDValidityBumped env)"
  unfolding applyMessageMailboxesUpdated_def applyMessageFlagsUpdated_def applyMessageDeleted_def applyUIDValidityBumped_def
  by (intro keeps_intros commits_intros commits_for_each)+

lemma keeps_applyMessageIDChanged [keeps_intros]: "keeps inv (applyMessageIDChanged env i r)"
proof -
  have "keeps inv (\<lambda>w. for_each (\<lambda>sid. act_bind (own sid) (\<lambda>st. act_bind (lift (UpdateMessageRemoteID i r st)) (\<lambda>st'. set_own sid (\<lambda>_. st'))))
      (ids w) w)" for ids :: "world \<Rightarrow> StateID list"
  proof (rule keepsI)
    fix w assume "inv w"
    moreover have "keeps inv (for_each (\<lambda>sid. act_bind (own sid) (\<lambda>st. act_bind (lift (UpdateMessageRemoteID i r st)) (\<lambda>st'. set_own sid (\<lambda>_. st'))))
        (ids w))" by (intro keeps_for_each keeps_intros)
    ultimately show "inv (snd (for_each (\<lambda>sid. act_bind (own sid) (\<lambda>st. act_bind (lift (UpdateMessageRemoteID i r st)) (\<lambda>st'. set_own sid (\<lambda>_. st'))))
        (ids w) w))" by (rule keepsD [rotated])
  qed
  then show ?thesis unfolding applyMessageIDChanged_def by (intro keeps_intros commits_intros)
qed

lemma keeps_message_updated [keeps_intros]: "keeps inv m' \<Longrightarrow> keeps inv (message_updated env m ign m')"
  unfolding message_updated_def update_message_def replace_message_def Let_def
  by (intro keeps_intros commits_intros commits_for_all commits_mailbox_messages)

lemma keeps_collect [keeps_intros]: "keeps inv (fold_act (collect_message env ign) ms c)"
  unfolding collect_message_def collect_new_def assign_mailbox_def
  by (intro world_same same_db_intros same_db_fold_act)

lemma keeps_applyMessagesCreated [keeps_intros]: "keeps inv (applyMessagesCreated env ms ign)"
proof -
  have "commits inv (create_and_assign env c)" for c
    unfolding create_and_assign_def create_collected_def add_to_mailbox_def applyMessagesAddedToMailbox_def Let_def
    by (intro commits_intros commits_for_all commits_for_each commits_mailbox_messages)
  then show ?thesis unfolding applyMessagesCreated_def by (intro keeps_intros keeps_for_each)
qed

lemma keeps_apply_update [keeps_intros]: "keeps inv (apply_update env u)"
  by (cases u) (auto simp: applyMessageUpdated_def intro!: keeps_intros)

lemma keeps_run_init [keeps_intros]: "keeps inv (run_init env prog)"
proof (induction prog)
  case (Init_write f k)
  then show ?case by (auto simp: DBIMAPState_Write_def intro!: keeps_intros keeps_commits)
qed (auto intro!: keeps_intros)

lemma keeps_user [keeps_intros]:
  "keeps inv (newUser env prog)" "keeps inv (removeState env sid)"
  "keeps inv (deleteAllMessagesMarkedDeleted env)" "keeps inv (cleanupStaleStoreData env)"
proof -
  have "commits inv (prefill_hash env m)" for m
    unfolding prefill_hash_def by (intro keeps_commits keeps_intros)
  then show "keeps inv (newUser env prog)" "keeps inv (removeState env sid)"
    "keeps inv (deleteAllMessagesMarkedDeleted env)" "keeps inv (cleanupStaleStoreData env)"
    unfolding newUser_def open_recovery_def removeState_def deleteAllMessagesMarkedDeleted_def cleanupStaleStoreData_def Let_def
    by (intro keeps_intros commits_intros commits_for_each keeps_modify; simp?)+
qed

end

section \<open>Consistency and permanence are such invariants\<close>

lemma keeps_CreateMailbox: "keeps db_ok (CreateMailbox r n fl pf at v)"
proof (rule keepsI)
  fix db assume ok: "db_ok db"
  let ?m = "new_mailbox r n v db"
  let ?texts = "\<lambda>t vs. for_each (\<lambda>f. stmt (insert_text t (mbx_ID ?m) f)) (Values vs)"
  let ?start = "act_then (MapLabelsUniqueConstraintError r n (stmt (insert_mailbox r n v))) (stmt (create_mailbox_table (mbx_ID ?m)))"
  let ?rest = "act_then (?texts Mailbox_flags fl) (act_then (?texts Mailbox_perm_flags pf) (act_then (?texts Mailbox_attrs at) (ret ?m)))"
  have run: "CreateMailbox r n fl pf at v db = act_then ?start ?rest db"
    by (simp add: CreateMailbox_def bind_apply reads_apply then_assoc)
  have rest: "keeps db_ok ?rest" by (intro keeps_intros keeps_for_each)
  show "db_ok (snd (CreateMailbox r n fl pf at v db))"
  proof (cases "insert_mailbox r n v db")
    case (Ok db2)
    have "t_mailbox_seq db < max_rowid" using Ok by (auto simp: insert_mailbox_def split: if_splits)
    from new_id_fresh [OF ok this] have "create_mailbox_table (mbx_ID ?m) db2 \<noteq> Err e" for e
      using Ok contentsD(3) [OF ok] unfolding contents_def
      by (auto simp: insert_mailbox_def create_mailbox_table_def new_mailbox_def split: if_splits)
    moreover have "create_mailbox_table (mbx_ID ?m) db2 \<noteq> Panic q" for q by (simp add: create_mailbox_table_def)
    ultimately obtain db3 where "create_mailbox_table (mbx_ID ?m) db2 = Ok db3" by (cases "create_mailbox_table (mbx_ID ?m) db2") auto
    with Ok have start: "?start db = (Ok (), db3)"
      by (simp add: act_simps stmt_def MapLabelsUniqueConstraintError_def)
    from create_mailbox_start [OF ok start] have "db_ok db3" ..
    with start rest show ?thesis unfolding run by (simp add: then_apply [of ?start] keepsD)
  next
    case (Err e)
    then have "snd (?start db) = db \<and> (\<exists>e'. fst (?start db) = Err e')"
      by (auto simp: act_simps stmt_def MapLabelsUniqueConstraintError_def split: db_error.splits)
    then show ?thesis unfolding run using ok by (auto simp: then_apply [of ?start] split: prod.splits)
  next
    case (Panic q)
    then show ?thesis by (simp add: insert_mailbox_def split: if_splits)
  qed
qed

lemma writable_cases:
  assumes "writable p op"
  shows "one_chunk op \<or> (\<exists>b ids. p = Refused \<and> ChunkLimit < length ids \<and> op = W_RemoveMessagesFromMailbox b ids)"
  using assms by (cases op) (auto simp: removable_def)

lemma refused_commits: "ChunkLimit < length ids \<Longrightarrow> commits P (exec_write Refused (W_RemoveMessagesFromMailbox b ids))"
  by (auto intro!: commitsI simp: remove_many_refused no_result_def act_simps)

lemma permanent_writable: "writable p op \<Longrightarrow> commits (permanent db0) (exec_write p op)"
  using writable_cases permanent_write refused_commits by blast

lemma permanent_go_on: "error_safe op \<Longrightarrow> keeps (permanent db0) (exec_write p op)"
  by (cases op)
    (auto intro!: keeps_no_result permanent_delete permanent_keeps keeps_intros keeps_CreateMailbox
       keeps_RemoveDeletedSubscription)

interpretation permanence: db_invariant "permanent db0" for db0
  by unfold_locales (simp_all add: permanent_writable permanent_go_on)

lemma consistent_go_on: "error_safe op \<Longrightarrow> keeps db_ok (exec_write p op)"
  by (cases op)
    (auto intro!: keeps_no_result keeps_DeleteMailbox keeps_intros keeps_CreateMailbox keeps_RemoveDeletedSubscription)

lemma consistent_writable: "writable p op \<Longrightarrow> commits db_ok (exec_write p op)"
  using writable_cases commits_exec_write refused_commits by blast

interpretation consistency: db_invariant db_ok
  by unfold_locales (simp_all add: consistent_writable consistent_go_on)

end
