(* ===== verification/Spec2Isabelle.thy ===== *)
theory Spec2Isabelle
  imports Command_Correct Imap_Flags Imap_SeqSet Imap_UidValidity Imap_Limits State_SnapMsg_Props State_Queue Backend_Props
begin

text \<open>
  \<^bold>\<open>Verification of gluon, an IMAP server library.\<close>
\<close>

end
